(* ===== verification/Os_Monad.thy ===== *)
theory Os_Monad
  imports Prelude
begin

text \<open>
  How the C code's system and library calls are modelled. A call is a name with its arguments; what
  the operating system does is a parameter \<open>os\<close> of every definition that makes calls: a function
  from the call and an abstract world to the call's result and the new world. The code's own
  effects (the world it threads, \<^verbatim>\<open>errno\<close>, the calls made so far with their results) are
  the fields of \<open>os_state\<close>, threaded by the library's state monad, so that a C statement
  sequence is a \<open>do\<close> block and an early return is a branch of it. \<open>wp\<close> is the weakest
  precondition of such a block and \<open>valid\<close> the Hoare triple; their rules are in the collection
  \<open>wp_simps\<close>.
\<close>

named_theorems wp_simps "weakest preconditions of the monad's operations"

subsection \<open>Calls and their results\<close>

text \<open>
  Arguments: a descriptor the caller obtained from its own tables (\<open>Fd\<close>), a descriptor a call
  just returned (\<open>New\<close>), an integer, a NUL-terminated string, a pointer into guest memory
  with the number of bytes the callee may access (\<open>Mem\<close>), and the contents of a buffer or
  structure in the caller's own memory (\<open>Bytes\<close>, \<open>Nums\<close>).
\<close>

datatype arg =
    Fd int
  | New int
  | Num int
  | Str string
  | Mem u64 nat
  | Bytes "byte list"
  | Nums "int list"

datatype oscall = Call (cname: string) (cargs: "arg list")

text \<open>
  The result of a call: its return value (\<open>-1\<close> also for a NULL or SEM\_FAILED pointer result), the
  number it stored into \<^verbatim>\<open>errno\<close> (0 when it left \<^verbatim>\<open>errno\<close> alone), and what it
  stored through pointers into the caller's own memory, as integers or as bytes.
\<close>

record osret =
  ret :: int
  err :: int
  nums :: "int list"
  payload :: "byte list"

type_synonym 'w os = "oscall \<Rightarrow> 'w \<Rightarrow> osret \<times> 'w"

record 'w os_state =
  world :: 'w
  errno :: int
  trace :: "(oscall \<times> osret) list"

definition call :: "'w os \<Rightarrow> string \<Rightarrow> arg list \<Rightarrow> (('w, 'z) os_state_scheme, osret) state" where
  "call os nm args = State (\<lambda>s.
     let (r, w) = os (Call nm args) (world s)
     in (r, s\<lparr>world := w, errno := (if err r = 0 then errno s else err r),
             trace := trace s @ [(Call nm args, r)]\<rparr>))"

definition calli :: "'w os \<Rightarrow> string \<Rightarrow> arg list \<Rightarrow> (('w, 'z) os_state_scheme, int) state" where
  "calli os nm args = do { r \<leftarrow> call os nm args; State_Monad.return (ret r) }"

definition gets :: "('s \<Rightarrow> 'a) \<Rightarrow> ('s, 'a) state" where
  "gets f = State (\<lambda>s. (f s, s))"

definition set_errno :: "int \<Rightarrow> (('w, 'z) os_state_scheme, unit) state" where
  "set_errno e = State (\<lambda>s. ((), s\<lparr>errno := e\<rparr>))"

text \<open>The C idiom \<^verbatim>\<open>errno = e; return -1;\<close>.\<close>

definition fail :: "int \<Rightarrow> (('w, 'z) os_state_scheme, int) state" where
  "fail e = do { set_errno e; State_Monad.return (-1) }"

subsection \<open>Weakest preconditions\<close>

definition wp :: "('s, 'a) state \<Rightarrow> ('a \<Rightarrow> 's \<Rightarrow> bool) \<Rightarrow> 's \<Rightarrow> bool" where
  "wp m Q s = (case run_state m s of (r, s') \<Rightarrow> Q r s')"

definition valid :: "('s \<Rightarrow> bool) \<Rightarrow> ('s, 'a) state \<Rightarrow> ('a \<Rightarrow> 's \<Rightarrow> bool) \<Rightarrow> bool" where
  "valid P m Q = (\<forall>s. P s \<longrightarrow> wp m Q s)"

lemma wp_bind [wp_simps]: "wp (State_Monad.bind m f) Q s = wp m (\<lambda>r. wp (f r) Q) s"
  by (simp add: wp_def State_Monad.bind_def split: prod.splits)

lemma wp_return [wp_simps]: "wp (State_Monad.return a) Q s = Q a s"
  by (simp add: wp_def State_Monad.return_def)

lemma wp_gets [wp_simps]: "wp (gets f) Q s = Q (f s) s"
  by (simp add: wp_def gets_def)

lemma wp_get [wp_simps]: "wp State_Monad.get Q s = Q s s"
  by (simp add: wp_def State_Monad.get_def)

lemma wp_update [wp_simps]: "wp (State_Monad.update f) Q s = Q () (f s)"
  by (simp add: wp_def State_Monad.update_def State_Monad.get_def State_Monad.set_def
      State_Monad.bind_def)

lemma wp_set_errno [wp_simps]: "wp (set_errno e) Q s = Q () (s\<lparr>errno := e\<rparr>)"
  by (simp add: wp_def set_errno_def)

lemma wp_fail [wp_simps]: "wp (fail e) Q s = Q (-1) (s\<lparr>errno := e\<rparr>)"
  by (simp add: fail_def wp_simps)

lemma wp_if [wp_simps]:
  "wp (if b then m else n) Q s = ((b \<longrightarrow> wp m Q s) \<and> (\<not> b \<longrightarrow> wp n Q s))"
  by simp

lemma wp_call [wp_simps]:
  "wp (call os nm args) Q s =
     (let (r, w) = os (Call nm args) (world s)
      in Q r (s\<lparr>world := w, errno := (if err r = 0 then errno s else err r),
               trace := trace s @ [(Call nm args, r)]\<rparr>))"
  by (simp add: wp_def call_def split: prod.splits)

lemma wp_mono: "wp m Q s \<Longrightarrow> (\<And>r s'. Q r s' \<Longrightarrow> R r s') \<Longrightarrow> wp m R s"
  by (auto simp: wp_def split: prod.splits)

lemma wp_bindI: "wp m P s \<Longrightarrow> (\<And>r t. P r t \<Longrightarrow> wp (f r) Q t) \<Longrightarrow> wp (State_Monad.bind m f) Q s"
  unfolding wp_bind by (rule wp_mono)

lemma wp_run: "wp m Q s \<Longrightarrow> run_state m s = (r, s') \<Longrightarrow> Q r s'"
  by (simp add: wp_def)

lemma wp_case_optionI:
  "(x = None \<Longrightarrow> wp m Q s) \<Longrightarrow> (\<And>y. x = Some y \<Longrightarrow> wp (f y) Q s) \<Longrightarrow>
     wp (case x of None \<Rightarrow> m | Some y \<Rightarrow> f y) Q s"
  by (cases x) auto

lemma call_trace: "wp (call os nm args) (\<lambda>r t. trace t = trace s @ [(Call nm args, r)]) s"
  by (simp add: wp_call split: prod.splits)

lemma validI: "(\<And>s. P s \<Longrightarrow> wp m Q s) \<Longrightarrow> valid P m Q"
  by (simp add: valid_def)

lemma validD: "valid P m Q \<Longrightarrow> P s \<Longrightarrow> wp m Q s"
  by (simp add: valid_def)

lemma valid_bind: "valid P m R \<Longrightarrow> (\<And>r. valid (R r) (f r) Q) \<Longrightarrow> valid P (State_Monad.bind m f) Q"
  by (simp add: valid_def wp_bind) (blast intro: wp_mono)

lemma valid_weaken:
  "valid P m Q \<Longrightarrow> (\<And>s. P' s \<Longrightarrow> P s) \<Longrightarrow> (\<And>r s. Q r s \<Longrightarrow> Q' r s) \<Longrightarrow> valid P' m Q'"
  by (simp add: valid_def) (blast intro: wp_mono)

subsection \<open>The calls a block makes\<close>

text \<open>\<open>emits P m\<close> says that every call \<open>m\<close> makes, from any state, satisfies \<open>P\<close>.\<close>

named_theorems emits_rules "syntax-directed rules for the calls a block makes"

definition since :: "(oscall \<Rightarrow> bool) \<Rightarrow> ('w, 'z) os_state_scheme \<Rightarrow> ('w, 'z) os_state_scheme \<Rightarrow> bool" where
  "since P s t \<longleftrightarrow> (\<exists>new. trace t = trace s @ new \<and> list_all (\<lambda>e. P (fst e)) new)"

definition emits :: "(oscall \<Rightarrow> bool) \<Rightarrow> (('w, 'z) os_state_scheme, 'a) state \<Rightarrow> bool" where
  "emits P m \<longleftrightarrow> (\<forall>s. wp m (\<lambda>_. since P s) s)"

lemma since_refl: "since P s s"
  by (simp add: since_def)

lemma since_trans: "since P s t \<Longrightarrow> since P t u \<Longrightarrow> since P s u"
  unfolding since_def by (auto simp: list_all_append)

lemma emits_since: "emits P m \<Longrightarrow> since P s t \<Longrightarrow> wp m (\<lambda>_. since P s) t"
  unfolding emits_def by (erule allE [of _ t], erule wp_mono) (rule since_trans)

lemma emits_bind [emits_rules]:
  "emits P m \<Longrightarrow> (\<And>r. emits P (f r)) \<Longrightarrow> emits P (State_Monad.bind m f)"
  unfolding emits_def [of P "State_Monad.bind m f"]
  by (intro allI wp_bindI [OF emits_since [OF _ since_refl]] emits_since)

lemma emits_basic [emits_rules]:
  "emits P (State_Monad.return a)" "emits P (gets f)" "emits P (set_errno e)" "emits P (fail e)"
  by (simp_all add: emits_def since_def wp_simps)

lemma emits_call [emits_rules]:
  "P (Call nm args) \<Longrightarrow> emits P (call os nm args)" "P (Call nm args) \<Longrightarrow> emits P (calli os nm args)"
  by (simp_all add: emits_def since_def wp_simps calli_def split: prod.splits)

lemma emits_update: "(\<And>s. trace (f s) = trace s) \<Longrightarrow> emits P (State_Monad.update f)"
  by (simp add: emits_def since_def wp_simps)

lemma emits_if [emits_rules]:
  "(b \<Longrightarrow> emits P m) \<Longrightarrow> (\<not> b \<Longrightarrow> emits P n) \<Longrightarrow> emits P (if b then m else n)"
  by simp

lemma emits_case_option [emits_rules]:
  "(x = None \<Longrightarrow> emits P m) \<Longrightarrow> (\<And>y. x = Some y \<Longrightarrow> emits P (f y)) \<Longrightarrow>
     emits P (case x of None \<Rightarrow> m | Some y \<Rightarrow> f y)"
  by (cases x) auto

lemma emitsD:
  assumes "emits P m" "run_state m s = (r, t)" "e \<in> set (drop (length (trace s)) (trace t))"
  shows "P (fst e)"
proof -
  have "wp m (\<lambda>_. since P s) s" using assms(1) by (simp add: emits_def)
  from wp_run [OF this assms(2)] have "since P s t" .
  then show ?thesis using assms(3) by (auto simp: since_def list_all_iff)
qed

end
