(* ===== verification/Sb_Queue.thy ===== *)
theory Sb_Queue
  imports Os_Monad
begin

text \<open>
  The console transport's byte queue and packet framing (\<^verbatim>\<open>src/src/sandbox_protocol.h\<close>), used by
  the launcher and by the guest's init process. A queue is a fixed buffer of \<open>SB_QUEUE\<close> bytes
  of which \<open>[start, end)\<close> is in use; appending compacts the used part to the front of the
  buffer when the tail has no room. The buffer is a function from indices to bytes; \<open>sb_ok\<close> is
  the invariant that the used range lies inside it, so that \<^verbatim>\<open>size_t\<close> subtraction does not
  wrap. The locales \<open>byte_queue\<close> and \<open>framed_queue\<close> state what the relays rely on.
\<close>

subsection \<open>The queue\<close>

definition SB_CHUNK :: nat where "SB_CHUNK = 8192"
definition SB_QUEUE :: nat where "SB_QUEUE = 131072"

definition SB_INPUT :: u32 where "SB_INPUT = 1"
definition SB_OUTPUT :: u32 where "SB_OUTPUT = 2"
definition SB_ERROR :: u32 where "SB_ERROR = 3"
definition SB_EOF :: u32 where "SB_EOF = 4"
definition SB_EXIT :: u32 where "SB_EXIT = 5"
definition SB_WINDOW :: u32 where "SB_WINDOW = 6"
definition SB_READY :: u32 where "SB_READY = 7"

lemmas sb_types = SB_INPUT_def SB_OUTPUT_def SB_ERROR_def SB_EOF_def SB_EXIT_def SB_WINDOW_def
  SB_READY_def

record sb_queue =
  qstart :: nat
  qend :: nat
  qdata :: "nat \<Rightarrow> byte"

text \<open>\<^verbatim>\<open>calloc(1, sizeof(struct sb_queue))\<close>\<close>

definition sb_new :: sb_queue where
  "sb_new = \<lparr>qstart = 0, qend = 0, qdata = (\<lambda>_. 0)\<rparr>"

definition sb_size :: "sb_queue \<Rightarrow> nat" where
  "sb_size q = qend q - qstart q"

definition sb_room :: "sb_queue \<Rightarrow> nat" where
  "sb_room q = SB_QUEUE - sb_size q"

definition sb_consume :: "sb_queue \<Rightarrow> nat \<Rightarrow> sb_queue" where
  "sb_consume q n =
     (let q = q\<lparr>qstart := qstart q + n\<rparr>
      in if qstart q = qend q then q\<lparr>qstart := 0, qend := 0\<rparr> else q)"

text \<open>\<^verbatim>\<open>memmove(q->data, q->data + q->start, sb_size(q))\<close> and the index updates.\<close>

definition sb_compact :: "sb_queue \<Rightarrow> sb_queue" where
  "sb_compact q =
     q\<lparr>qdata := (\<lambda>i. if i < sb_size q then qdata q (qstart q + i) else qdata q i),
       qend := qend q - qstart q, qstart := 0\<rparr>"

text \<open>\<^verbatim>\<open>memcpy(q->data + q->end, data, size)\<close>\<close>

definition sb_store :: "sb_queue \<Rightarrow> byte list \<Rightarrow> sb_queue" where
  "sb_store q bs =
     q\<lparr>qdata := (\<lambda>i. if qend q \<le> i \<and> i < qend q + length bs then bs ! (i - qend q) else qdata q i),
       qend := qend q + length bs\<rparr>"

definition sb_append :: "sb_queue \<Rightarrow> byte list \<Rightarrow> int + sb_queue" where
  "sb_append q bs =
     (if sb_room q < length bs then Inl ENOBUFS
      else let q = (if SB_QUEUE - qend q < length bs then sb_compact q else q)
           in Inr (sb_store q bs))"

text \<open>
  Appends the header, then the data. The C code ignores the first call's status; the check above it
  leaves no way for either call to fail.
\<close>

definition sb_packet :: "sb_queue \<Rightarrow> u32 \<Rightarrow> byte list \<Rightarrow> int + sb_queue" where
  "sb_packet q type bs =
     (if length bs > SB_CHUNK \<or> sb_room q < 8 + length bs then Inl ENOBUFS
      else let q = (case sb_append q (le32 type @ le32 (of_nat (length bs))) of
                      Inl _ \<Rightarrow> q | Inr q' \<Rightarrow> q')
           in sb_append q bs)"

datatype sb_frame = Incomplete | Invalid | Frame (ftype: u32) (fsize: nat) (fdata: "byte list")

definition sb_slice :: "sb_queue \<Rightarrow> nat \<Rightarrow> nat \<Rightarrow> byte list" where
  "sb_slice q off n = map (\<lambda>i. qdata q (qstart q + off + i)) [0..<n]"

definition sb_peek :: "sb_queue \<Rightarrow> sb_frame" where
  "sb_peek q =
     (if sb_size q < 8 then Incomplete
      else let type = of_nat (le_dec (sb_slice q 0 4)); size = le_dec (sb_slice q 4 4)
           in if size > SB_CHUNK then Invalid
              else if sb_size q < 8 + size then Incomplete
              else Frame type size (sb_slice q 8 size))"

subsection \<open>Transfers between a queue and a descriptor\<close>

definition sb_receive :: "'w os \<Rightarrow> int \<Rightarrow> sb_queue \<Rightarrow> (('w, 'z) os_state_scheme, int \<times> sb_queue) state" where
  "sb_receive os fd q =
     (let room = sb_room q in
      if room = 0 then State_Monad.return (1, q)
      else do {
        r \<leftarrow> call os ''read'' [Fd fd, Num (int (if room < SB_CHUNK then room else SB_CHUNK))];
        if ret r > 0 then
          (case sb_append q (take (nat (ret r)) (payload r)) of
             Inl e \<Rightarrow> do { set_errno e; State_Monad.return (-1, q) }
           | Inr q' \<Rightarrow> State_Monad.return (1, q'))
        else do {
          e \<leftarrow> gets errno;
          if ret r < 0 \<and> (e = EAGAIN \<or> e = EINTR) then State_Monad.return (1, q)
          else State_Monad.return (ret r, q)
        }
      })"

definition sb_flush :: "'w os \<Rightarrow> int \<Rightarrow> sb_queue \<Rightarrow> (('w, 'z) os_state_scheme, int \<times> sb_queue) state" where
  "sb_flush os fd q =
     (if sb_size q = 0 then State_Monad.return (0, q)
      else do {
        n \<leftarrow> calli os ''write'' [Fd fd, Bytes (sb_slice q 0 (sb_size q))];
        if n > 0 then State_Monad.return (0, sb_consume q (nat n))
        else do {
          e \<leftarrow> gets errno;
          if n < 0 \<and> (e = EAGAIN \<or> e = EINTR) then State_Monad.return (0, q)
          else State_Monad.return (-1, q)
        }
      })"

definition O_NONBLOCK :: int where "O_NONBLOCK = 2048"

definition sb_nonblock :: "'w os \<Rightarrow> int \<Rightarrow> (('w, 'z) os_state_scheme, int) state" where
  "sb_nonblock os fd = do {
     flags \<leftarrow> calli os ''fcntl_getfl'' [Fd fd];
     if flags < 0 then State_Monad.return (-1)
     else calli os ''fcntl_setfl'' [Fd fd, Num (flags OR O_NONBLOCK)]
   }"

text \<open>
  \<^verbatim>\<open>sb_write_all\<close> loops until the buffer is written; a write interrupted by a signal is repeated,
  so a world that interrupts for ever keeps the loop running: the fuel bounds the number of calls,
  and running out of it is \<open>None\<close>.
\<close>

primrec sb_write_all :: "nat \<Rightarrow> 'w os \<Rightarrow> int \<Rightarrow> byte list \<Rightarrow> (('w, 'z) os_state_scheme, int option) state" where
  "sb_write_all 0 os fd bs = State_Monad.return (if bs = [] then Some 0 else None)"
| "sb_write_all (Suc fuel) os fd bs =
     (if bs = [] then State_Monad.return (Some 0)
      else do {
        n \<leftarrow> calli os ''write'' [Fd fd, Bytes bs];
        e \<leftarrow> gets errno;
        if n < 0 \<and> e = EINTR then sb_write_all fuel os fd bs
        else if n \<le> 0 then State_Monad.return (Some (-1))
        else sb_write_all fuel os fd (drop (nat n) bs)
      })"

subsection \<open>The stream a queue holds\<close>

definition sb_ok :: "sb_queue \<Rightarrow> bool" where
  "sb_ok q \<longleftrightarrow> qstart q \<le> qend q \<and> qend q \<le> SB_QUEUE"

definition sb_bytes :: "sb_queue \<Rightarrow> byte list" where
  "sb_bytes q = map (qdata q) [qstart q..<qend q]"

lemma length_sb_bytes [simp]: "length (sb_bytes q) = sb_size q"
  by (simp add: sb_bytes_def sb_size_def)

lemma nth_sb_bytes: "i < sb_size q \<Longrightarrow> sb_bytes q ! i = qdata q (qstart q + i)"
  by (simp add: sb_bytes_def sb_size_def)

lemma sb_slice_bytes: "off + n \<le> sb_size q \<Longrightarrow> sb_slice q off n = take n (drop off (sb_bytes q))"
  by (rule nth_equalityI) (auto simp: sb_slice_def nth_sb_bytes add.assoc)

lemma sb_ok_new [simp]: "sb_ok sb_new" and sb_bytes_new [simp]: "sb_bytes sb_new = []"
  by (simp_all add: sb_ok_def sb_new_def sb_bytes_def)

lemma sb_size_new [simp]: "sb_size sb_new = 0"
  by (simp add: sb_size_def sb_new_def)

lemma sb_size_bound: "sb_ok q \<Longrightarrow> sb_size q \<le> SB_QUEUE"
  by (auto simp: sb_ok_def sb_size_def)

lemma sb_compact_ok: "sb_ok q \<Longrightarrow> sb_ok (sb_compact q) \<and> sb_bytes (sb_compact q) = sb_bytes q"
  by (auto simp: sb_ok_def sb_compact_def sb_size_def sb_bytes_def intro: nth_equalityI)

lemma sb_store_ok:
  assumes "sb_ok q" "qend q + length bs \<le> SB_QUEUE"
  shows "sb_ok (sb_store q bs) \<and> sb_bytes (sb_store q bs) = sb_bytes q @ bs"
proof -
  have "sb_bytes (sb_store q bs) = sb_bytes q @ bs"
    using assms by (intro nth_equalityI) (auto simp: sb_store_def sb_bytes_def sb_ok_def nth_append add.commute)
  with assms show ?thesis by (simp add: sb_ok_def sb_store_def)
qed

lemma sb_append_fits:
  assumes "sb_ok q" "sb_size q + length bs \<le> SB_QUEUE"
  shows "\<exists>q'. sb_append q bs = Inr q' \<and> sb_ok q' \<and> sb_bytes q' = sb_bytes q @ bs"
proof (cases "SB_QUEUE - qend q < length bs")
  case True
  have "qend (sb_compact q) = sb_size q"
    by (simp add: sb_compact_def sb_size_def)
  with assms sb_store_ok [of "sb_compact q" bs] sb_compact_ok [OF assms(1)] True
  show ?thesis by (simp add: sb_append_def sb_room_def)
next
  case False
  with assms have "qend q + length bs \<le> SB_QUEUE" by (auto simp: sb_ok_def)
  with assms sb_store_ok [of q bs] False show ?thesis by (simp add: sb_append_def sb_room_def)
qed

lemma sb_append_full:
  "sb_ok q \<Longrightarrow> SB_QUEUE < sb_size q + length bs \<Longrightarrow> sb_append q bs = Inl ENOBUFS"
  using sb_size_bound [of q] by (simp add: sb_append_def sb_room_def)

lemma sb_consume_ok:
  "sb_ok q \<Longrightarrow> n \<le> sb_size q \<Longrightarrow> sb_ok (sb_consume q n) \<and> sb_bytes (sb_consume q n) = drop n (sb_bytes q)"
  by (auto simp: sb_ok_def sb_consume_def sb_size_def sb_bytes_def Let_def drop_map)

subsection \<open>The interface of a byte queue\<close>

primrec feed :: "('q \<Rightarrow> byte list \<Rightarrow> int + 'q) \<Rightarrow> 'q \<Rightarrow> byte list list \<Rightarrow> int + 'q" where
  "feed app q [] = Inr q"
| "feed app q (c # cs) = (case app q c of Inl e \<Rightarrow> Inl e | Inr q' \<Rightarrow> feed app q' cs)"

locale byte_queue =
  fixes invar :: "'q \<Rightarrow> bool" and bytes :: "'q \<Rightarrow> byte list" and cap :: nat
    and app :: "'q \<Rightarrow> byte list \<Rightarrow> int + 'q" and consume :: "'q \<Rightarrow> nat \<Rightarrow> 'q"
  assumes app_fits: "invar q \<Longrightarrow> length (bytes q) + length bs \<le> cap \<Longrightarrow>
      \<exists>q'. app q bs = Inr q' \<and> invar q' \<and> bytes q' = bytes q @ bs"
    and app_full: "invar q \<Longrightarrow> cap < length (bytes q) + length bs \<Longrightarrow> app q bs = Inl ENOBUFS"
    and consume: "invar q \<Longrightarrow> n \<le> length (bytes q) \<Longrightarrow>
      invar (consume q n) \<and> bytes (consume q n) = drop n (bytes q)"
begin

lemma app_Inr:
  assumes "invar q" "app q bs = Inr q'"
  shows "invar q' \<and> bytes q' = bytes q @ bs"
proof (cases "length (bytes q) + length bs \<le> cap")
  case True
  with app_fits [OF assms(1) True] assms(2) show ?thesis by auto
next
  case False
  with app_full [OF assms(1), of bs] assms(2) show ?thesis by simp
qed

lemma feed_bytes:
  "invar q \<Longrightarrow> feed app q cs = Inr q' \<Longrightarrow> invar q' \<and> bytes q' = bytes q @ concat cs"
proof (induction cs arbitrary: q)
  case Nil
  then show ?case by simp
next
  case (Cons c cs)
  then obtain q1 where "app q c = Inr q1" "feed app q1 cs = Inr q'"
    by (auto split: sum.splits)
  with Cons app_Inr [of q c q1] show ?case by auto
qed

lemma feed_fits:
  "invar q \<Longrightarrow> length (bytes q) + length (concat cs) \<le> cap \<Longrightarrow> \<exists>q'. feed app q cs = Inr q'"
proof (induction cs arbitrary: q)
  case Nil
  then show ?case by simp
next
  case (Cons c cs)
  with app_fits [of q c] obtain q1 where "app q c = Inr q1" "invar q1" "bytes q1 = bytes q @ c"
    by auto
  with Cons show ?case by auto
qed

end

interpretation sbq: byte_queue sb_ok sb_bytes SB_QUEUE sb_append sb_consume
  using sb_append_fits sb_append_full sb_consume_ok by unfold_locales auto

subsection \<open>Framing over a byte stream\<close>

text \<open>What a frame looks like on the wire, and what a reader of a stream sees first in it.\<close>

definition frame_bytes :: "u32 \<times> byte list \<Rightarrow> byte list" where
  "frame_bytes f = le32 (fst f) @ le32 (of_nat (length (snd f))) @ snd f"

definition peek_bytes :: "byte list \<Rightarrow> sb_frame" where
  "peek_bytes bs =
     (if length bs < 8 then Incomplete
      else let size = le_dec (take 4 (drop 4 bs))
           in if size > SB_CHUNK then Invalid
              else if length bs < 8 + size then Incomplete
              else Frame (of_nat (le_dec (take 4 bs))) size (take size (drop 8 bs)))"

text \<open>All complete frames at the front of a stream, and the bytes after them.\<close>

function frames :: "byte list \<Rightarrow> (u32 \<times> byte list) list \<times> byte list" where
  "frames bs =
     (case peek_bytes bs of
        Frame t n d \<Rightarrow> (let (fs, rest) = frames (drop (8 + n) bs) in ((t, d) # fs, rest))
      | _ \<Rightarrow> ([], bs))"
  by pat_completeness auto
termination
  by (relation "measure length") (auto simp: peek_bytes_def Let_def split: if_splits)

declare frames.simps [simp del]

lemma frames_Nil [simp]: "frames [] = ([], [])"
  by (subst frames.simps) (simp add: peek_bytes_def)

lemma peek_frame_append:
  "length d \<le> SB_CHUNK \<Longrightarrow> peek_bytes (frame_bytes (t, d) @ rest) = Frame t (length d) d"
proof -
  assume le: "length d \<le> SB_CHUNK"
  then have "unat (of_nat (length d) :: u32) = length d"
    by (simp add: unat_of_nat SB_CHUNK_def)
  with le show ?thesis
    by (simp add: peek_bytes_def frame_bytes_def dec_le32)
qed

lemma length_frame_bytes [simp]: "length (frame_bytes f) = 8 + length (snd f)"
  by (simp add: frame_bytes_def)

lemma peek_append_Frame:
  "peek_bytes a = Frame t n d \<Longrightarrow> peek_bytes (a @ b) = Frame t n d"
  by (auto simp: peek_bytes_def Let_def split: if_splits)

lemma peek_append_Invalid: "peek_bytes a = Invalid \<Longrightarrow> peek_bytes (a @ b) = Invalid"
  by (auto simp: peek_bytes_def Let_def split: if_splits)

lemma peek_Frame_length: "peek_bytes a = Frame t n d \<Longrightarrow> 8 + n \<le> length a \<and> length d = n"
  by (auto simp: peek_bytes_def Let_def split: if_splits)

lemma frames_encode:
  "\<forall>f \<in> set fs. length (snd f) \<le> SB_CHUNK \<Longrightarrow> frames (concat (map frame_bytes fs)) = (fs, [])"
proof (induction fs)
  case Nil
  then show ?case by simp
next
  case (Cons f fs)
  have "peek_bytes (frame_bytes f @ concat (map frame_bytes fs)) = Frame (fst f) (length (snd f)) (snd f)"
    using peek_frame_append [of "snd f" "fst f"] Cons.prems by simp
  with Cons show ?case by (simp add: frames.simps [of "frame_bytes f @ _"])
qed

lemma frames_append:
  "frames (a @ b) = (let (f1, r1) = frames a; (f2, r2) = frames (r1 @ b) in (f1 @ f2, r2))"
proof (induction a rule: frames.induct)
  case (1 a)
  show ?case
  proof (cases "peek_bytes a")
    case Incomplete
    then show ?thesis by (simp add: frames.simps [of a] split: prod.splits)
  next
    case Invalid
    then show ?thesis by (simp add: frames.simps [of a] split: prod.splits)
  next
    case (Frame t n d)
    with peek_Frame_length [OF Frame] 1 [OF Frame] show ?thesis
      by (simp add: frames.simps [of "a @ b"] frames.simps [of a] peek_append_Frame
          split: prod.splits)
  qed
qed

subsection \<open>The interface of a framed queue\<close>

primrec drain :: "('q \<Rightarrow> sb_frame) \<Rightarrow> ('q \<Rightarrow> nat \<Rightarrow> 'q) \<Rightarrow> nat \<Rightarrow> 'q \<Rightarrow> (u32 \<times> byte list) list \<times> 'q" where
  "drain peek con 0 q = ([], q)"
| "drain peek con (Suc k) q =
     (case peek q of
        Frame t n d \<Rightarrow> (let (fs, q') = drain peek con k (con q (8 + n)) in ((t, d) # fs, q'))
      | _ \<Rightarrow> ([], q))"

locale framed_queue = byte_queue invar bytes cap app consume
  for invar :: "'q \<Rightarrow> bool" and bytes :: "'q \<Rightarrow> byte list" and cap :: nat
    and app :: "'q \<Rightarrow> byte list \<Rightarrow> int + 'q" and consume :: "'q \<Rightarrow> nat \<Rightarrow> 'q" +
  fixes packet :: "'q \<Rightarrow> u32 \<Rightarrow> byte list \<Rightarrow> int + 'q" and peek :: "'q \<Rightarrow> sb_frame"
  assumes packet_fits: "invar q \<Longrightarrow> length d \<le> SB_CHUNK \<Longrightarrow> length (bytes q) + 8 + length d \<le> cap \<Longrightarrow>
      \<exists>q'. packet q t d = Inr q' \<and> invar q' \<and> bytes q' = bytes q @ frame_bytes (t, d)"
    and packet_full: "invar q \<Longrightarrow> SB_CHUNK < length d \<or> cap < length (bytes q) + 8 + length d \<Longrightarrow>
      packet q t d = Inl ENOBUFS"
    and peek: "invar q \<Longrightarrow> peek q = peek_bytes (bytes q)"
begin

lemma packet_Inr:
  assumes "invar q" "packet q t d = Inr q'"
  shows "invar q' \<and> bytes q' = bytes q @ frame_bytes (t, d) \<and> length d \<le> SB_CHUNK"
proof (cases "length d \<le> SB_CHUNK \<and> length (bytes q) + 8 + length d \<le> cap")
  case True
  with packet_fits [OF assms(1), of d t] assms(2) show ?thesis by auto
next
  case False
  with packet_full [OF assms(1), of d t] assms(2) show ?thesis by auto
qed

lemma drain_frames:
  "invar q \<Longrightarrow> length (bytes q) < k \<Longrightarrow>
     fst (drain peek consume k q) = fst (frames (bytes q)) \<and>
     invar (snd (drain peek consume k q)) \<and>
     bytes (snd (drain peek consume k q)) = snd (frames (bytes q))"
proof (induction k arbitrary: q)
  case 0
  then show ?case by simp
next
  case (Suc k)
  show ?case
  proof (cases "peek_bytes (bytes q)")
    case (Frame t n d)
    with peek_Frame_length [OF Frame] consume [of q "8 + n"] Suc.prems
    have "invar (consume q (8 + n))" "bytes (consume q (8 + n)) = drop (8 + n) (bytes q)"
      "length (bytes (consume q (8 + n))) < k"
      by auto
    with Suc.IH [of "consume q (8 + n)"] Frame Suc.prems show ?thesis
      by (simp add: peek frames.simps [of "bytes q"] case_prod_beta)
  qed (use Suc.prems in \<open>simp_all add: peek frames.simps [of "bytes q"]\<close>)
qed

end

lemma sb_packet_fits:
  assumes "sb_ok q" "length d \<le> SB_CHUNK" "sb_size q + 8 + length d \<le> SB_QUEUE"
  shows "\<exists>q'. sb_packet q t d = Inr q' \<and> sb_ok q' \<and> sb_bytes q' = sb_bytes q @ frame_bytes (t, d)"
proof -
  let ?h = "le32 t @ le32 (of_nat (length d))"
  from sb_append_fits [of q ?h] assms obtain q1 where
    q1: "sb_append q ?h = Inr q1" "sb_ok q1" "sb_bytes q1 = sb_bytes q @ ?h"
    by auto
  from q1(3) have "sb_size q1 = sb_size q + 8"
    by (metis length_sb_bytes length_append length_le(2) numeral_Bit0)
  with sb_append_fits [OF q1(2), of d] assms q1 show ?thesis
    by (auto simp: sb_packet_def sb_room_def frame_bytes_def)
qed

lemma sb_packet_full:
  "sb_ok q \<Longrightarrow> SB_CHUNK < length d \<or> SB_QUEUE < sb_size q + 8 + length d \<Longrightarrow>
     sb_packet q t d = Inl ENOBUFS"
  using sb_size_bound [of q] by (auto simp: sb_packet_def sb_room_def)

lemma sb_peek_bytes: "sb_peek q = peek_bytes (sb_bytes q)"
  by (simp add: sb_peek_def peek_bytes_def sb_slice_bytes Let_def)

interpretation sbf: framed_queue sb_ok sb_bytes SB_QUEUE sb_append sb_consume sb_packet sb_peek
  using sb_packet_fits sb_packet_full sb_peek_bytes by unfold_locales auto

subsection \<open>Properties of the transport\<close>

text \<open>The reading loop of both relays, without their reactions to the packets.\<close>

definition sb_drain :: "sb_queue \<Rightarrow> (u32 \<times> byte list) list \<times> sb_queue" where
  "sb_drain q = drain sb_peek sb_consume (Suc SB_QUEUE) q"

lemma sb_drain_frames:
  "sb_ok q \<Longrightarrow> fst (sb_drain q) = fst (frames (sb_bytes q)) \<and> sb_ok (snd (sb_drain q)) \<and>
     sb_bytes (snd (sb_drain q)) = snd (frames (sb_bytes q))"
  using sbf.drain_frames [of q "Suc SB_QUEUE"] sb_size_bound [of q] by (simp add: sb_drain_def del: drain.simps)

lemma sb_drain_eq:
  "sb_ok q \<Longrightarrow> sb_drain q = (fs, q') \<Longrightarrow> sb_ok q' \<and> frames (sb_bytes q) = (fs, sb_bytes q')"
  using sb_drain_frames [of q] by (auto simp: prod_eq_iff)

primrec send_all :: "sb_queue \<Rightarrow> (u32 \<times> byte list) list \<Rightarrow> int + sb_queue" where
  "send_all q [] = Inr q"
| "send_all q (f # fs) = (case sb_packet q (fst f) (snd f) of Inl e \<Rightarrow> Inl e | Inr q' \<Rightarrow> send_all q' fs)"

lemma send_all_bytes:
  "sb_ok q \<Longrightarrow> send_all q fs = Inr q' \<Longrightarrow>
     sb_ok q' \<and> sb_bytes q' = sb_bytes q @ concat (map frame_bytes fs) \<and>
     (\<forall>f \<in> set fs. length (snd f) \<le> SB_CHUNK)"
proof (induction fs arbitrary: q)
  case Nil
  then show ?case by simp
next
  case (Cons f fs)
  then obtain q1 where "sb_packet q (fst f) (snd f) = Inr q1" "send_all q1 fs = Inr q'"
    by (auto split: sum.splits)
  with Cons sbf.packet_Inr [of q "fst f" "snd f" q1] show ?case by auto
qed

text \<open>
  C2. The console transport loses, reorders and alters nothing: when a sequence of packets has been
  queued by \<^verbatim>\<open>sb_packet\<close> and the queued bytes reach the peer cut into chunks in any way, the
  peer's queue accepts all of them, and reading it with \<^verbatim>\<open>sb_peek\<close> and \<^verbatim>\<open>sb_consume\<close> yields
  exactly the packets sent, in order, and leaves the queue empty.
\<close>

theorem sb_transport_roundtrip:
  assumes sent: "send_all sb_new fs = Inr tx"
    and cut: "concat chunks = sb_bytes tx"
  shows "\<exists>rx. feed sb_append sb_new chunks = Inr rx \<and>
           fst (sb_drain rx) = fs \<and>
           sb_bytes (snd (sb_drain rx)) = []"
proof -
  from send_all_bytes [OF _ sent] have tx: "sb_ok tx"
    "sb_bytes tx = concat (map frame_bytes fs)" "\<forall>f \<in> set fs. length (snd f) \<le> SB_CHUNK"
    by auto
  from sbq.feed_fits [of sb_new chunks] sb_size_bound [OF tx(1)] cut
  obtain rx where rx: "feed sb_append sb_new chunks = Inr rx" by auto
  from sbq.feed_bytes [OF _ rx] cut tx have "sb_ok rx" "sb_bytes rx = concat (map frame_bytes fs)"
    by auto
  with sb_drain_frames [of rx] frames_encode [OF tx(3)] rx show ?thesis by auto
qed

text \<open>The bytes of an input packet \<open>[65]\<close>, cut after its fifth byte.\<close>

theorem sb_transport_roundtrip_witness:
  "\<exists>tx rx. send_all sb_new [(SB_INPUT, [65])] = Inr tx \<and>
     feed sb_append sb_new [[1, 0, 0, 0, 1], [0, 0, 0, 65]] = Inr rx \<and>
     fst (sb_drain rx) = [(SB_INPUT, [65])]"
proof -
  from sb_packet_fits [of sb_new "[65]" SB_INPUT] obtain tx where
    tx: "sb_packet sb_new SB_INPUT [65] = Inr tx" "sb_bytes tx = frame_bytes (SB_INPUT, [65])"
    by (auto simp: SB_CHUNK_def SB_QUEUE_def)
  from tx(1) have s: "send_all sb_new [(SB_INPUT, [65])] = Inr tx" by simp
  have c: "concat [[1, 0, 0, 0, 1], [0, 0, 0, 65]] = sb_bytes tx"
    by (simp add: tx(2) frame_bytes_def SB_INPUT_def le32_def le_enc_numeral)
  from sb_transport_roundtrip [OF s c] s show ?thesis by blast
qed

text \<open>
  Frames are recognised as soon as their last byte is there, however the stream is cut: draining
  the queue, appending more bytes and draining again yields the same packets and leaves the same
  bytes as draining once after everything arrived.
\<close>

theorem sb_drain_incremental:
  assumes ok: "sb_ok q"
    and d1: "sb_drain q = (fs1, q1)"
    and more: "sb_append q1 bs = Inr q2"
    and d2: "sb_drain q2 = (fs2, q3)"
  shows "frames (sb_bytes q @ bs) = (fs1 @ fs2, sb_bytes q3)"
proof -
  from sb_drain_eq [OF ok d1] have f1: "frames (sb_bytes q) = (fs1, sb_bytes q1)" and ok1: "sb_ok q1"
    by auto
  from sbq.app_Inr [OF ok1 more] have ok2: "sb_ok q2" and b2: "sb_bytes q2 = sb_bytes q1 @ bs" by auto
  from sb_drain_eq [OF ok2 d2] f1 b2 show ?thesis by (simp add: frames_append [of "sb_bytes q"])
qed

theorem sb_drain_incremental_witness:
  "frames [7, 0, 0, 0, 0, 0, 0, 0] = ([(SB_READY, [])], [])"
proof -
  have d1: "sb_drain sb_new = ([], sb_new)"
    by (simp add: sb_drain_def sb_peek_def)
  let ?bs = "[7, 0, 0, 0, 0, 0, 0, 0] :: byte list"
  from sb_append_fits [of sb_new ?bs] obtain q2 where
    q2: "sb_append sb_new ?bs = Inr q2" "sb_ok q2" "sb_bytes q2 = ?bs"
    by (auto simp: SB_QUEUE_def)
  obtain fs2 q3 where d2: "sb_drain q2 = (fs2, q3)" by fastforce
  have p1: "peek_bytes ?bs = Frame 7 0 []" by (simp add: peek_bytes_def)
  then have "frames ?bs = ([(7, [])], [])" by (subst frames.simps) simp
  with sb_drain_incremental [OF sb_ok_new d1 q2(1) d2] show ?thesis by (simp add: SB_READY_def)
qed

end
