(* ===== verification/Bridge_Base.thy ===== *)
theory Bridge_Base
  imports Os_Monad
begin

text \<open>
  The state of the loader that serves a guest (\<^verbatim>\<open>struct bridge_host\<close>, the mailbox fields of
  \<^verbatim>\<open>struct kernel_control\<close> it writes, and the file-level variables of
  \<^verbatim>\<open>signal_host.h\<close>) and the checked accessors every service goes through:
  \<^verbatim>\<open>available\<close>, \<^verbatim>\<open>memory\<close>, \<^verbatim>\<open>string\<close>, \<^verbatim>\<open>fd\<close> of
  \<^verbatim>\<open>src/src/host.c\<close> and \<^verbatim>\<open>adopt_descriptor\<close> of \<^verbatim>\<open>src/src/fds_host.h\<close>.
  The loader shares its address space with the guest: \<open>gmem\<close> is that address space. It is part
  of the world a native call may change, and so are the variables the loader's asynchronous signal
  handler writes (\<^verbatim>\<open>pending_signals\<close>, here the set of flagged numbers, and the two flags of
  \<^verbatim>\<open>signal_io.h\<close>): the kernel runs the handler while a call is made. The arena and the
  initialised image the guest may use are the two ranges of \<open>geometry\<close>, which also has the signal
  numbers the C library's \<^verbatim>\<open>sigaddset\<close> accepts; none of it changes while a request is served.
\<close>

subsection \<open>State\<close>

definition MAX_FDS :: nat where "MAX_FDS = 256"
definition MAX_DIRS :: nat where "MAX_DIRS = 64"
definition MAX_NAMED_SEMAPHORES :: nat where "MAX_NAMED_SEMAPHORES = 64"

record geometry =
  mem_start :: u64
  mem_size :: u64
  image :: u64
  image_size :: u64
  libc_signals :: "nat set"

record 'k machine =
  gmem :: "u64 \<Rightarrow> byte"
  recorded :: "nat set"
  io_active :: bool
  io_interrupted :: bool
  kern :: 'k

text \<open>
  \<open>fds\<close>, \<open>dirs\<close>, \<open>dir_fds\<close> and the semaphore table are the arrays of
  \<^verbatim>\<open>struct bridge_host\<close> (a \<^verbatim>\<open>DIR *\<close> or \<^verbatim>\<open>sem_t *\<close> is an opaque handle, NULL is
  \<open>None\<close>); \<open>mailbox_pending\<close> is \<^verbatim>\<open>control.pending_signals\<close>;
  \<open>installed_flags\<close> is \<^verbatim>\<open>installed_signal_flags\<close>. \<open>oob\<close> records that a C array was
  indexed outside its bounds, which the C language leaves undefined.
\<close>

record 'k host = "'k machine os_state" +
  fds :: "int list"
  dirs :: "int option list"
  dir_fds :: "int list"
  sem_objects :: "int option list"
  sem_refs :: "u32 list"
  mailbox_pending :: u64
  installed_flags :: "int list"
  oob :: bool

type_synonym ('k, 'a) hostm = "('k host, 'a) state"

subsection \<open>C conversions of request words\<close>

definition c_int :: "u64 \<Rightarrow> int" where "c_int a = sint (ucast a :: u32)"
definition c_uint :: "u64 \<Rightarrow> int" where "c_uint a = uint (ucast a :: u32)"

definition word_of_ret :: "int \<Rightarrow> u64" where "word_of_ret r = word_of_int r"

subsection \<open>Guest memory\<close>

definition read_bytes :: "(u64 \<Rightarrow> byte) \<Rightarrow> u64 \<Rightarrow> nat \<Rightarrow> byte list" where
  "read_bytes m a n = map (\<lambda>i. m (a + of_nat i)) [0..<n]"

definition write_bytes :: "(u64 \<Rightarrow> byte) \<Rightarrow> u64 \<Rightarrow> byte list \<Rightarrow> u64 \<Rightarrow> byte" where
  "write_bytes m a bs = (\<lambda>x. if unat (x - a) < length bs then bs ! unat (x - a) else m x)"

definition load32 :: "(u64 \<Rightarrow> byte) \<Rightarrow> u64 \<Rightarrow> u32" where
  "load32 m a = of_nat (le_dec (read_bytes m a 4))"

definition load64 :: "(u64 \<Rightarrow> byte) \<Rightarrow> u64 \<Rightarrow> u64" where
  "load64 m a = of_nat (le_dec (read_bytes m a 8))"

text \<open>The NUL-terminated string at an address, if its terminator is among the first \<open>n\<close> bytes.\<close>

primrec cstring_at :: "(u64 \<Rightarrow> byte) \<Rightarrow> u64 \<Rightarrow> nat \<Rightarrow> string option" where
  "cstring_at m a 0 = None"
| "cstring_at m a (Suc n) =
     (if m a = 0 then Some []
      else map_option (Cons (char_of (unat (m a)))) (cstring_at m (a + 1) n))"

definition peek_mem :: "('k, u64 \<Rightarrow> byte) hostm" where
  "peek_mem = gets (\<lambda>s. gmem (world s))"

definition poke :: "u64 \<Rightarrow> byte list \<Rightarrow> ('k, unit) hostm" where
  "poke a bs = State_Monad.update
     (\<lambda>s. s\<lparr>world := (world s)\<lparr>gmem := write_bytes (gmem (world s)) a bs\<rparr>\<rparr>)"

definition available :: "geometry \<Rightarrow> u64 \<Rightarrow> u64" where
  "available h address =
     (let base = mem_start h; total = mem_size h in
      if address \<ge> base + 4096 \<and> address - base < total then total - (address - base)
      else let base = image h; total = image_size h in
           if base \<noteq> 0 \<and> address \<ge> base \<and> address - base < total then total - (address - base)
           else 0)"

definition memory :: "geometry \<Rightarrow> u64 \<Rightarrow> u64 \<Rightarrow> ('k, u64 option) hostm" where
  "memory h address n =
     (let remaining = available h address in
      if remaining = 0 \<or> n > remaining then do { set_errno EFAULT; State_Monad.return None }
      else State_Monad.return (Some address))"

text \<open>
  \<^verbatim>\<open>string\<close> returns a pointer to a terminated string of fewer than 4096 bytes; the model returns
  the string found there.
\<close>

definition string :: "geometry \<Rightarrow> u64 \<Rightarrow> ('k, string option) hostm" where
  "string h address =
     (let left = available h address in
      if left = 0 then do { set_errno EFAULT; State_Monad.return None }
      else do {
        let left = (if left > 4096 then 4096 else left);
        p \<leftarrow> memory h address left;
        m \<leftarrow> peek_mem;
        case p of
          None \<Rightarrow> do { set_errno ENAMETOOLONG; State_Monad.return None }
        | Some p \<Rightarrow>
            (case cstring_at m p (unat left) of
               None \<Rightarrow> do { set_errno ENAMETOOLONG; State_Monad.return None }
             | Some str \<Rightarrow> State_Monad.return (Some str))
      })"

subsection \<open>Descriptors\<close>

definition fd :: "int \<Rightarrow> ('k, int) hostm" where
  "fd guest = do {
     t \<leftarrow> gets fds;
     if guest < 0 \<or> guest \<ge> int MAX_FDS \<or> t ! nat guest < 0 then fail EBADF
     else State_Monad.return (t ! nat guest)
   }"

text \<open>The assignment \<^verbatim>\<open>h->fds[i] = v\<close>.\<close>

definition set_fd :: "nat \<Rightarrow> int \<Rightarrow> ('k, unit) hostm" where
  "set_fd i v = State_Monad.update
     (\<lambda>s. if i < MAX_FDS then s\<lparr>fds := (fds s)[i := v]\<rparr> else s\<lparr>oob := True\<rparr>)"

definition adopt_descriptor :: "'k machine os \<Rightarrow> int \<Rightarrow> int \<Rightarrow> ('k, int) hostm" where
  "adopt_descriptor os real minimum =
     (if real < 0 then State_Monad.return (-1)
      else do {
        t \<leftarrow> gets fds;
        if real \<ge> minimum \<and> real < int MAX_FDS \<and> t ! nat real < 0 then do {
          set_fd (nat real) real;
          State_Monad.return real
        } else do {
          _ \<leftarrow> call os ''close'' [New real];
          fail EMFILE
        }
      })"

definition save_fd :: "'k machine os \<Rightarrow> int \<Rightarrow> int \<Rightarrow> ('k, int) hostm" where
  "save_fd os real minimum = adopt_descriptor os real minimum"

text \<open>The pair \<^verbatim>\<open>close(h->fds[i]); h->fds[i] = -1;\<close>.\<close>

definition drop_fd :: "'k machine os \<Rightarrow> nat \<Rightarrow> ('k, unit) hostm" where
  "drop_fd os i = do {
     t \<leftarrow> gets fds;
     _ \<leftarrow> call os ''close'' [Fd (t ! i)];
     set_fd i (-1)
   }"

subsection \<open>Reading back what was written\<close>

lemma length_read_bytes [simp]: "length (read_bytes m a n) = n"
  by (simp add: read_bytes_def)

lemma read_write_bytes:
  assumes "k + n \<le> length bs" "length bs < 2 ^ 64"
  shows "read_bytes (write_bytes m a bs) (a + of_nat k) n = take n (drop k bs)"
proof (rule nth_equalityI)
  fix i assume "i < length (read_bytes (write_bytes m a bs) (a + of_nat k) n)"
  then have i: "i < n" by simp
  have "a + of_nat k + of_nat i - a = (of_nat (k + i) :: u64)" by simp
  moreover have "unat (of_nat (k + i) :: u64) = k + i"
    using assms i by (simp only: unat_of_nat) simp
  ultimately have "unat (a + of_nat k + of_nat i - a) = k + i" by simp
  then show "read_bytes (write_bytes m a bs) (a + of_nat k) n ! i = take n (drop k bs) ! i"
    using assms i by (simp add: read_bytes_def write_bytes_def add.commute)
qed (use assms in simp)

text \<open>An array of 64-bit words in memory.\<close>

definition words_bytes :: "u64 list \<Rightarrow> byte list" where
  "words_bytes ws = concat (map le64 ws)"

lemma length_words_bytes [simp]: "length (words_bytes ws) = 8 * length ws"
  by (induction ws) (simp_all add: words_bytes_def)

lemma nth_words_bytes: "i < length ws \<Longrightarrow> take 8 (drop (8 * i) (words_bytes ws)) = le64 (ws ! i)"
proof (induction ws arbitrary: i)
  case (Cons w ws)
  then show ?case by (cases i) (simp_all add: words_bytes_def)
qed simp

lemma of_nat_le_dec_le64: "of_nat (le_dec (le64 x)) = x"
  by (simp add: dec_le64)

lemma load64_words:
  assumes "i < length ws" "8 * length ws < 2 ^ 64"
  shows "load64 (write_bytes m a (words_bytes ws)) (a + of_nat (8 * i)) = ws ! i"
  using assms read_write_bytes [of "8 * i" 8 "words_bytes ws" m a]
  by (simp add: load64_def nth_words_bytes of_nat_le_dec_le64)

end
