(* ===== verification/Bridge_Safety.thy ===== *)
theory Bridge_Safety
  imports Bridge_Base
begin

text \<open>
  Confinement of the bridge: what a request can make the loader do. \<open>host_inv\<close> is the invariant of
  the loader's tables; in particular a guest descriptor occupies the native slot of the same number,
  so that the loader's private descriptors, which lie above the guest range, have no guest number.
  \<open>safe g m Q\<close> says that from every state with the invariant the code \<open>m\<close> keeps it, writes
  guest memory only inside the two guest ranges, makes only native calls whose descriptor arguments
  are guest slots and whose memory arguments are guest ranges, never indexes an array out of bounds,
  keeps every signal that was recorded or published, and returns a value satisfying \<open>Q\<close>. The rules in \<open>safe_rules\<close> are directed by the syntax of
  the code.
\<close>

named_theorems safe_rules "syntax-directed rules for confinement"

definition in_guest :: "geometry \<Rightarrow> u64 \<Rightarrow> bool" where
  "in_guest g x \<longleftrightarrow>
     unat (mem_start g) + 4096 \<le> unat x \<and> unat x < unat (mem_start g) + unat (mem_size g) \<or>
     image g \<noteq> 0 \<and> unat (image g) \<le> unat x \<and> unat x < unat (image g) + unat (image_size g)"

definition range_ok :: "geometry \<Rightarrow> u64 \<Rightarrow> nat \<Rightarrow> bool" where
  "range_ok g a n \<longleftrightarrow> (\<forall>i < n. in_guest g (a + of_nat i))"

text \<open>Neither range reaches the end of the address space.\<close>

definition geometry_ok :: "geometry \<Rightarrow> bool" where
  "geometry_ok g \<longleftrightarrow>
     4096 \<le> unat (mem_size g) \<and> unat (mem_start g) + unat (mem_size g) < 2 ^ 64 \<and>
     unat (image g) + unat (image_size g) < 2 ^ 64"

primrec arg_safe :: "geometry \<Rightarrow> arg \<Rightarrow> bool" where
  "arg_safe g (Fd n) = (0 \<le> n \<and> n < int MAX_FDS)"
| "arg_safe g (New n) = True"
| "arg_safe g (Num n) = True"
| "arg_safe g (Str x) = True"
| "arg_safe g (Mem a n) = range_ok g a n"
| "arg_safe g (Bytes bs) = True"
| "arg_safe g (Nums ns) = True"

definition call_safe :: "geometry \<Rightarrow> oscall \<Rightarrow> bool" where
  "call_safe g c \<longleftrightarrow> list_all (arg_safe g) (cargs c)"

definition host_inv :: "'k host \<Rightarrow> bool" where
  "host_inv s \<longleftrightarrow>
     length (fds s) = MAX_FDS \<and> (\<forall>i < MAX_FDS. fds s ! i = -1 \<or> fds s ! i = int i) \<and>
     length (dirs s) = MAX_DIRS \<and> length (dir_fds s) = MAX_DIRS \<and>
     (\<forall>i < MAX_DIRS. dirs s ! i \<noteq> None \<longrightarrow> 0 \<le> dir_fds s ! i \<and> dir_fds s ! i < int MAX_FDS) \<and>
     length (sem_objects s) = MAX_NAMED_SEMAPHORES \<and> length (sem_refs s) = MAX_NAMED_SEMAPHORES \<and>
     length (installed_flags s) = 65 \<and> \<not> oob s"

subsection \<open>What the code relies on of the kernel\<close>

text \<open>
  Outside the guest ranges a native call changes memory only inside the memory ranges passed to it.
\<close>

fun arg_covers :: "u64 \<Rightarrow> arg \<Rightarrow> bool" where
  "arg_covers x (Mem a n) = (unat (x - a) < n)"
| "arg_covers x _ = False"

definition os_frame :: "geometry \<Rightarrow> 'k machine os \<Rightarrow> bool" where
  "os_frame g os \<longleftrightarrow> (\<forall>c m x. \<not> in_guest g x \<longrightarrow> \<not> list_ex (arg_covers x) (cargs c) \<longrightarrow>
     gmem (snd (os c m)) x = gmem m x)"

text \<open>
  \<^verbatim>\<open>dup2\<close> returns its second argument or fails; \<^verbatim>\<open>dirfd\<close> of an open stream is a descriptor;
  \<^verbatim>\<open>bpf_capsule_malloc\<close> returns NULL or the address of a block of the requested size in the
  guest's memory.
\<close>

definition os_fds :: "'k machine os \<Rightarrow> bool" where
  "os_fds os \<longleftrightarrow>
     (\<forall>x y m. let r = ret (fst (os (Call ''dup2'' [Fd x, Fd y]) m)) in r < 0 \<or> r = y) \<and>
     (\<forall>d m. 0 \<le> ret (fst (os (Call ''dirfd'' [Num d]) m)))"

definition os_heap :: "geometry \<Rightarrow> 'k machine os \<Rightarrow> bool" where
  "os_heap g os \<longleftrightarrow> (\<forall>n m. let r = ret (fst (os (Call ''bpf_capsule_malloc'' [Num n]) m)) in
     r = 0 \<or> range_ok g (word_of_int r) (nat n))"

text \<open>The handlers that run during a call only set flags of recorded signals.\<close>

definition os_signals :: "'k machine os \<Rightarrow> bool" where
  "os_signals os \<longleftrightarrow> (\<forall>c m. recorded m \<subseteq> recorded (snd (os c m)))"

text \<open>\<^verbatim>\<open>recvmsg\<close> returns no more control data than the buffer it was given holds.\<close>

definition os_receive :: "'k machine os \<Rightarrow> bool" where
  "os_receive os \<longleftrightarrow> (\<forall>args bs m. Bytes bs \<in> set args \<longrightarrow>
     length (payload (fst (os (Call ''recvmsg'' args) m))) \<le> length bs)"

text \<open>\<^verbatim>\<open>epoll_wait\<close> returns at most as many events as it was asked for.\<close>

definition os_events :: "'k machine os \<Rightarrow> bool" where
  "os_events os \<longleftrightarrow> (\<forall>d count timeout m.
     ret (fst (os (Call ''epoll_wait'' [d, Num count, timeout]) m)) \<le> max 0 count)"

definition os_ok :: "geometry \<Rightarrow> 'k machine os \<Rightarrow> bool" where
  "os_ok g os \<longleftrightarrow> os_frame g os \<and> os_fds os \<and> os_heap g os \<and> os_signals os \<and> os_receive os \<and>
     os_events os"

subsection \<open>Confined execution\<close>

definition pending_signal :: "'k host \<Rightarrow> nat \<Rightarrow> bool" where
  "pending_signal s n \<longleftrightarrow> n \<in> recorded (world s) \<or> bit (mailbox_pending s) (n - 1)"

definition confined :: "geometry \<Rightarrow> 'k host \<Rightarrow> 'k host \<Rightarrow> bool" where
  "confined g s s' \<longleftrightarrow>
     host_inv s' \<and>
     (\<forall>x. \<not> in_guest g x \<longrightarrow> gmem (world s') x = gmem (world s) x) \<and>
     (\<forall>n \<in> {1..64}. pending_signal s n \<longrightarrow> pending_signal s' n) \<and>
     (\<exists>new. trace s' = trace s @ new \<and> list_all (\<lambda>e. call_safe g (fst e)) new)"

definition safe :: "geometry \<Rightarrow> ('k, 'a) hostm \<Rightarrow> ('a \<Rightarrow> bool) \<Rightarrow> bool" where
  "safe g m Q \<longleftrightarrow> (\<forall>s. host_inv s \<longrightarrow> wp m (\<lambda>r s'. confined g s s' \<and> Q r) s)"

lemma confined_refl: "host_inv s \<Longrightarrow> confined g s s"
  by (simp add: confined_def)

lemma confined_trans: "confined g s t \<Longrightarrow> confined g t u \<Longrightarrow> confined g s u"
  unfolding confined_def by (auto simp: list_all_append)

lemma safeI:
  "(\<And>s. host_inv s \<Longrightarrow> wp m (\<lambda>r s'. confined g s s' \<and> Q r) s) \<Longrightarrow> safe g m Q"
  by (simp add: safe_def)

lemma safeD: "safe g m Q \<Longrightarrow> host_inv s \<Longrightarrow> run_state m s = (r, s') \<Longrightarrow> confined g s s' \<and> Q r"
  by (auto simp: safe_def wp_def)

lemma safe_mono: "safe g m Q \<Longrightarrow> (\<And>r. Q r \<Longrightarrow> R r) \<Longrightarrow> safe g m R"
  unfolding safe_def by (blast intro: wp_mono)

lemma safe_bindI:
  assumes m: "safe g m P" and f: "\<And>r. P r \<Longrightarrow> safe g (f r) Q"
  shows "safe g (State_Monad.bind m f) Q"
proof (rule safeI)
  fix s :: "'a host" assume inv: "host_inv s"
  obtain r t where mt: "run_state m s = (r, t)" by fastforce
  from safeD [OF m inv mt] have t: "confined g s t" "P r" by auto
  then have "host_inv t" by (simp add: confined_def)
  then have "wp (f r) (\<lambda>r' u. confined g t u \<and> Q r') t"
    using f [OF t(2)] by (simp add: safe_def)
  then have "wp (f r) (\<lambda>r' u. confined g s u \<and> Q r') t"
    by (rule wp_mono) (blast intro: confined_trans t(1))
  with mt show "wp (State_Monad.bind m f) (\<lambda>r' u. confined g s u \<and> Q r') s"
    by (simp add: wp_bind) (simp add: wp_def)
qed

lemma safe_return [safe_rules]: "Q r \<Longrightarrow> safe g (State_Monad.return r) Q"
  by (simp add: safe_def wp_return confined_refl)

lemma safe_if [safe_rules]:
  "(b \<Longrightarrow> safe g m Q) \<Longrightarrow> (\<not> b \<Longrightarrow> safe g n Q) \<Longrightarrow> safe g (if b then m else n) Q"
  by simp

lemma safe_case_option [safe_rules]:
  "(x = None \<Longrightarrow> safe g m Q) \<Longrightarrow> (\<And>y. x = Some y \<Longrightarrow> safe g (f y) Q) \<Longrightarrow>
     safe g (case x of None \<Rightarrow> m | Some y \<Rightarrow> f y) Q"
  by (cases x) auto

lemma safe_case_prod [safe_rules]:
  "(\<And>a b. x = (a, b) \<Longrightarrow> safe g (f a b) Q) \<Longrightarrow> safe g (case x of (a, b) \<Rightarrow> f a b) Q"
  by (cases x) auto

lemma safe_let [safe_rules]: "safe g (f x) Q \<Longrightarrow> safe g (let y = x in f y) Q"
  by simp

lemma safe_bind_gets [safe_rules]:
  "(\<And>s. host_inv s \<Longrightarrow> safe g (f (h s)) Q) \<Longrightarrow> safe g (State_Monad.bind (gets h) f) Q"
  by (rule safe_bindI [where P = "\<lambda>r. \<exists>s. host_inv s \<and> r = h s"])
    (auto simp: safe_def wp_gets confined_refl)

lemma safe_bind_get [safe_rules]:
  "(\<And>s. host_inv s \<Longrightarrow> safe g (f s) Q) \<Longrightarrow> safe g (State_Monad.bind State_Monad.get f) Q"
  by (rule safe_bindI [where P = host_inv]) (auto simp: safe_def wp_get confined_refl)

lemma safe_set_errno: "safe g (set_errno e) (\<lambda>_. True)"
  by (rule safeI) (simp add: wp_set_errno confined_def pending_signal_def host_inv_def)

lemma safe_bind_set_errno [safe_rules]:
  "safe g (f ()) Q \<Longrightarrow> safe g (State_Monad.bind (set_errno e) f) Q"
  by (rule safe_bindI [OF safe_set_errno]) simp

lemma safe_fail [safe_rules]: "Q (-1) \<Longrightarrow> safe g (fail e) Q"
  unfolding fail_def by (intro safe_rules)

lemma safe_call_raw:
  assumes os: "os_ok g os" and args: "list_all (arg_safe g) args"
  shows "safe g (call os nm args) (\<lambda>r. \<exists>w. r = fst (os (Call nm args) w))"
proof (rule safeI)
  fix s :: "'a host" assume inv: "host_inv s"
  obtain r w where rw: "os (Call nm args) (world s) = (r, w)" by fastforce
  have "gmem w x = gmem (world s) x" if out: "\<not> in_guest g x" for x
  proof -
    have "\<not> list_ex (arg_covers x) args"
    proof
      assume "list_ex (arg_covers x) args"
      then obtain a n where "Mem a n \<in> set args" "unat (x - a) < n"
        by (auto simp: list_ex_iff elim!: arg_covers.elims)
      with args have "range_ok g a n" by (force simp: list_all_iff)
      with \<open>unat (x - a) < n\<close> have "in_guest g (a + of_nat (unat (x - a)))"
        unfolding range_ok_def by blast
      with out show False by simp
    qed
    with out os [unfolded os_ok_def os_frame_def] rw
    show ?thesis by (metis oscall.sel(2) snd_conv)
  qed
  moreover have "recorded (world s) \<subseteq> recorded w"
    using os rw unfolding os_ok_def os_signals_def by (metis snd_conv)
  ultimately show "wp (call os nm args) (\<lambda>r s'. confined g s s' \<and>
      (\<exists>w. r = fst (os (Call nm args) w))) s"
    using rw inv args by (auto simp: wp_call confined_def pending_signal_def host_inv_def call_safe_def intro: exI [of _ "world s"])
qed

lemma safe_call [safe_rules]:
  "os_ok g os \<Longrightarrow> list_all (arg_safe g) args \<Longrightarrow> (\<And>r. Q r) \<Longrightarrow> safe g (call os nm args) Q"
  by (rule safe_mono [OF safe_call_raw])

lemma safe_bind_call [safe_rules]:
  "os_ok g os \<Longrightarrow> list_all (arg_safe g) args \<Longrightarrow> (\<And>r. safe g (f r) Q) \<Longrightarrow>
     safe g (State_Monad.bind (call os nm args) f) Q"
  by (rule safe_bindI [OF safe_call_raw])

lemma safe_calli [safe_rules]:
  "os_ok g os \<Longrightarrow> list_all (arg_safe g) args \<Longrightarrow> (\<And>r. Q r) \<Longrightarrow> safe g (calli os nm args) Q"
  unfolding calli_def by (intro safe_rules)

lemma safe_bind_calli [safe_rules]:
  "os_ok g os \<Longrightarrow> list_all (arg_safe g) args \<Longrightarrow> (\<And>r. safe g (f r) Q) \<Longrightarrow>
     safe g (State_Monad.bind (calli os nm args) f) Q"
  by (rule safe_bindI [OF safe_calli [where Q = "\<lambda>_. True"]]) auto

subsection \<open>Rules for the checked accessors\<close>

lemma unat_add_small: "unat a + i < 2 ^ 64 \<Longrightarrow> unat ((a :: u64) + of_nat i) = unat a + i"
  by (simp add: unat_word_ariths unat_of_nat)

lemma unat_diff_le: "(b :: u64) \<le> a \<Longrightarrow> unat (a - b) = unat a - unat b"
  by (simp add: unat_sub)

lemma range_ok_linear:
  assumes "unat a + n \<le> 2 ^ 64" "\<And>x. unat a \<le> unat x \<Longrightarrow> unat x < unat a + n \<Longrightarrow> in_guest g x"
  shows "range_ok g a n"
  unfolding range_ok_def
proof (intro allI impI)
  fix i assume "i < n"
  with assms(1) have "unat (a + of_nat i) = unat a + i" by (intro unat_add_small) simp
  with \<open>i < n\<close> assms(2) [of "a + of_nat i"] show "in_guest g (a + of_nat i)" by simp
qed

lemma available_range:
  assumes g: "geometry_ok g" and av: "available g a \<noteq> 0" and n: "n \<le> available g a"
  shows "range_ok g a (unat n)"
proof (cases "a \<ge> mem_start g + 4096 \<and> a - mem_start g < mem_size g")
  case True
  let ?b = "mem_start g"
  from g have b: "unat (?b + 4096) = unat ?b + 4096"
    using unat_add_small [of ?b 4096] by (simp add: geometry_ok_def)
  with True have ge: "unat ?b + 4096 \<le> unat a" by (simp add: word_le_nat_alt)
  then have "?b \<le> a" by (simp add: word_le_nat_alt)
  then have d: "unat (a - ?b) = unat a - unat ?b" by (rule unat_diff_le)
  from True have "available g a = mem_size g - (a - ?b)" by (simp add: available_def)
  with True n have "unat n \<le> unat (mem_size g) - unat (a - ?b)"
    by (metis less_imp_le unat_sub word_le_nat_alt)
  moreover from True have "unat (a - ?b) < unat (mem_size g)" by (simp add: word_less_nat_alt)
  ultimately have "unat a + unat n \<le> unat ?b + unat (mem_size g)" using d ge by linarith
  with g ge show ?thesis
    by (intro range_ok_linear) (auto simp: geometry_ok_def in_guest_def)
next
  case False
  let ?b = "image g"
  from False av have c: "?b \<noteq> 0" "?b \<le> a" "a - ?b < image_size g"
    and e: "available g a = image_size g - (a - ?b)"
    by (auto simp: available_def Let_def split: if_splits)
  have d: "unat (a - ?b) = unat a - unat ?b" using c(2) by (rule unat_diff_le)
  from c(3) e n have "unat n \<le> unat (image_size g) - unat (a - ?b)"
    by (metis less_imp_le unat_sub word_le_nat_alt)
  moreover from c have "unat (a - ?b) < unat (image_size g)" "unat ?b \<le> unat a"
    by (simp_all add: word_less_nat_alt word_le_nat_alt)
  ultimately have "unat a + unat n \<le> unat ?b + unat (image_size g)" using d by linarith
  with g c \<open>unat ?b \<le> unat a\<close> show ?thesis
    by (intro range_ok_linear) (auto simp: geometry_ok_def in_guest_def)
qed

lemma range_ok_mono: "range_ok g a n \<Longrightarrow> m \<le> n \<Longrightarrow> range_ok g a m"
  by (simp add: range_ok_def)

lemma range_ok_offset:
  assumes "range_ok g a n" "unat k + m \<le> n"
  shows "range_ok g (a + k) m"
  unfolding range_ok_def
proof (intro allI impI)
  fix i assume "i < m"
  with assms(2) have "unat k + i < n" by simp
  with assms(1) have "in_guest g (a + of_nat (unat k + i))" unfolding range_ok_def by blast
  then show "in_guest g (a + k + of_nat i)" by (simp add: add.assoc)
qed

lemma safe_memory: "geometry_ok g \<Longrightarrow> safe g (memory g a n) (\<lambda>p. p = None \<or> p = Some a \<and> range_ok g a (unat n))"
  unfolding memory_def by (intro safe_rules) (auto intro: available_range)

lemma safe_bind_memory [safe_rules]:
  "geometry_ok g \<Longrightarrow> safe g (f None) Q \<Longrightarrow> (range_ok g a (unat n) \<Longrightarrow> safe g (f (Some a)) Q) \<Longrightarrow>
     safe g (State_Monad.bind (memory g a n) f) Q"
  by (rule safe_bindI [OF safe_memory]) auto

lemma safe_bind_peek_mem [safe_rules]:
  "(\<And>m. safe g (f m) Q) \<Longrightarrow> safe g (State_Monad.bind peek_mem f) Q"
  unfolding peek_mem_def by (rule safe_bind_gets)

lemma cstring_at_length: "cstring_at m a n = Some str \<Longrightarrow> length str < n"
  by (induction n arbitrary: a str) (auto split: if_splits)

lemma safe_string:
  "geometry_ok g \<Longrightarrow>
     safe g (string g a) (\<lambda>p. case p of None \<Rightarrow> True | Some str \<Rightarrow> range_ok g a (Suc (length str)))"
  unfolding string_def
  by (intro safe_rules) (auto dest!: cstring_at_length intro: range_ok_mono)

lemma safe_bind_string [safe_rules]:
  "geometry_ok g \<Longrightarrow> safe g (f None) Q \<Longrightarrow>
     (\<And>str. range_ok g a (Suc (length str)) \<Longrightarrow> safe g (f (Some str)) Q) \<Longrightarrow>
     safe g (State_Monad.bind (string g a) f) Q"
  by (rule safe_bindI [OF safe_string]) (auto split: option.splits)

lemma safe_fd: "safe g (fd x) (\<lambda>r. r < 0 \<or> r = x \<and> 0 \<le> r \<and> r < int MAX_FDS)"
proof (rule safeI)
  fix s :: "'a host" assume inv: "host_inv s"
  show "wp (fd x) (\<lambda>r s'. confined g s s' \<and> (r < 0 \<or> r = x \<and> 0 \<le> r \<and> r < int MAX_FDS)) s"
  proof (cases "x < 0 \<or> x \<ge> int MAX_FDS \<or> fds s ! nat x < 0")
    case True
    with inv show ?thesis by (simp add: fd_def wp_simps confined_def pending_signal_def host_inv_def)
  next
    case False
    then have "nat x < MAX_FDS" by auto
    with inv have "fds s ! nat x = -1 \<or> fds s ! nat x = int (nat x)" unfolding host_inv_def by blast
    with False inv show ?thesis by (auto simp: fd_def wp_simps confined_refl)
  qed
qed

lemma safe_bind_fd [safe_rules]:
  "(\<And>r. r < 0 \<or> r = x \<and> 0 \<le> r \<and> r < int MAX_FDS \<Longrightarrow> safe g (f r) Q) \<Longrightarrow>
     safe g (State_Monad.bind (fd x) f) Q"
  by (rule safe_bindI [OF safe_fd])

lemma safe_poke:
  assumes "range_ok g a (length bs)"
  shows "safe g (poke a bs) (\<lambda>_. True)"
proof (rule safeI)
  fix s :: "'a host" assume inv: "host_inv s"
  have "write_bytes m a bs x = m x" if out: "\<not> in_guest g x" for m x
  proof -
    have "\<not> unat (x - a) < length bs"
    proof
      assume "unat (x - a) < length bs"
      with assms have "in_guest g (a + of_nat (unat (x - a)))" unfolding range_ok_def by blast
      with out show False by simp
    qed
    then show ?thesis by (simp add: write_bytes_def)
  qed
  with inv show "wp (poke a bs) (\<lambda>r s'. confined g s s' \<and> True) s"
    by (simp add: poke_def wp_simps confined_def pending_signal_def host_inv_def)
qed

lemma safe_bind_poke [safe_rules]:
  "range_ok g a (length bs) \<Longrightarrow> safe g (f ()) Q \<Longrightarrow> safe g (State_Monad.bind (poke a bs) f) Q"
  by (rule safe_bindI [OF safe_poke]) auto

lemma safe_set_fd: "i < MAX_FDS \<Longrightarrow> v = -1 \<or> v = int i \<Longrightarrow> safe g (set_fd i v) (\<lambda>_. True)"
  by (rule safeI) (auto simp: set_fd_def wp_simps confined_def pending_signal_def host_inv_def nth_list_update)

lemma safe_bind_set_fd [safe_rules]:
  "i < MAX_FDS \<Longrightarrow> v = -1 \<or> v = int i \<Longrightarrow> safe g (f ()) Q \<Longrightarrow> safe g (State_Monad.bind (set_fd i v) f) Q"
  by (rule safe_bindI [OF safe_set_fd]) auto

lemma safe_adopt:
  "os_ok g os \<Longrightarrow> safe g (adopt_descriptor os real minimum) (\<lambda>r. r = -1 \<or> r = real \<and> 0 \<le> r \<and> r < int MAX_FDS)"
  unfolding adopt_descriptor_def by (intro safe_rules) auto

lemma safe_save_fd [safe_rules]: "os_ok g os \<Longrightarrow> (\<And>r. Q r) \<Longrightarrow> safe g (save_fd os real minimum) Q"
  unfolding save_fd_def by (rule safe_mono [OF safe_adopt])

lemma safe_bind_save_fd [safe_rules]:
  "os_ok g os \<Longrightarrow> (\<And>r. r = -1 \<or> r = real \<and> 0 \<le> r \<and> r < int MAX_FDS \<Longrightarrow> safe g (f r) Q) \<Longrightarrow>
     safe g (State_Monad.bind (save_fd os real minimum) f) Q"
  unfolding save_fd_def by (rule safe_bindI [OF safe_adopt])

subsection \<open>Descriptors a request has just opened\<close>

text \<open>
  \<open>safe_from\<close> is \<open>safe\<close> with a condition on the state before and after; \<open>held is\<close> says that the
  descriptors \<open>is\<close> are open in the guest's table.
\<close>

definition safe_from ::
  "geometry \<Rightarrow> ('k host \<Rightarrow> bool) \<Rightarrow> ('k, 'a) hostm \<Rightarrow> ('a \<Rightarrow> 'k host \<Rightarrow> bool) \<Rightarrow> bool" where
  "safe_from g P m Q \<longleftrightarrow> (\<forall>s. host_inv s \<longrightarrow> P s \<longrightarrow> wp m (\<lambda>r t. confined g s t \<and> Q r t) s)"

definition held :: "nat list \<Rightarrow> 'k host \<Rightarrow> bool" where
  "held is s \<longleftrightarrow> distinct is \<and> (\<forall>i \<in> set is. i < MAX_FDS \<and> fds s ! i = int i)"

lemma safe_fromI:
  "(\<And>s. host_inv s \<Longrightarrow> P s \<Longrightarrow> wp m (\<lambda>r t. confined g s t \<and> Q r t) s) \<Longrightarrow> safe_from g P m Q"
  by (simp add: safe_from_def)

lemma safe_from_start: "safe_from g (\<lambda>_. True) m Q \<Longrightarrow> (\<And>r t. Q r t \<Longrightarrow> R r) \<Longrightarrow> safe g m R"
  unfolding safe_from_def safe_def by (blast intro: wp_mono)

lemma safe_from_plain: "safe g m Q \<Longrightarrow> safe_from g P m (\<lambda>r _. Q r)"
  unfolding safe_from_def safe_def by blast

lemma safe_from_weaken:
  "safe_from g P m Q \<Longrightarrow> (\<And>s. P' s \<Longrightarrow> P s) \<Longrightarrow> (\<And>r t. Q r t \<Longrightarrow> Q' r t) \<Longrightarrow> safe_from g P' m Q'"
  unfolding safe_from_def by (blast intro: wp_mono)

lemma safe_from_bind:
  assumes m: "safe_from g P m R" and f: "\<And>r. safe_from g (R r) (f r) Q"
  shows "safe_from g P (State_Monad.bind m f) Q"
proof (rule safe_fromI)
  fix s :: "'a host" assume s: "host_inv s" "P s"
  show "wp (State_Monad.bind m f) (\<lambda>r t. confined g s t \<and> Q r t) s"
  proof (rule wp_bindI)
    show "wp m (\<lambda>r t. confined g s t \<and> R r t) s" using m s by (simp add: safe_from_def)
    fix r t assume t: "confined g s t \<and> R r t"
    then have "host_inv t" by (simp add: confined_def)
    then have "wp (f r) (\<lambda>r' u. confined g t u \<and> Q r' u) t" using f t by (simp add: safe_from_def)
    then show "wp (f r) (\<lambda>r' u. confined g s u \<and> Q r' u) t"
      by (rule wp_mono) (use t in \<open>blast intro: confined_trans\<close>)
  qed
qed

lemma safe_from_return: "(\<And>s. P s \<Longrightarrow> Q r s) \<Longrightarrow> safe_from g P (State_Monad.return r) Q"
  by (simp add: safe_from_def wp_return confined_refl)

lemma safe_from_if:
  "(b \<Longrightarrow> safe_from g P m Q) \<Longrightarrow> (\<not> b \<Longrightarrow> safe_from g P n Q) \<Longrightarrow> safe_from g P (if b then m else n) Q"
  by simp

lemma safe_from_pre: "(p \<Longrightarrow> safe_from g P m Q) \<Longrightarrow> safe_from g (\<lambda>s. p \<and> P s) m Q"
  by (auto simp: safe_from_def)

text \<open>Code that does not touch the table keeps what is held.\<close>

lemma safe_from_held:
  assumes "safe g m Q" "\<And>s. wp m (\<lambda>r t. fds t = fds s) s"
  shows "safe_from g (held is) m (\<lambda>r t. Q r \<and> held is t)"
proof (rule safe_fromI)
  fix s :: "'a host" assume s: "host_inv s" "held is s"
  have "wp m (\<lambda>r t. confined g s t \<and> Q r) s" using assms(1) s by (simp add: safe_def)
  with assms(2) [of s] have "wp m (\<lambda>r t. (confined g s t \<and> Q r) \<and> fds t = fds s) s"
    by (simp add: wp_def split: prod.splits)
  then show "wp m (\<lambda>r t. confined g s t \<and> Q r \<and> held is t) s"
    by (rule wp_mono) (use s in \<open>simp add: held_def\<close>)
qed

lemma call_fds: "wp (call os nm args) (\<lambda>r t. fds t = fds s) s"
  by (simp add: wp_call split: prod.splits)

lemma safe_from_call:
  "os_ok g os \<Longrightarrow> list_all (arg_safe g) args \<Longrightarrow> safe_from g (held is) (call os nm args) (\<lambda>r. held is)"
  by (rule safe_from_weaken [OF safe_from_held [OF safe_call [where Q = "\<lambda>_. True"] call_fds]]) auto

lemma safe_from_save_fd:
  assumes "os_ok g os"
  shows "safe_from g (held is) (save_fd os real 0)
    (\<lambda>r s. if r < 0 then held is s else r = real \<and> r < int MAX_FDS \<and> held (nat r # is) s)"
proof (rule safe_fromI)
  fix s :: "'a host" assume s: "host_inv s" "held is s"
  show "wp (save_fd os real 0) (\<lambda>r t. confined g s t \<and>
      (if r < 0 then held is t else r = real \<and> r < int MAX_FDS \<and> held (nat r # is) t)) s"
  proof (cases "0 \<le> real \<and> real < int MAX_FDS \<and> fds s ! nat real < 0")
    case True
    then have "nat real < MAX_FDS" "nat real \<notin> set is" using s(2) by (auto simp: held_def)
    with True s show ?thesis
      by (auto simp: save_fd_def adopt_descriptor_def wp_simps set_fd_def confined_def pending_signal_def
          host_inv_def held_def nth_list_update)
  next
    case False
    have "safe_from g (held is) (do { _ \<leftarrow> call os ''close'' [New real]; fail EMFILE })
        (\<lambda>r t. r < 0 \<and> held is t)"
      by (rule safe_from_bind [OF safe_from_call [OF assms]])
        (auto simp: safe_from_def wp_fail confined_def pending_signal_def host_inv_def held_def)
    with False s show ?thesis
      by (auto simp: save_fd_def adopt_descriptor_def wp_bind [of "gets f" for f] wp_gets wp_return
          confined_refl safe_from_def elim!: wp_mono)
  qed
qed

lemma safe_from_drop_fd:
  assumes "os_ok g os"
  shows "safe_from g (held (i # is)) (drop_fd os i) (\<lambda>_. held is)"
proof (rule safe_fromI)
  fix s :: "'a host" assume s: "host_inv s" "held (i # is) s"
  then have i: "i < MAX_FDS" "fds s ! i = int i" by (auto simp: held_def)
  have "safe_from g (held (i # is)) (do { _ \<leftarrow> call os ''close'' [Fd (int i)]; set_fd i (-1) }) (\<lambda>_. held is)"
  proof (rule safe_from_bind [OF safe_from_call [OF assms]])
    show "safe_from g (held (i # is)) (set_fd i (-1)) (\<lambda>_. held is)"
      using i(1) by (auto simp: safe_from_def set_fd_def wp_update confined_def pending_signal_def
          host_inv_def held_def nth_list_update)
  qed (use i in simp)
  with s i show "wp (drop_fd os i) (\<lambda>r t. confined g s t \<and> held is t) s"
    by (simp add: drop_fd_def wp_bind [of "gets f" for f] wp_gets safe_from_def)
qed

subsection \<open>A concrete loader\<close>

text \<open>
  A loader state with the three standard descriptors open and a kernel whose every call succeeds
  without storing anything, for evaluating the model on concrete requests.
\<close>

definition demo_geometry :: geometry where
  "demo_geometry = \<lparr>mem_start = 0x10000, mem_size = 0x10000, image = 0, image_size = 0,
     libc_signals = {1..31} \<union> {35..64}\<rparr>"

definition demo_host :: "(u64 \<Rightarrow> byte) \<Rightarrow> unit host" where
  "demo_host m = \<lparr>world = \<lparr>gmem = m, recorded = {}, io_active = False, io_interrupted = False, kern = ()\<rparr>,
     errno = 0, trace = [], fds = [0, 1, 2] @ replicate 253 (-1), dirs = replicate 64 None,
     dir_fds = replicate 64 0, sem_objects = replicate 64 None, sem_refs = replicate 64 0,
     mailbox_pending = 0, installed_flags = replicate 65 0, oob = False\<rparr>"

definition demo_os :: "unit machine os" where
  "demo_os c m = (\<lparr>ret = (case c of Call nm args \<Rightarrow> if nm = ''dup2'' then (case args of [_, Fd y] \<Rightarrow> y | _ \<Rightarrow> 0) else 0),
     err = 0, nums = [], payload = []\<rparr>, m)"

definition demo_memory :: "(u64 \<times> string) list \<Rightarrow> u64 \<Rightarrow> byte" where
  "demo_memory blocks = foldl (\<lambda>m (a, str). write_bytes m a (map of_char str @ [0])) (\<lambda>_. 0) blocks"

lemma demo_geometry_ok: "geometry_ok demo_geometry"
  by (simp add: geometry_ok_def demo_geometry_def)

lemma demo_host_inv: "host_inv (demo_host m)"
proof -
  have "([0, 1, 2 :: int] @ replicate 253 (-1)) ! i = -1 \<or> ([0, 1, 2] @ replicate 253 (-1)) ! i = int i"
    if "i < 256" for i
  proof (cases "i < 3")
    case True
    then have "i = 0 \<or> i = 1 \<or> i = 2" by auto
    then show ?thesis by auto
  next
    case False
    with that show ?thesis by (simp add: nth_append)
  qed
  then show ?thesis
    by (simp add: host_inv_def demo_host_def MAX_FDS_def MAX_DIRS_def MAX_NAMED_SEMAPHORES_def)
qed

lemma demo_os_ok: "os_ok g demo_os"
  by (simp add: os_ok_def os_frame_def os_fds_def os_heap_def os_signals_def os_receive_def os_events_def demo_os_def)

end
