(* ===== verification/Wire.thy ===== *)
theory Wire
  imports Prelude
begin

text \<open>
  Layouts of the C structures that cross a boundary as bytes (the wire structures of
  \<^verbatim>\<open>src/include/kernel_control.h\<close> and \<^verbatim>\<open>src/include/posix_extra.h\<close>). A layout lists
  the members in order: an unsigned or signed integer of a number of bytes, or padding. A structure's
  value is the list of its integer members; a byte array member is a run of one-byte integers.
  \<open>encode_struct\<close> and \<open>decode_struct\<close> convert between the value and its little-endian
  image, and are inverse to each other on values whose members fit their widths.
\<close>

datatype member = U nat | I nat | Pad nat

type_synonym layout = "member list"

fun member_size :: "member \<Rightarrow> nat" where
  "member_size (U w) = w"
| "member_size (I w) = w"
| "member_size (Pad w) = w"

definition struct_size :: "layout \<Rightarrow> nat" where
  "struct_size fs = sum_list (map member_size fs)"

definition bytes_member :: "nat \<Rightarrow> layout" where
  "bytes_member n = replicate n (U 1)"

text \<open>Reading a \<open>w\<close>-byte integer as a signed number.\<close>

definition signed_value :: "nat \<Rightarrow> nat \<Rightarrow> int" where
  "signed_value w x = (if 2 * x < 256 ^ w then int x else int x - 256 ^ w)"

definition encode_int :: "nat \<Rightarrow> int \<Rightarrow> byte list" where
  "encode_int w x = le_enc w (nat (x mod 256 ^ w))"

fun encode_struct :: "layout \<Rightarrow> int list \<Rightarrow> byte list" where
  "encode_struct [] xs = []"
| "encode_struct (Pad w # fs) xs = replicate w 0 @ encode_struct fs xs"
| "encode_struct (U w # fs) xs =
     encode_int w (case xs of [] \<Rightarrow> 0 | x # _ \<Rightarrow> x) @ encode_struct fs (tl xs)"
| "encode_struct (I w # fs) xs =
     encode_int w (case xs of [] \<Rightarrow> 0 | x # _ \<Rightarrow> x) @ encode_struct fs (tl xs)"

fun decode_struct :: "layout \<Rightarrow> byte list \<Rightarrow> int list" where
  "decode_struct [] bs = []"
| "decode_struct (Pad w # fs) bs = decode_struct fs (drop w bs)"
| "decode_struct (U w # fs) bs = int (le_dec (take w bs)) # decode_struct fs (drop w bs)"
| "decode_struct (I w # fs) bs = signed_value w (le_dec (take w bs)) # decode_struct fs (drop w bs)"

text \<open>The values a layout can hold, and the image of a structure whose padding is cleared.\<close>

fun fits :: "layout \<Rightarrow> int list \<Rightarrow> bool" where
  "fits [] xs = (xs = [])"
| "fits (Pad w # fs) xs = fits fs xs"
| "fits (U w # fs) (x # xs) = (0 \<le> x \<and> x < 256 ^ w \<and> fits fs xs)"
| "fits (I w # fs) (x # xs) = (0 < w \<and> - (256 ^ w) \<le> 2 * x \<and> 2 * x < 256 ^ w \<and> fits fs xs)"
| "fits _ _ = False"

fun clear_padding :: "layout \<Rightarrow> byte list \<Rightarrow> byte list" where
  "clear_padding [] bs = []"
| "clear_padding (Pad w # fs) bs = replicate w 0 @ clear_padding fs (drop w bs)"
| "clear_padding (f # fs) bs = take (member_size f) bs @ clear_padding fs (drop (member_size f) bs)"

lemma struct_size_simps [simp]:
  "struct_size [] = 0" "struct_size (f # fs) = member_size f + struct_size fs"
  "struct_size (fs @ gs) = struct_size fs + struct_size gs"
  "struct_size (bytes_member n) = n"
  by (simp_all add: struct_size_def bytes_member_def sum_list_replicate)

lemma length_encode_int [simp]: "length (encode_int w x) = w"
  by (simp add: encode_int_def)

lemma length_encode_struct [simp]: "length (encode_struct fs xs) = struct_size fs"
  by (induction fs xs rule: encode_struct.induct) auto

lemma power_256_int: "(256 :: int) ^ w = int (256 ^ w)"
  by simp

lemma le_dec_encode_int: "le_dec (encode_int w x) = nat (x mod 256 ^ w)"
proof -
  have "nat (x mod int (256 ^ w)) < 256 ^ w" by (subst nat_less_iff) simp_all
  then show ?thesis unfolding encode_int_def power_256_int by (rule le_dec_enc_id)
qed

lemma unsigned_member: "0 \<le> x \<Longrightarrow> x < 256 ^ w \<Longrightarrow> int (le_dec (encode_int w x)) = x"
  by (simp add: le_dec_encode_int)

lemma signed_member:
  assumes "0 < w" "- (256 ^ w) \<le> 2 * x" "2 * x < 256 ^ w"
  shows "signed_value w (le_dec (encode_int w x)) = x"
proof -
  define N :: nat where "N = 256 ^ w"
  have N: "(256 :: int) ^ w = int N" by (simp add: N_def)
  from assms have b: "- int N \<le> 2 * x" "2 * x < int N" by (simp_all add: N)
  have "x mod int N = (if 0 \<le> x then x else x + int N)"
  proof (cases "0 \<le> x")
    case False
    have "x mod int N = (x + int N) mod int N" by simp
    also have "\<dots> = x + int N" using False b by (intro mod_pos_pos_trivial) auto
    finally show ?thesis using False by simp
  qed (use b in simp)
  then show ?thesis using b unfolding signed_value_def le_dec_encode_int N N_def [symmetric] by auto
qed

lemma decode_encode_struct: "fits fs xs \<Longrightarrow> decode_struct fs (encode_struct fs xs) = xs"
  by (induction fs xs rule: fits.induct) (auto simp: unsigned_member signed_member)

lemma encode_int_unsigned:
  assumes "length bs = w" shows "encode_int w (int (le_dec bs)) = bs"
proof -
  have "le_dec bs < 256 ^ w" using le_dec_bound [of bs] assms by simp
  then have "nat (int (le_dec bs) mod 256 ^ w) = le_dec bs"
    unfolding power_256_int by (metis nat_int of_nat_mod mod_less)
  with assms show ?thesis by (simp add: encode_int_def le_enc_dec)
qed

lemma encode_int_signed:
  assumes "length bs = w" shows "encode_int w (signed_value w (le_dec bs)) = bs"
proof -
  have "signed_value w (le_dec bs) mod 256 ^ w = int (le_dec bs) mod 256 ^ w"
    by (simp add: signed_value_def)
  then show ?thesis using encode_int_unsigned [OF assms] by (simp add: encode_int_def)
qed

lemma encode_decode_struct:
  "length bs = struct_size fs \<Longrightarrow> encode_struct fs (decode_struct fs bs) = clear_padding fs bs"
proof (induction fs arbitrary: bs)
  case Nil
  then show ?case by simp
next
  case (Cons f fs)
  have "length (drop (member_size f) bs) = struct_size fs" "length (take (member_size f) bs) = member_size f"
    using Cons.prems by auto
  with Cons.IH show ?case by (cases f) (auto simp: encode_int_unsigned encode_int_signed)
qed

lemma length_decode_struct: "length (decode_struct fs bs) = length (filter (\<lambda>f. \<not> (\<exists>n. f = Pad n)) fs)"
  by (induction fs bs rule: decode_struct.induct) auto

end
