(* ===== verification/Bridge_Abi.thy ===== *)
theory Bridge_Abi
  imports Bridge_Safety Wire
begin

text \<open>
  The guest/host ABI conversions: \<^verbatim>\<open>src/src/abi_host.h\<close> and the small conversions of
  \<^verbatim>\<open>src/src/host.c\<close> and \<^verbatim>\<open>src/src/bridge_guest.c\<close> (error numbers, open flags,
  clock numbers, \<^verbatim>\<open>copy_string\<close>, \<^verbatim>\<open>bounded_realpath\<close>). A C chain of
  \<^verbatim>\<open>if (bits & X) f |= Y\<close> over single-bit constants is \<open>copy_bits\<close> with the table of
  bit positions in the order of the chain. Linux constants are those of x86-64.
\<close>

subsection \<open>Flag words\<close>

definition copy_bits :: "(nat \<times> nat) list \<Rightarrow> 'a::len word \<Rightarrow> 'b::len word \<Rightarrow> 'b word" where
  "copy_bits tab bits f = foldl (\<lambda>f (b, n). if bit bits b then set_bit n f else f) f tab"

abbreviation (input) BO_CREATE :: nat where "BO_CREATE \<equiv> 2"
abbreviation (input) BO_TRUNCATE :: nat where "BO_TRUNCATE \<equiv> 3"
abbreviation (input) BO_APPEND :: nat where "BO_APPEND \<equiv> 4"
abbreviation (input) BO_EXCLUSIVE :: nat where "BO_EXCLUSIVE \<equiv> 5"
abbreviation (input) BO_NONBLOCK :: nat where "BO_NONBLOCK \<equiv> 6"
abbreviation (input) BO_CLOEXEC :: nat where "BO_CLOEXEC \<equiv> 7"
abbreviation (input) BO_NOFOLLOW :: nat where "BO_NOFOLLOW \<equiv> 8"
abbreviation (input) BO_DIRECTORY :: nat where "BO_DIRECTORY \<equiv> 9"
abbreviation (input) BO_NOCTTY :: nat where "BO_NOCTTY \<equiv> 10"

abbreviation (input) O_CREAT :: nat where "O_CREAT \<equiv> 6"
abbreviation (input) O_EXCL :: nat where "O_EXCL \<equiv> 7"
abbreviation (input) O_NOCTTY :: nat where "O_NOCTTY \<equiv> 8"
abbreviation (input) O_TRUNC :: nat where "O_TRUNC \<equiv> 9"
abbreviation (input) O_APPEND :: nat where "O_APPEND \<equiv> 10"
abbreviation (input) O_NONBLOCK :: nat where "O_NONBLOCK \<equiv> 11"
abbreviation (input) O_DIRECTORY :: nat where "O_DIRECTORY \<equiv> 16"
abbreviation (input) O_NOFOLLOW :: nat where "O_NOFOLLOW \<equiv> 17"
abbreviation (input) O_CLOEXEC :: nat where "O_CLOEXEC \<equiv> 19"

definition open_flags :: "u32 \<Rightarrow> u32" where
  "open_flags bits = copy_bits
     [(BO_CREATE, O_CREAT), (BO_TRUNCATE, O_TRUNC), (BO_APPEND, O_APPEND), (BO_EXCLUSIVE, O_EXCL),
      (BO_NONBLOCK, O_NONBLOCK), (BO_CLOEXEC, O_CLOEXEC), (BO_NOFOLLOW, O_NOFOLLOW),
      (BO_DIRECTORY, O_DIRECTORY), (BO_NOCTTY, O_NOCTTY)] bits (bits AND mask 2)"

text \<open>The descriptor-flag conversion of \<^verbatim>\<open>host.c\<close>, and the two of \<^verbatim>\<open>bridge_guest.c\<close>.
  The guest's library numbers its \<^verbatim>\<open>O_*\<close> flags itself: \<open>pos\<close> gives the position of each.\<close>

definition pack_flags :: "u32 \<Rightarrow> u32" where
  "pack_flags flags = copy_bits [(O_APPEND, BO_APPEND), (O_NONBLOCK, BO_NONBLOCK)] flags
     (flags AND mask 2)"

definition guest_pack_flags :: "(nat \<Rightarrow> nat) \<Rightarrow> u32 \<Rightarrow> u32" where
  "guest_pack_flags pos flags = copy_bits
     [(pos O_CREAT, BO_CREATE), (pos O_TRUNC, BO_TRUNCATE), (pos O_APPEND, BO_APPEND),
      (pos O_EXCL, BO_EXCLUSIVE), (pos O_NONBLOCK, BO_NONBLOCK), (pos O_CLOEXEC, BO_CLOEXEC),
      (pos O_NOFOLLOW, BO_NOFOLLOW), (pos O_DIRECTORY, BO_DIRECTORY), (pos O_NOCTTY, BO_NOCTTY)]
     flags (flags AND mask 2)"

definition guest_unpack_flags :: "(nat \<Rightarrow> nat) \<Rightarrow> u32 \<Rightarrow> u32" where
  "guest_unpack_flags pos f = copy_bits [(BO_APPEND, pos O_APPEND), (BO_NONBLOCK, pos O_NONBLOCK)] f
     (f AND mask 2)"

text \<open>
  \<^verbatim>\<open>AT_EACCESS\<close> and \<^verbatim>\<open>AT_REMOVEDIR\<close> are the same bit on Linux; the guest numbers the
  five flags 1, 2, 4, 8, 16. \<open>AT_STATX_SYNC_TYPE\<close> is the two-bit mask 0x6000.
\<close>

abbreviation (input) AT_SYMLINK_NOFOLLOW :: nat where "AT_SYMLINK_NOFOLLOW \<equiv> 8"
abbreviation (input) AT_EACCESS :: nat where "AT_EACCESS \<equiv> 9"
abbreviation (input) AT_REMOVEDIR :: nat where "AT_REMOVEDIR \<equiv> 9"
abbreviation (input) AT_SYMLINK_FOLLOW :: nat where "AT_SYMLINK_FOLLOW \<equiv> 10"
abbreviation (input) AT_NO_AUTOMOUNT :: nat where "AT_NO_AUTOMOUNT \<equiv> 11"
abbreviation (input) AT_EMPTY_PATH :: nat where "AT_EMPTY_PATH \<equiv> 12"

definition GUEST_AT_FLAGS :: u64 where "GUEST_AT_FLAGS = mask 5"

definition at_flag_bits :: "u64 \<Rightarrow> u32" where
  "at_flag_bits bits = copy_bits
     [(0, AT_EACCESS), (1, AT_SYMLINK_NOFOLLOW), (2, AT_SYMLINK_FOLLOW), (3, AT_REMOVEDIR),
      (4, AT_EMPTY_PATH)] bits 0"

text \<open>The C function returns the flags as a nonnegative \<^verbatim>\<open>int\<close>, or -1.\<close>

definition at_flags :: "u64 \<Rightarrow> ('k, int) hostm" where
  "at_flags bits =
     (if bits AND NOT GUEST_AT_FLAGS \<noteq> 0 then fail EINVAL
      else State_Monad.return (uint (at_flag_bits bits)))"

definition STATX_NATIVE :: u64 where
  "STATX_NATIVE = set_bit AT_SYMLINK_NOFOLLOW (set_bit AT_NO_AUTOMOUNT (set_bit AT_EMPTY_PATH
     (set_bit 13 (set_bit 14 0))))"

definition statx_flags :: "u64 \<Rightarrow> ('k, int) hostm" where
  "statx_flags bits =
     (if bits AND NOT (GUEST_AT_FLAGS OR STATX_NATIVE) \<noteq> 0 then fail EINVAL
      else do {
        flags \<leftarrow> at_flags (bits AND GUEST_AT_FLAGS);
        if flags < 0 then State_Monad.return (-1)
        else State_Monad.return (uint (word_of_int flags OR ucast (bits AND STATX_NATIVE) :: u32))
      })"

text \<open>A test \<^verbatim>\<open>flags & X\<close> of a C \<^verbatim>\<open>int\<close> that may be -1.\<close>

definition int_flag :: "int \<Rightarrow> nat \<Rightarrow> bool" where
  "int_flag flags n = bit flags n"

subsection \<open>Structures\<close>

definition timeval_layout :: layout where "timeval_layout = [I 8, I 8]"
definition guest_timeval_layout :: layout where "guest_timeval_layout = [I 8, I 4, Pad 4]"
definition stat_layout :: layout where "stat_layout = replicate 7 (U 8) @ replicate 9 (I 8)"
definition statvfs_layout :: layout where "statvfs_layout = replicate 11 (U 8)"
definition epoll_layout :: layout where "epoll_layout = [U 4, Pad 4, U 8]"
definition timex_layout :: layout where
  "timex_layout = [U 4, Pad 4, I 8, I 8, I 8, I 8, I 4, Pad 4, I 8, I 8, I 8, I 8, I 8, I 8, I 8,
     I 8, I 4, Pad 4, I 8, I 8, I 8, I 8, I 8, I 4, Pad 44]"
definition semid_layout :: layout where
  "semid_layout = bytes_member 48 @ [I 8, Pad 8, I 8, Pad 8, U 8, Pad 8, Pad 8]"

record timeval =
  tv_sec :: int
  tv_usec :: int

definition import_timeval :: "byte list \<Rightarrow> timeval" where
  "import_timeval raw = (let v = decode_struct timeval_layout raw in
     \<lparr>tv_sec = v ! 0, tv_usec = v ! 1\<rparr>)"

definition export_timeval :: "timeval \<Rightarrow> byte list" where
  "export_timeval t = encode_struct timeval_layout [tv_sec t, tv_usec t]"

definition import_guest_timeval :: "byte list \<Rightarrow> timeval" where
  "import_guest_timeval raw = (let v = decode_struct guest_timeval_layout raw in
     \<lparr>tv_sec = v ! 0, tv_usec = v ! 1\<rparr>)"

text \<open>
  The native \<^verbatim>\<open>struct stat\<close>, \<^verbatim>\<open>statvfs\<close>, \<^verbatim>\<open>timex\<close> and \<^verbatim>\<open>semid_ds\<close>
  values are the lists of the members the conversions name, in that order.
\<close>

definition export_stat :: "int list \<Rightarrow> byte list" where
  "export_stat s = encode_struct stat_layout s"

definition export_statvfs :: "int list \<Rightarrow> byte list" where
  "export_statvfs s = encode_struct statvfs_layout s"

primrec export_epoll_events :: "(int \<times> int) list \<Rightarrow> byte list" where
  "export_epoll_events [] = []"
| "export_epoll_events (e # es) =
     encode_struct epoll_layout [fst e, snd e] @ export_epoll_events es"

definition import_timex :: "byte list \<Rightarrow> int list" where
  "import_timex raw = decode_struct timex_layout raw"

definition export_timex :: "int list \<Rightarrow> byte list" where
  "export_timex t = encode_struct timex_layout t"

definition import_semid :: "byte list \<Rightarrow> int list" where
  "import_semid raw = decode_struct semid_layout raw"

definition export_semid :: "int list \<Rightarrow> byte list" where
  "export_semid s = encode_struct semid_layout s"

subsection \<open>Strings, clocks, errors\<close>

text \<open>The bytes \<^verbatim>\<open>snprintf(dst, size, "%s", src)\<close> stores; a NULL source is the empty string.\<close>

definition copy_string :: "nat \<Rightarrow> byte list option \<Rightarrow> byte list" where
  "copy_string n src = (if n = 0 then [] else take (n - 1) (case src of None \<Rightarrow> [] | Some s \<Rightarrow> s) @ [0])"

text \<open>The clock numbers on the right are Linux's, in the order the \<^verbatim>\<open>switch\<close> names them.\<close>

definition native_clock :: "int \<Rightarrow> int" where
  "native_clock i =
     (if i = 0 then 5 else if i = 1 then 0 else if i = 2 \<or> i = 10 then 2
      else if i = 3 \<or> i = 11 then 3 else if i = 4 then 1 else if i = 5 then 4
      else if i = 6 then 6 else if i = 7 then 7 else if i = 8 then 8 else if i = 9 then 9 else -1)"

definition bounded_realpath :: "'k machine os \<Rightarrow> string \<Rightarrow> u64 \<Rightarrow> u64 \<Rightarrow> ('k, int) hostm" where
  "bounded_realpath os path out n = do {
     r \<leftarrow> call os ''realpath'' [Str path];
     if ret r < 0 then State_Monad.return (-1)
     else let resolved = payload r @ [0] in
       if length resolved > unat n then fail ENAMETOOLONG
       else do { poke out resolved; State_Monad.return 0 }
   }"

text \<open>\<^verbatim>\<open>BRIDGE_ERRORS\<close>: the errors that cross the bridge, by their Linux numbers.\<close>

definition BRIDGE_ERRORS :: "int list" where
  "BRIDGE_ERRORS = [1, 2, 3, 4, 5, 6, 7, 8, 9, 10, 11, 12, 13, 14, 16, 17, 18, 19, 20, 21, 22, 23,
     24, 25, 26, 27, 28, 29, 30, 31, 32, 33, 34, 35, 36, 37, 38, 39, 40, 75, 110, 125, 88, 89, 90,
     91, 92, 93, 94, 95, 97, 98, 99, 100, 101, 102, 103, 104, 105, 106, 107, 111, 113, 114, 115, 61,
     42, 43, 84]"

definition BE_EIO :: nat where "BE_EIO = 5"

definition bridge_error :: "int \<Rightarrow> nat" where
  "bridge_error error =
     (if error = 0 then 0
      else case map_of (zip BRIDGE_ERRORS [1..<Suc (length BRIDGE_ERRORS)]) error of
             Some be \<Rightarrow> be
           | None \<Rightarrow> BE_EIO)"

text \<open>\<open>lib e\<close> is the guest library's number for the error that Linux numbers \<open>e\<close>.\<close>

definition guest_error :: "(int \<Rightarrow> int) \<Rightarrow> nat \<Rightarrow> int" where
  "guest_error lib error =
     (if error = 0 then 0
      else if error \<le> length BRIDGE_ERRORS then lib (BRIDGE_ERRORS ! (error - 1))
      else lib EIO)"

subsection \<open>Confinement\<close>

lemma safe_bind_at_flags [safe_rules]:
  "(\<And>r. safe g (f r) Q) \<Longrightarrow> safe g (State_Monad.bind (at_flags bits) f) Q"
  unfolding at_flags_def by (rule safe_bindI [where P = "\<lambda>_. True"]) (intro safe_rules, auto)

lemma safe_bind_statx_flags [safe_rules]:
  "(\<And>r. safe g (f r) Q) \<Longrightarrow> safe g (State_Monad.bind (statx_flags bits) f) Q"
  unfolding statx_flags_def by (rule safe_bindI [where P = "\<lambda>_. True"]) (intro safe_rules, auto)

lemma safe_bounded_realpath [safe_rules]:
  "os_ok g os \<Longrightarrow> range_ok g out (unat n) \<Longrightarrow> (\<And>r. Q r) \<Longrightarrow> safe g (bounded_realpath os path out n) Q"
  unfolding bounded_realpath_def by (intro safe_rules) (auto intro: range_ok_mono)

subsection \<open>Facts\<close>

lemma bit_copy_bits:
  "n < LENGTH('b) \<Longrightarrow>
     bit (copy_bits tab (bits :: 'a::len word) (f :: 'b::len word)) n \<longleftrightarrow>
       bit f n \<or> (\<exists>b. (b, n) \<in> set tab \<and> bit bits b)"
proof (induction tab arbitrary: f)
  case Nil
  then show ?case by (simp add: copy_bits_def)
next
  case (Cons e tab)
  obtain b m where e: "e = (b, m)" by (cases e)
  have "copy_bits (e # tab) bits f = copy_bits tab bits (if bit bits b then set_bit m f else f)"
    by (simp add: copy_bits_def e)
  with Cons show ?case by (auto simp: e bit_set_bit_iff)
qed

lemma bit_range: "bit (w :: u32) n \<Longrightarrow> n < 32"
  using bit_imp_le_length [of w n] by simp

definition known_flags :: "nat set" where
  "known_flags = {O_CREAT, O_TRUNC, O_APPEND, O_EXCL, O_NONBLOCK, O_CLOEXEC, O_NOFOLLOW,
    O_DIRECTORY, O_NOCTTY}"

lemma known_cases:
  assumes "\<And>m. m < 2 \<Longrightarrow> P m" "\<And>m. m \<in> known_flags \<Longrightarrow> P m" "\<And>m. 2 \<le> m \<Longrightarrow> m \<notin> known_flags \<Longrightarrow> P m"
  shows "P n"
  using assms by (cases "n < 2"; cases "n \<in> known_flags") auto

lemma bit_open_low: "n < 2 \<Longrightarrow> bit (open_flags bits) n \<longleftrightarrow> bit bits n"
  by (auto simp: open_flags_def bit_copy_bits bit_and_iff bit_mask_iff)

lemma bit_open_known:
  "n \<in> known_flags \<Longrightarrow> bit (open_flags bits) n \<longleftrightarrow>
     bit bits (if n = O_CREAT then BO_CREATE else if n = O_TRUNC then BO_TRUNCATE
       else if n = O_APPEND then BO_APPEND else if n = O_EXCL then BO_EXCLUSIVE
       else if n = O_NONBLOCK then BO_NONBLOCK else if n = O_CLOEXEC then BO_CLOEXEC
       else if n = O_NOFOLLOW then BO_NOFOLLOW else if n = O_DIRECTORY then BO_DIRECTORY
       else BO_NOCTTY)"
  unfolding known_flags_def
  by (elim insertE emptyE) (simp_all add: open_flags_def bit_copy_bits bit_and_iff bit_mask_iff)

lemma bit_open_other: "2 \<le> n \<Longrightarrow> n \<notin> known_flags \<Longrightarrow> \<not> bit (open_flags bits) n"
proof
  assume n: "2 \<le> n" "n \<notin> known_flags" and b: "bit (open_flags bits) n"
  from b have "n < 32" by (rule bit_range)
  with n b show False
    by (simp add: open_flags_def bit_copy_bits bit_and_iff bit_mask_iff known_flags_def)
qed

lemma bit_pack_flags:
  "bit (pack_flags f) m \<longleftrightarrow>
     m < 2 \<and> bit f m \<or> m = BO_APPEND \<and> bit f O_APPEND \<or> m = BO_NONBLOCK \<and> bit f O_NONBLOCK"
proof (cases "m < 32")
  case True
  then show ?thesis by (auto simp: pack_flags_def bit_copy_bits bit_and_iff bit_mask_iff)
next
  case False
  then show ?thesis using bit_range [of "pack_flags f" m] by auto
qed

lemma set_lookup: "distinct xs \<Longrightarrow> i < length xs \<Longrightarrow> map_of (zip xs [k..<k + length xs]) (xs ! i) = Some (k + i)"
  by (simp add: map_of_zip_nth)

text \<open>
  C32. An error number crosses the bridge by name: after \<^verbatim>\<open>bridge_error\<close> on the host and
  \<^verbatim>\<open>guest_error\<close> in the guest the shell sees its own library's number for the same error
  whenever the error is one of \<^verbatim>\<open>BRIDGE_ERRORS\<close>, sees no error for none, and sees
  \<^verbatim>\<open>EIO\<close> for every other error.
\<close>
theorem error_roundtrip:
  "guest_error lib (bridge_error e) =
     (if e = 0 then 0 else if e \<in> set BRIDGE_ERRORS then lib e else lib EIO)"
proof (cases "e \<in> set BRIDGE_ERRORS")
  case True
  then obtain i where i: "i < length BRIDGE_ERRORS" "e = BRIDGE_ERRORS ! i"
    by (metis in_set_conv_nth)
  have "distinct BRIDGE_ERRORS" "0 \<notin> set BRIDGE_ERRORS" by (simp_all add: BRIDGE_ERRORS_def)
  with True have "e \<noteq> 0" by metis
  moreover from \<open>distinct BRIDGE_ERRORS\<close> i have "bridge_error e = Suc i"
    using set_lookup [of BRIDGE_ERRORS i 1] \<open>e \<noteq> 0\<close> by (simp add: bridge_error_def del: upt_Suc)
  ultimately show ?thesis using i True by (simp add: guest_error_def)
next
  case False
  then have "map_of (zip BRIDGE_ERRORS [1..<Suc (length BRIDGE_ERRORS)]) e = None"
    by (simp add: map_of_zip_is_None del: upt_Suc)
  then have "bridge_error e = (if e = 0 then 0 else BE_EIO)"
    unfolding bridge_error_def by (simp only: option.case)
  moreover have "BRIDGE_ERRORS ! (BE_EIO - 1) = EIO" "BE_EIO \<le> length BRIDGE_ERRORS" "BE_EIO \<noteq> 0"
    by (simp_all add: BRIDGE_ERRORS_def BE_EIO_def)
  ultimately show ?thesis using False by (simp add: guest_error_def)
qed

text \<open>
  C33. The open flags the guest passes reach Linux with their meaning. \<open>pos\<close> gives the bit the
  guest's library uses for each Linux flag; packing them in the guest and unpacking them in the
  loader sets exactly the Linux flag for every guest flag that was set, keeps the access mode, and
  sets nothing else.
\<close>
theorem open_flags_translate:
  "bit (open_flags (guest_pack_flags pos flags)) n \<longleftrightarrow>
     (if n < 2 then bit flags n else n \<in> known_flags \<and> bit flags (pos n))"
proof (induction n rule: known_cases)
  case (1 m)
  then show ?case
    by (simp add: bit_open_low) (auto simp: guest_pack_flags_def bit_copy_bits bit_and_iff bit_mask_iff)
next
  case (2 m)
  then show ?case
    by (simp add: bit_open_known)
      (simp add: known_flags_def guest_pack_flags_def bit_copy_bits bit_and_iff bit_mask_iff, elim disjE,
        simp_all)
next
  case (3 m)
  then show ?case by (simp add: bit_open_other)
qed

text \<open>
  \<^verbatim>\<open>F_GETFL\<close> reports a descriptor's flags faithfully: the word \<^verbatim>\<open>pack_flags\<close> makes,
  read back through \<^verbatim>\<open>open_flags\<close> as \<^verbatim>\<open>F_SETFL\<close> does, denotes the same access mode, append
  flag and non-blocking flag, and nothing else.
\<close>
theorem status_flags_roundtrip:
  "bit (open_flags (pack_flags flags)) n \<longleftrightarrow> (n < 2 \<or> n = O_APPEND \<or> n = O_NONBLOCK) \<and> bit flags n"
proof (induction n rule: known_cases)
  case (1 m)
  then show ?case by (simp add: bit_open_low bit_pack_flags)
next
  case (2 m)
  then show ?case
    by (simp add: bit_open_known) (simp add: known_flags_def bit_pack_flags, elim disjE, simp_all)
next
  case (3 m)
  then show ?case using bit_open_other [of m] by (auto simp: known_flags_def)
qed



end
