(* ===== verification/Bridge_Paths.thy ===== *)
theory Bridge_Paths
  imports Bridge_Safety "HOL-Library.Sublist"
begin

text \<open>
  Pathnames of the guest (\<^verbatim>\<open>src/src/paths_host.h\<close>): a direct descriptor path
  (\<^verbatim>\<open>/dev/fd/N\<close>, \<^verbatim>\<open>/proc/self/fd/N\<close>, \<^verbatim>\<open>/proc/thread-self/fd/N\<close> or
  one of the three stream names) refers to the guest's descriptor table and is rewritten to the
  native descriptor; every other path is passed on unchanged. A C pointer into the path is the
  rest of the string from there.
\<close>

definition PATH_MAX :: nat where "PATH_MAX = 4096"
definition BRIDGE_PATH_SIZE :: nat where "BRIDGE_PATH_SIZE = PATH_MAX + 32"

definition descriptor_prefixes :: "string list" where
  "descriptor_prefixes = [''/dev/fd/'', ''/proc/self/fd/'', ''/proc/thread-self/fd/'']"

definition stream_names :: "string list" where
  "stream_names = [''/dev/stdin'', ''/dev/stdout'', ''/dev/stderr'']"

text \<open>The text after the first prefix that matches.\<close>

fun strip_prefix :: "string list \<Rightarrow> string \<Rightarrow> string option" where
  "strip_prefix [] path = None"
| "strip_prefix (p # ps) path = (if prefix p path then Some (drop (length p) path) else strip_prefix ps path)"

fun stream_alias :: "nat \<Rightarrow> string list \<Rightarrow> string \<Rightarrow> (nat \<times> string) option" where
  "stream_alias i [] path = None"
| "stream_alias i (s # ss) path =
     (if prefix s path \<and> (path = s \<or> path ! length s = CHR ''/'') then Some (i, drop (length s) path)
      else stream_alias (Suc i) ss path)"

text \<open>
  The \<^verbatim>\<open>do\<close> loop over the digits: \<open>None\<close> when the number reaches
  \<^verbatim>\<open>MAX_FDS\<close>, otherwise the number and the text after it.
\<close>

fun scan_descriptor :: "nat \<Rightarrow> string \<Rightarrow> (nat \<times> string) option" where
  "scan_descriptor logical [] = Some (logical, [])"
| "scan_descriptor logical (c # cs) =
     (if is_digit c then
        let logical = logical * 10 + digit_value c in
        if logical \<ge> MAX_FDS then None else scan_descriptor logical cs
      else Some (logical, c # cs))"

definition translate_path :: "nat \<Rightarrow> string \<Rightarrow> ('k, string option) hostm" where
  "translate_path logical suffix' = do {
     actual \<leftarrow> fd (int logical);
     if actual < 0 then do { set_errno ENOENT; State_Monad.return None }
     else let translated = ''/proc/self/fd/'' @ decimal (nat actual) @ suffix' in
       if length translated \<ge> BRIDGE_PATH_SIZE then do { set_errno ENAMETOOLONG; State_Monad.return None }
       else State_Monad.return (Some translated)
   }"

definition path_translate :: "bool \<Rightarrow> string \<Rightarrow> ('k, string option) hostm" where
  "path_translate follow_streams path =
     (case strip_prefix descriptor_prefixes path of
        None \<Rightarrow>
          (case stream_alias 0 stream_names path of
             None \<Rightarrow> State_Monad.return (Some path)
           | Some (logical, rest) \<Rightarrow>
               if \<not> follow_streams \<and> rest = [] then State_Monad.return (Some path)
               else translate_path logical rest)
      | Some number \<Rightarrow>
          if number = [] \<or> \<not> is_digit (hd number) then State_Monad.return (Some path)
          else if hd number = CHR ''0'' \<and> tl number \<noteq> [] \<and> is_digit (hd (tl number))
          then do { set_errno ENOENT; State_Monad.return None }
          else
            (case scan_descriptor 0 number of
               None \<Rightarrow> do { set_errno ENOENT; State_Monad.return None }
             | Some (logical, rest) \<Rightarrow>
                 if rest \<noteq> [] \<and> hd rest \<noteq> CHR ''/'' then State_Monad.return (Some path)
                 else translate_path logical rest))"

definition path_string_mode :: "geometry \<Rightarrow> u64 \<Rightarrow> bool \<Rightarrow> ('k, string option) hostm" where
  "path_string_mode h address follow_streams = do {
     p \<leftarrow> string h address;
     case p of
       None \<Rightarrow> State_Monad.return None
     | Some path \<Rightarrow> path_translate follow_streams path
   }"

definition path_string :: "geometry \<Rightarrow> u64 \<Rightarrow> ('k, string option) hostm" where
  "path_string h address = path_string_mode h address True"

definition path_string_nofollow :: "geometry \<Rightarrow> u64 \<Rightarrow> ('k, string option) hostm" where
  "path_string_nofollow h address = path_string_mode h address False"

subsection \<open>Confinement\<close>

lemma safe_translate_path [safe_rules]: "(\<And>r. Q r) \<Longrightarrow> safe g (translate_path n rest) Q"
  unfolding translate_path_def by (intro safe_rules)

lemma safe_path_translate [safe_rules]: "(\<And>r. Q r) \<Longrightarrow> safe g (path_translate follow path) Q"
  unfolding path_translate_def by (intro safe_rules)

lemma safe_path_string_mode:
  "geometry_ok g \<Longrightarrow> safe g (path_string_mode g a follow) (\<lambda>_. True)"
  unfolding path_string_mode_def by (intro safe_rules) auto

lemma safe_bind_path_string_mode [safe_rules]:
  "geometry_ok g \<Longrightarrow> (\<And>p. safe g (f p) Q) \<Longrightarrow> safe g (State_Monad.bind (path_string_mode g a follow) f) Q"
  by (rule safe_bindI [OF safe_path_string_mode])

lemma safe_bind_path_string [safe_rules]:
  "geometry_ok g \<Longrightarrow> (\<And>p. safe g (f p) Q) \<Longrightarrow> safe g (State_Monad.bind (path_string g a) f) Q"
  "geometry_ok g \<Longrightarrow> (\<And>p. safe g (f p) Q) \<Longrightarrow> safe g (State_Monad.bind (path_string_nofollow g a) f) Q"
  unfolding path_string_def path_string_nofollow_def by (intro safe_rules, simp_all)+

subsection \<open>The descriptor a path names\<close>

text \<open>
  A direct descriptor path: one of the prefixes, a number, and nothing or a slash after it.
\<close>

fun digits_value :: "nat \<Rightarrow> string \<Rightarrow> nat" where
  "digits_value acc [] = acc"
| "digits_value acc (c # cs) = digits_value (acc * 10 + digit_value c) cs"

definition names_descriptor :: "string \<Rightarrow> nat \<Rightarrow> string \<Rightarrow> bool" where
  "names_descriptor path n rest \<longleftrightarrow>
     (\<exists>p ds. p \<in> set descriptor_prefixes \<and> path = p @ ds @ rest \<and> ds \<noteq> [] \<and> list_all is_digit ds \<and>
        n = digits_value 0 ds \<and> (rest = [] \<or> hd rest = CHR ''/''))"

lemma digits_value_append: "digits_value a (xs @ [c]) = digits_value a xs * 10 + digit_value c"
  by (induction a xs rule: digits_value.induct) auto

lemma digits_value_decimal: "digits_value 0 (decimal n) = n"
proof (induction n rule: decimal.induct)
  case (1 n)
  then show ?case by (subst decimal.simps) (auto simp: digits_value_append)
qed

lemma digits_value_mono: "a \<le> digits_value a ds"
  by (induction a ds rule: digits_value.induct) auto

lemma scan_digits:
  "list_all is_digit ds \<Longrightarrow> rest = [] \<or> \<not> is_digit (hd rest) \<Longrightarrow> a < MAX_FDS \<Longrightarrow>
     scan_descriptor a (ds @ rest) =
       (if digits_value a ds < MAX_FDS then Some (digits_value a ds, rest) else None)"
proof (induction ds arbitrary: a)
  case Nil
  then show ?case by (cases rest) auto
next
  case (Cons d ds)
  show ?case
  proof (cases "a * 10 + digit_value d < MAX_FDS")
    case True
    with Cons show ?thesis by simp
  next
    case False
    with digits_value_mono [of "a * 10 + digit_value d" ds] Cons show ?thesis by simp
  qed
qed

lemma slash_not_digit: "rest = [] \<or> hd rest = CHR ''/'' \<Longrightarrow> rest = [] \<or> \<not> is_digit (hd rest)"
  by (auto simp: is_digit_def)

lemma strip_prefix_unique:
  assumes "p \<in> set descriptor_prefixes"
  shows "strip_prefix descriptor_prefixes (p @ rest) = Some rest"
  using assms by (auto simp: descriptor_prefixes_def)

lemma names_descriptorE:
  assumes "names_descriptor path n rest"
  obtains ds where "strip_prefix descriptor_prefixes path = Some (ds @ rest)" "ds \<noteq> []"
    "list_all is_digit ds" "n = digits_value 0 ds" "rest = [] \<or> hd rest = CHR ''/''"
  using assms strip_prefix_unique unfolding names_descriptor_def by blast

lemma split_digits:
  assumes "ds @ rest = es @ rest'" "list_all is_digit ds" "list_all is_digit es"
    "rest = [] \<or> \<not> is_digit (hd rest)" "rest' = [] \<or> \<not> is_digit (hd rest')"
  shows "ds = es \<and> rest = rest'"
proof -
  have "takeWhile is_digit (xs @ ys) = xs" if "list_all is_digit xs" "ys = [] \<or> \<not> is_digit (hd ys)" for xs ys
    using that by (cases ys) (auto simp: list_all_iff)
  with assms show ?thesis by (metis append_same_eq same_append_eq)
qed

lemma string_frame: "wp (string g a) (\<lambda>r t. t = s \<or> (\<exists>e. t = s\<lparr>errno := e\<rparr>)) s"
  unfolding string_def memory_def peek_mem_def
  by (auto simp: wp_simps Let_def split: option.splits)

definition open_descriptor :: "'k host \<Rightarrow> nat \<Rightarrow> bool" where
  "open_descriptor s n \<longleftrightarrow> n < MAX_FDS \<and> fds s ! n = int n"

definition names_open :: "'k host \<Rightarrow> string option \<Rightarrow> bool" where
  "names_open s r \<longleftrightarrow> (\<forall>q n rest. r = Some q \<longrightarrow> names_descriptor q n rest \<longrightarrow> open_descriptor s n)"

lemma names_open_simps [simp]: "names_open s None"
  by (simp add: names_open_def)

lemma fd_open:
  assumes "length (fds s) = MAX_FDS" "\<forall>i < MAX_FDS. fds s ! i = -1 \<or> fds s ! i = int i"
  shows "wp (fd x) (\<lambda>r t. r < 0 \<or> 0 \<le> x \<and> r = x \<and> open_descriptor s (nat x)) s"
proof (cases "0 \<le> x \<and> x < int MAX_FDS")
  case True
  then have "nat x < MAX_FDS" by auto
  with assms(2) have "fds s ! nat x = -1 \<or> fds s ! nat x = int (nat x)" by blast
  with True show ?thesis by (auto simp: fd_def wp_simps open_descriptor_def)
qed (auto simp: fd_def wp_simps)

lemma wp_case_option:
  "wp (case x of None \<Rightarrow> m | Some y \<Rightarrow> f y) Q s = (case x of None \<Rightarrow> wp m Q s | Some y \<Rightarrow> wp (f y) Q s)"
  by (simp split: option.splits)

lemma translate_names:
  assumes "host_inv s" "rest = [] \<or> hd rest = CHR ''/''"
  shows "wp (translate_path k rest)
    (\<lambda>r t. names_open s r) s"
proof -
  have name: "n = k" if d: "names_descriptor (''/proc/self/fd/'' @ decimal k @ rest) n rest'" for n rest'
  proof -
    from d obtain ds where ds: "strip_prefix descriptor_prefixes (''/proc/self/fd/'' @ decimal k @ rest) = Some (ds @ rest')"
      "list_all is_digit ds" "n = digits_value 0 ds" "rest' = [] \<or> hd rest' = CHR ''/''"
      by (rule names_descriptorE)
    moreover have "strip_prefix descriptor_prefixes (''/proc/self/fd/'' @ decimal k @ rest) = Some (decimal k @ rest)"
      by (rule strip_prefix_unique) (simp add: descriptor_prefixes_def)
    ultimately have "ds @ rest' = decimal k @ rest" by simp
    then have "ds = decimal k"
      using split_digits [of ds rest' "decimal k" rest] ds decimal_digits slash_not_digit assms(2) by blast
    with ds show ?thesis by (simp add: digits_value_decimal)
  qed
  have "wp (fd (int k)) (\<lambda>r t. r < 0 \<or> r = int k \<and> open_descriptor s k) s"
    by (rule wp_mono [OF fd_open]) (use assms(1) in \<open>auto simp: host_inv_def\<close>)
  then show ?thesis unfolding translate_path_def wp_bind
    by (rule wp_mono) (auto simp: wp_simps Let_def names_open_def dest: name [simplified])
qed

lemma stream_alias_suffix:
  assumes "stream_alias i ss path = Some (n, rest)"
  shows "rest = [] \<or> hd rest = CHR ''/''"
proof -
  from assms have "rest = [] \<or> rest ! 0 = CHR ''/''"
    by (induction i ss path rule: stream_alias.induct)
      (auto split: if_splits simp: prefix_def nth_append)
  then show ?thesis by (cases rest) auto
qed

lemma path_translate_names:
  assumes "host_inv s"
  shows "wp (path_translate follow path)
    (\<lambda>r t. names_open s r) s"
proof (cases "strip_prefix descriptor_prefixes path")
  case None
  then have "names_open s (Some path)" by (auto simp: names_open_def elim: names_descriptorE)
  moreover have "rest = [] \<or> hd rest = CHR ''/''"
    if "stream_alias 0 stream_names path = Some (n, rest)" for n rest
    using that by (rule stream_alias_suffix)
  ultimately show ?thesis unfolding path_translate_def None option.case
    by (cases "stream_alias 0 stream_names path") (auto simp: wp_simps translate_names [OF assms])
next
  case (Some number)
  have unnamed: "\<not> names_descriptor path n rest"
    if "number = [] \<or> \<not> is_digit (hd number) \<or>
        (\<exists>l r. scan_descriptor 0 number = Some (l, r) \<and> r \<noteq> [] \<and> hd r \<noteq> CHR ''/'')" for n rest
  proof
    assume "names_descriptor path n rest"
    then obtain ds where "number = ds @ rest" "ds \<noteq> []" "list_all is_digit ds" "rest = [] \<or> hd rest = CHR ''/''"
      using Some by (elim names_descriptorE) auto
    with that scan_digits [of ds rest 0] slash_not_digit [of rest] show False
      by (cases ds) (auto simp: MAX_FDS_def split: if_splits)
  qed
  then have "number = [] \<or> \<not> is_digit (hd number) \<or>
      (\<exists>l r. scan_descriptor 0 number = Some (l, r) \<and> r \<noteq> [] \<and> hd r \<noteq> CHR ''/'') \<Longrightarrow> names_open s (Some path)"
    unfolding names_open_def by blast
  then show ?thesis unfolding path_translate_def Some option.case
    by (cases "scan_descriptor 0 number") (auto simp: wp_simps translate_names [OF assms])
qed


definition demo_path :: "u64 \<Rightarrow> byte" where
  "demo_path = demo_memory [(0x11000, ''/dev/fd/1'')]"

lemma cstring_at_numeral:
  "cstring_at m a (numeral k) =
     (if m a = 0 then Some []
      else map_option (Cons (char_of (unat (m a)))) (cstring_at m (a + 1) (pred_numeral k)))"
  by (subst numeral_eq_Suc) (rule cstring_at.simps(2))

lemma demo_path_string:
  "run_state (string demo_geometry 0x11000) (demo_host demo_path) =
     (Some (''/dev/fd/'' @ decimal 1 @ []), demo_host demo_path)"
proof -
  have "cstring_at demo_path 0x11000 4096 = Some ''/dev/fd/1''"
    by (simp add: cstring_at_numeral demo_path_def demo_memory_def write_bytes_def) code_simp
  moreover have "decimal 1 = ''1''" by code_simp
  moreover have "available demo_geometry 0x11000 = 0xF000" by (simp add: available_def demo_geometry_def)
  ultimately show ?thesis
    by (simp add: string_def memory_def peek_mem_def gets_def State_Monad.bind_def
        State_Monad.return_def demo_host_def)
qed


lemma decimal_lead: "0 < n \<Longrightarrow> hd (decimal n) \<noteq> CHR ''0''"
proof (induction n rule: decimal.induct)
  case (1 n)
  have "digit_char d \<noteq> CHR ''0''" if "0 < d" "d < 10" for d
    using digit_char(2) [of d] that by (auto simp: digit_value_def)
  with 1 show ?case by (subst decimal.simps) (auto simp: div_eq_0_iff)
qed

lemma decimal_single: "n < 10 \<Longrightarrow> decimal n = [digit_char n]"
  by (subst decimal.simps) simp

lemma decimal_tail_zero: "hd (decimal n @ rest) = CHR ''0'' \<Longrightarrow> tl (decimal n @ rest) = rest"
  using decimal_lead [of n] by (cases "n = 0") (auto simp: decimal_single)

lemma string_length:
  assumes "run_state (string g a) s = (Some path, t)" shows "length path < 4096 \<and> t = s"
proof -
  have "wp (string g a) (\<lambda>r t. \<forall>path. r = Some path \<longrightarrow> length path < 4096 \<and> t = s) s"
    unfolding string_def memory_def peek_mem_def
    by (auto simp: wp_simps Let_def word_less_nat_alt split: option.splits dest!: cstring_at_length)
  with assms show ?thesis by (auto dest: wp_run)
qed

text \<open>
  C4. A direct descriptor path in canonical form reaches the guest's own descriptor: if descriptor
  \<open>n\<close> is open in the guest's table the path becomes the loader's path of that descriptor with
  the rest of the path unchanged, and otherwise the request fails with \<^verbatim>\<open>ENOENT\<close>. The
  translated path always fits its buffer.
\<close>
theorem descriptor_path_translated:
  assumes s: "host_inv s" "run_state (string g address) s = (Some (p @ decimal n @ rest), t)"
    and p: "p \<in> set descriptor_prefixes" "rest = [] \<or> hd rest = CHR ''/''" "n < MAX_FDS"
  shows "run_state (path_string_mode g address follow) s =
    (if fds s ! n = int n then (Some (''/proc/self/fd/'' @ decimal n @ rest), s)
     else (None, s\<lparr>errno := ENOENT\<rparr>))"
proof -
  have t: "length (p @ decimal n @ rest) < 4096" "t = s" using string_length [OF s(2)] by auto
  have "8 \<le> length p" using p(1) by (auto simp: descriptor_prefixes_def)
  with t have len: "length (''/proc/self/fd/'' @ decimal n @ rest) < BRIDGE_PATH_SIZE"
    by (simp add: BRIDGE_PATH_SIZE_def PATH_MAX_def)
  have digit: "is_digit (hd (decimal n @ rest))"
    using decimal_digits [of n] by (cases "decimal n") auto
  have sd: "scan_descriptor 0 (decimal n @ rest) = Some (n, rest)"
    using scan_digits [OF decimal_digits slash_not_digit [OF p(2)], of 0 n] p(3)
    by (simp add: digits_value_decimal MAX_FDS_def)
  have zero: "\<not> (hd (decimal n @ rest) = CHR ''0'' \<and> tl (decimal n @ rest) \<noteq> [] \<and>
      is_digit (hd (tl (decimal n @ rest))))"
    using decimal_tail_zero [of n rest] slash_not_digit [OF p(2)] by auto
  have fd: "fds s ! n = -1 \<or> fds s ! n = int n" using s(1) p(3) by (simp add: host_inv_def)
  have "run_state (path_string_mode g address follow) s = run_state (translate_path n rest) s"
    unfolding path_string_mode_def State_Monad.bind_def path_translate_def
      strip_prefix_unique [OF p(1)]
    using s(2) t(2) digit sd zero p(2) by (auto simp: strip_prefix_unique [OF p(1)])
  then show ?thesis using len fd p(3)
    by (auto simp: translate_path_def fd_def State_Monad.bind_def State_Monad.return_def gets_def
        fail_def set_errno_def Let_def)
qed

theorem descriptor_path_translated_witness:
  "run_state (path_string_mode demo_geometry 0x11000 True) (demo_host demo_path) =
     (if fds (demo_host demo_path) ! 1 = int 1
      then (Some (''/proc/self/fd/'' @ decimal 1 @ []), demo_host demo_path)
      else (None, (demo_host demo_path)\<lparr>errno := ENOENT\<rparr>))"
  by (rule descriptor_path_translated [OF demo_host_inv demo_path_string])
    (simp_all add: descriptor_prefixes_def MAX_FDS_def)

end
