(* ===== verification/Bridge_Posix.thy ===== *)
theory Bridge_Posix
  imports Bridge_Abi Bridge_Paths
begin

text \<open>
  The typed adapters of \<^verbatim>\<open>src/src/posix_generated_host.h\<close>, which
  \<^verbatim>\<open>src/scripts/generate-posix.py\<close> generates: each checks and converts the arguments of
  one library function and calls it. The marshalling templates of the generator are the combinators
  \<open>with_fd\<close>, \<open>with_dir\<close>, \<open>with_path\<close> and so on, whose continuation receives the
  checked argument; \<^verbatim>\<open>return -1\<close> is the branch that does not call it. An adapter's
  arguments \<open>a i\<close> are the words of the request; \<open>posix_table\<close> is the
  \<^verbatim>\<open>switch\<close>.
\<close>

type_synonym 'k px = "'k machine os \<Rightarrow> geometry \<Rightarrow> (nat \<Rightarrow> u64) \<Rightarrow> ('k, int) hostm"

subsection \<open>Marshalling\<close>

abbreviation (input) AT_FDCWD :: int where "AT_FDCWD \<equiv> -100"

definition mem_arg :: "u64 option \<Rightarrow> u64 \<Rightarrow> arg" where
  "mem_arg p n = (case p of None \<Rightarrow> Num 0 | Some a \<Rightarrow> Mem a (unat n))"

definition with_fd :: "u64 \<Rightarrow> (int \<Rightarrow> ('k, int) hostm) \<Rightarrow> ('k, int) hostm" where
  "with_fd x f = do { d \<leftarrow> fd (c_int x); if d < 0 then State_Monad.return (-1) else f d }"

definition directory_fd :: "u64 \<Rightarrow> ('k, int) hostm" where
  "directory_fd x = (if c_int x = -2 then State_Monad.return AT_FDCWD else fd (c_int x))"

definition directory_arg :: "int \<Rightarrow> arg" where
  "directory_arg d = (if d = AT_FDCWD then Num d else Fd d)"

definition with_dir :: "u64 \<Rightarrow> (arg \<Rightarrow> ('k, int) hostm) \<Rightarrow> ('k, int) hostm" where
  "with_dir x f = do {
     d \<leftarrow> directory_fd x;
     if d < 0 \<and> d \<noteq> AT_FDCWD then State_Monad.return (-1) else f (directory_arg d)
   }"

definition with_path :: "geometry \<Rightarrow> u64 \<Rightarrow> bool \<Rightarrow> (string \<Rightarrow> ('k, int) hostm) \<Rightarrow> ('k, int) hostm" where
  "with_path h x follow f = do {
     p \<leftarrow> path_string_mode h x follow;
     case p of None \<Rightarrow> State_Monad.return (-1) | Some path \<Rightarrow> f path
   }"

definition with_opt_path :: "geometry \<Rightarrow> u64 \<Rightarrow> bool \<Rightarrow> (arg \<Rightarrow> ('k, int) hostm) \<Rightarrow> ('k, int) hostm" where
  "with_opt_path h x follow f =
     (if x \<noteq> 0 then with_path h x follow (\<lambda>path. f (Str path)) else f (Num 0))"

definition with_string :: "geometry \<Rightarrow> u64 \<Rightarrow> (string \<Rightarrow> ('k, int) hostm) \<Rightarrow> ('k, int) hostm" where
  "with_string h x f = do {
     p \<leftarrow> string h x;
     case p of None \<Rightarrow> State_Monad.return (-1) | Some str \<Rightarrow> f str
   }"

definition with_opt_string :: "geometry \<Rightarrow> u64 \<Rightarrow> (arg \<Rightarrow> ('k, int) hostm) \<Rightarrow> ('k, int) hostm" where
  "with_opt_string h x f = (if x \<noteq> 0 then with_string h x (\<lambda>str. f (Str str)) else f (Num 0))"

definition with_bytes :: "geometry \<Rightarrow> u64 \<Rightarrow> u64 \<Rightarrow> (arg \<Rightarrow> ('k, int) hostm) \<Rightarrow> ('k, int) hostm" where
  "with_bytes h x n f = do {
     p \<leftarrow> memory h x n;
     if p = None \<and> n \<noteq> 0 then State_Monad.return (-1) else f (mem_arg p n)
   }"

definition with_opt :: "geometry \<Rightarrow> u64 \<Rightarrow> u64 \<Rightarrow> (arg \<Rightarrow> ('k, int) hostm) \<Rightarrow> ('k, int) hostm" where
  "with_opt h x n f =
     (if x \<noteq> 0 then do {
        p \<leftarrow> memory h x n;
        if p = None then State_Monad.return (-1) else f (mem_arg p n)
      } else f (Num 0))"

definition with_clock :: "u64 \<Rightarrow> (int \<Rightarrow> ('k, int) hostm) \<Rightarrow> ('k, int) hostm" where
  "with_clock x f = (let clock = native_clock (c_uint x) in if clock < 0 then fail EINVAL else f clock)"

definition with_flags :: "u64 \<Rightarrow> (int \<Rightarrow> ('k, int) hostm) \<Rightarrow> ('k, int) hostm" where
  "with_flags x f = do { flags \<leftarrow> at_flags x; f flags }"

definition with_at_flags :: "u64 \<Rightarrow> (int \<Rightarrow> ('k, int) hostm) \<Rightarrow> ('k, int) hostm" where
  "with_at_flags x f = do { flags \<leftarrow> at_flags x; if flags < 0 then State_Monad.return (-1) else f flags }"

text \<open>The endings for functions that return a new descriptor, and for those that return an error number.\<close>

definition adopt_call :: "'k machine os \<Rightarrow> string \<Rightarrow> arg list \<Rightarrow> ('k, int) hostm" where
  "adopt_call os nm args = do { real \<leftarrow> calli os nm args; save_fd os real 0 }"

definition error_call :: "'k machine os \<Rightarrow> string \<Rightarrow> arg list \<Rightarrow> ('k, int) hostm" where
  "error_call os nm args = do {
     error \<leftarrow> calli os nm args;
     if error \<noteq> 0 then fail error else State_Monad.return 0
   }"

subsection \<open>The adapters\<close>

definition px_chown :: "'k px" where
  "px_chown os h a = with_path h (a 0) True (\<lambda>path.
     calli os ''chown'' [Str path, Num (c_uint (a 1)), Num (c_uint (a 2))])"

definition px_lchown :: "'k px" where
  "px_lchown os h a = with_path h (a 0) False (\<lambda>path.
     calli os ''lchown'' [Str path, Num (c_uint (a 1)), Num (c_uint (a 2))])"

definition px_fchown :: "'k px" where
  "px_fchown os h a = with_fd (a 0) (\<lambda>descriptor.
     calli os ''fchown'' [Fd descriptor, Num (c_uint (a 1)), Num (c_uint (a 2))])"

definition px_truncate :: "'k px" where
  "px_truncate os h a = with_path h (a 0) True (\<lambda>path.
     calli os ''truncate'' [Str path, Num (sint (a 1))])"

definition px_ftruncate :: "'k px" where
  "px_ftruncate os h a = with_fd (a 0) (\<lambda>descriptor.
     calli os ''ftruncate'' [Fd descriptor, Num (sint (a 1))])"

definition px_pread :: "'k px" where
  "px_pread os h a = with_fd (a 0) (\<lambda>descriptor. with_bytes h (a 1) (a 2) (\<lambda>buffer.
     calli os ''pread'' [Fd descriptor, buffer, Num (uint (a 2)), Num (sint (a 3))]))"

definition px_pwrite :: "'k px" where
  "px_pwrite os h a = with_fd (a 0) (\<lambda>descriptor. with_bytes h (a 1) (a 2) (\<lambda>buffer.
     calli os ''pwrite'' [Fd descriptor, buffer, Num (uint (a 2)), Num (sint (a 3))]))"

definition px_readlinkat :: "'k px" where
  "px_readlinkat os h a = with_dir (a 0) (\<lambda>directory.
     with_path h (a 1) False (\<lambda>path. with_bytes h (a 2) (a 3) (\<lambda>buffer.
     calli os ''readlinkat'' [directory, Str path, buffer, Num (uint (a 3))])))"

definition px_unlinkat :: "'k px" where
  "px_unlinkat os h a = with_dir (a 0) (\<lambda>directory. with_path h (a 1) False (\<lambda>path.
     with_at_flags (a 2) (\<lambda>flags. calli os ''unlinkat'' [directory, Str path, Num flags])))"

definition px_flock :: "'k px" where
  "px_flock os h a = with_fd (a 0) (\<lambda>descriptor.
     calli os ''flock'' [Fd descriptor, Num (c_int (a 1))])"

definition px_posix_fallocate :: "'k px" where
  "px_posix_fallocate os h a = with_fd (a 0) (\<lambda>descriptor.
     error_call os ''posix_fallocate'' [Fd descriptor, Num (sint (a 1)), Num (sint (a 2))])"

definition px_mknod :: "'k px" where
  "px_mknod os h a = with_path h (a 0) False (\<lambda>path.
     calli os ''mknod'' [Str path, Num (c_uint (a 1)), Num (uint (a 2))])"

definition px_futimens :: "'k px" where
  "px_futimens os h a = with_fd (a 0) (\<lambda>descriptor. with_opt h (a 1) 32 (\<lambda>times.
     calli os ''futimens'' [Fd descriptor, times]))"

definition px_getsid :: "'k px" where
  "px_getsid os h a = calli os ''getsid'' [Num (c_int (a 0))]"

definition px_getpriority :: "'k px" where
  "px_getpriority os h a = calli os ''getpriority'' [Num (c_int (a 0)), Num (c_uint (a 1))]"

definition px_setpriority :: "'k px" where
  "px_setpriority os h a =
     calli os ''setpriority'' [Num (c_int (a 0)), Num (c_uint (a 1)), Num (c_int (a 2))]"

definition px_sethostname :: "'k px" where
  "px_sethostname os h a = with_bytes h (a 0) (a 1) (\<lambda>name.
     calli os ''sethostname'' [name, Num (uint (a 1))])"

definition px_gethostid :: "'k px" where
  "px_gethostid os h a = calli os ''gethostid'' []"

definition px_sched_get_priority_max :: "'k px" where
  "px_sched_get_priority_max os h a = calli os ''sched_get_priority_max'' [Num (c_int (a 0))]"

definition px_sched_get_priority_min :: "'k px" where
  "px_sched_get_priority_min os h a = calli os ''sched_get_priority_min'' [Num (c_int (a 0))]"

definition px_sched_getaffinity :: "'k px" where
  "px_sched_getaffinity os h a = with_bytes h (a 2) (a 1) (\<lambda>mask.
     calli os ''sched_getaffinity'' [Num (c_int (a 0)), Num (uint (a 1)), mask])"

definition px_sched_setaffinity :: "'k px" where
  "px_sched_setaffinity os h a = with_bytes h (a 2) (a 1) (\<lambda>mask.
     calli os ''sched_setaffinity'' [Num (c_int (a 0)), Num (uint (a 1)), mask])"

definition px_socket :: "'k px" where
  "px_socket os h a =
     adopt_call os ''socket'' [Num (c_int (a 0)), Num (c_int (a 1)), Num (c_int (a 2))]"

definition px_bind :: "'k px" where
  "px_bind os h a = with_fd (a 0) (\<lambda>descriptor.
     with_bytes h (a 1) (ucast (ucast (a 2) :: u32)) (\<lambda>address.
     calli os ''bind'' [Fd descriptor, address, Num (c_uint (a 2))]))"

definition px_connect :: "'k px" where
  "px_connect os h a = with_fd (a 0) (\<lambda>descriptor.
     with_bytes h (a 1) (ucast (ucast (a 2) :: u32)) (\<lambda>address.
     calli os ''connect'' [Fd descriptor, address, Num (c_uint (a 2))]))"

definition px_listen :: "'k px" where
  "px_listen os h a = with_fd (a 0) (\<lambda>descriptor.
     calli os ''listen'' [Fd descriptor, Num (c_int (a 1))])"

definition px_shutdown :: "'k px" where
  "px_shutdown os h a = with_fd (a 0) (\<lambda>descriptor.
     calli os ''shutdown'' [Fd descriptor, Num (c_int (a 1))])"

definition px_send :: "'k px" where
  "px_send os h a = with_fd (a 0) (\<lambda>descriptor. with_bytes h (a 1) (a 2) (\<lambda>buffer.
     calli os ''send'' [Fd descriptor, buffer, Num (uint (a 2)), Num (c_int (a 3))]))"

definition px_recv :: "'k px" where
  "px_recv os h a = with_fd (a 0) (\<lambda>descriptor. with_bytes h (a 1) (a 2) (\<lambda>buffer.
     calli os ''recv'' [Fd descriptor, buffer, Num (uint (a 2)), Num (c_int (a 3))]))"

definition px_sendto :: "'k px" where
  "px_sendto os h a = with_fd (a 0) (\<lambda>descriptor. with_bytes h (a 1) (a 2) (\<lambda>buffer.
     with_opt h (a 4) (ucast (ucast (a 5) :: u32)) (\<lambda>address.
     calli os ''sendto'' [Fd descriptor, buffer, Num (uint (a 2)), Num (c_int (a 3)), address, Num (c_uint (a 5))])))"

definition px_getrandom :: "'k px" where
  "px_getrandom os h a = with_bytes h (a 0) (a 1) (\<lambda>buffer.
     calli os ''getrandom'' [buffer, Num (uint (a 1)), Num (c_uint (a 2))])"

definition px_inotify_init1 :: "'k px" where
  "px_inotify_init1 os h a = adopt_call os ''inotify_init1'' [Num (uint (open_flags (ucast (a 0))))]"

definition px_inotify_add_watch :: "'k px" where
  "px_inotify_add_watch os h a = with_fd (a 0) (\<lambda>descriptor.
     with_path h (a 1) True (\<lambda>path.
     calli os ''inotify_add_watch'' [Fd descriptor, Str path, Num (c_uint (a 2))]))"

definition px_inotify_rm_watch :: "'k px" where
  "px_inotify_rm_watch os h a = with_fd (a 0) (\<lambda>descriptor.
     calli os ''inotify_rm_watch'' [Fd descriptor, Num (c_int (a 1))])"

definition px_posix_openpt :: "'k px" where
  "px_posix_openpt os h a = adopt_call os ''posix_openpt'' [Num (uint (open_flags (ucast (a 0))))]"

definition px_grantpt :: "'k px" where
  "px_grantpt os h a = with_fd (a 0) (\<lambda>descriptor. calli os ''grantpt'' [Fd descriptor])"

definition px_unlockpt :: "'k px" where
  "px_unlockpt os h a = with_fd (a 0) (\<lambda>descriptor. calli os ''unlockpt'' [Fd descriptor])"

definition px_ptsname_r :: "'k px" where
  "px_ptsname_r os h a = with_fd (a 0) (\<lambda>descriptor.
     with_bytes h (a 1) (a 2) (\<lambda>buffer.
     error_call os ''ptsname_r'' [Fd descriptor, buffer, Num (uint (a 2))]))"

definition px_ttyname_r :: "'k px" where
  "px_ttyname_r os h a = with_fd (a 0) (\<lambda>descriptor.
     with_bytes h (a 1) (a 2) (\<lambda>buffer.
     error_call os ''ttyname_r'' [Fd descriptor, buffer, Num (uint (a 2))]))"

definition px_tcflow :: "'k px" where
  "px_tcflow os h a = with_fd (a 0) (\<lambda>descriptor.
     calli os ''tcflow'' [Fd descriptor, Num (c_int (a 1))])"

definition px_shm_unlink :: "'k px" where
  "px_shm_unlink os h a = with_string h (a 0) (\<lambda>name. calli os ''shm_unlink'' [Str name])"

definition px_clock_settime :: "'k px" where
  "px_clock_settime os h a = with_clock (a 0) (\<lambda>clock.
     with_bytes h (a 1) 16 (\<lambda>value. calli os ''clock_settime'' [Num clock, value]))"

definition px_reboot :: "'k px" where
  "px_reboot os h a = calli os ''reboot'' [Num (c_int (a 0))]"

definition px_swapon :: "'k px" where
  "px_swapon os h a = with_path h (a 0) True (\<lambda>path.
     calli os ''swapon'' [Str path, Num (c_int (a 1))])"

definition px_swapoff :: "'k px" where
  "px_swapoff os h a = with_path h (a 0) True (\<lambda>path. calli os ''swapoff'' [Str path])"

definition px_umount2 :: "'k px" where
  "px_umount2 os h a = with_path h (a 0) True (\<lambda>path.
     calli os ''umount2'' [Str path, Num (c_int (a 1))])"

definition px_setns :: "'k px" where
  "px_setns os h a = with_fd (a 0) (\<lambda>descriptor.
     calli os ''setns'' [Fd descriptor, Num (c_int (a 1))])"

definition px_unshare :: "'k px" where
  "px_unshare os h a = calli os ''unshare'' [Num (c_int (a 0))]"

definition px_rename :: "'k px" where
  "px_rename os h a = with_path h (a 0) False (\<lambda>old. with_path h (a 1) False (\<lambda>new.
     calli os ''rename'' [Str old, Str new]))"

definition px_memfd_create :: "'k px" where
  "px_memfd_create os h a = with_string h (a 0) (\<lambda>name.
     adopt_call os ''memfd_create'' [Str name, Num (c_uint (a 1))])"

definition px_shm_open :: "'k px" where
  "px_shm_open os h a = with_string h (a 0) (\<lambda>name.
     adopt_call os ''shm_open'' [Str name, Num (uint (open_flags (ucast (a 1)))), Num (c_uint (a 2))])"

definition px_mount :: "'k px" where
  "px_mount os h a = with_opt_path h (a 0) True (\<lambda>source.
     with_path h (a 1) True (\<lambda>target. with_opt_string h (a 2) (\<lambda>type.
     with_opt_string h (a 4) (\<lambda>data.
     calli os ''mount'' [source, Str target, type, Num (uint (a 3)), data]))))"

definition px_initgroups :: "'k px" where
  "px_initgroups os h a = with_string h (a 0) (\<lambda>user.
     calli os ''initgroups'' [Str user, Num (c_uint (a 1))])"

definition px_setgroups :: "'k px" where
  "px_setgroups os h a = with_bytes h (a 1) (scast (ucast (a 0) :: u32) * 4) (\<lambda>groups.
     calli os ''setgroups'' [Num (c_int (a 0)), groups])"

definition px_setuid :: "'k px" where
  "px_setuid os h a = calli os ''setuid'' [Num (c_uint (a 0))]"

definition px_setgid :: "'k px" where
  "px_setgid os h a = calli os ''setgid'' [Num (c_uint (a 0))]"

definition px_setresuid :: "'k px" where
  "px_setresuid os h a =
     calli os ''setresuid'' [Num (c_uint (a 0)), Num (c_uint (a 1)), Num (c_uint (a 2))]"

definition px_setresgid :: "'k px" where
  "px_setresgid os h a =
     calli os ''setresgid'' [Num (c_uint (a 0)), Num (c_uint (a 1)), Num (c_uint (a 2))]"

definition px_epoll_create1 :: "'k px" where
  "px_epoll_create1 os h a = adopt_call os ''epoll_create1'' [Num (uint (open_flags (ucast (a 0))))]"

definition px_sched_yield :: "'k px" where
  "px_sched_yield os h a = calli os ''sched_yield'' []"

definition px_pause :: "'k px" where
  "px_pause os h a = calli os ''pause'' []"

definition px_mlock :: "'k px" where
  "px_mlock os h a = with_bytes h (a 0) (a 1) (\<lambda>address.
     calli os ''mlock'' [address, Num (uint (a 1))])"

definition px_munlock :: "'k px" where
  "px_munlock os h a = with_bytes h (a 0) (a 1) (\<lambda>address.
     calli os ''munlock'' [address, Num (uint (a 1))])"

definition px_mlockall :: "'k px" where
  "px_mlockall os h a = calli os ''mlockall'' [Num (c_int (a 0))]"

definition px_munlockall :: "'k px" where
  "px_munlockall os h a = calli os ''munlockall'' []"

definition px_msgget :: "'k px" where
  "px_msgget os h a = calli os ''msgget'' [Num (c_int (a 0)), Num (c_int (a 1))]"

definition px_shmget :: "'k px" where
  "px_shmget os h a = calli os ''shmget'' [Num (c_int (a 0)), Num (uint (a 1)), Num (c_int (a 2))]"

definition px_semget :: "'k px" where
  "px_semget os h a = calli os ''semget'' [Num (c_int (a 0)), Num (c_int (a 1)), Num (c_int (a 2))]"

definition px_chroot :: "'k px" where
  "px_chroot os h a = with_path h (a 0) True (\<lambda>path. calli os ''chroot'' [Str path])"

definition px_utimensat :: "'k px" where
  "px_utimensat os h a = with_dir (a 0) (\<lambda>directory. with_flags (a 3) (\<lambda>at.
     with_path h (a 1) (\<not> int_flag at AT_SYMLINK_NOFOLLOW) (\<lambda>path.
     with_opt h (a 2) 32 (\<lambda>times. with_at_flags (a 3) (\<lambda>flags.
     calli os ''utimensat'' [directory, Str path, times, Num flags])))))"

definition px_clock_getres :: "'k px" where
  "px_clock_getres os h a = with_clock (a 0) (\<lambda>clock. with_opt h (a 1) 16 (\<lambda>value.
     calli os ''clock_getres'' [Num clock, value]))"

definition px_times :: "'k px" where
  "px_times os h a = with_opt h (a 0) 32 (\<lambda>value. calli os ''times'' [value])"

definition px_faccessat :: "'k px" where
  "px_faccessat os h a = with_dir (a 0) (\<lambda>directory. with_flags (a 3) (\<lambda>at.
     with_path h (a 1) (\<not> int_flag at AT_SYMLINK_NOFOLLOW) (\<lambda>path.
     with_at_flags (a 3) (\<lambda>flags.
     calli os ''faccessat'' [directory, Str path, Num (c_int (a 2)), Num flags]))))"

definition px_getxattr :: "'k px" where
  "px_getxattr os h a = with_path h (a 0) True (\<lambda>path. with_string h (a 1) (\<lambda>name.
     with_opt h (a 2) (a 3) (\<lambda>value.
     calli os ''getxattr'' [Str path, Str name, value, Num (uint (a 3))])))"

definition px_setxattr :: "'k px" where
  "px_setxattr os h a = with_path h (a 0) True (\<lambda>path. with_string h (a 1) (\<lambda>name.
     with_opt h (a 2) (a 3) (\<lambda>value.
     calli os ''setxattr'' [Str path, Str name, value, Num (uint (a 3)), Num (c_int (a 4))])))"

definition px_listxattr :: "'k px" where
  "px_listxattr os h a = with_path h (a 0) True (\<lambda>path.
     with_opt h (a 1) (a 2) (\<lambda>list.
     calli os ''listxattr'' [Str path, list, Num (uint (a 2))]))"

definition px_removexattr :: "'k px" where
  "px_removexattr os h a = with_path h (a 0) True (\<lambda>path.
     with_string h (a 1) (\<lambda>name. calli os ''removexattr'' [Str path, Str name]))"

definition px_lgetxattr :: "'k px" where
  "px_lgetxattr os h a = with_path h (a 0) False (\<lambda>path. with_string h (a 1) (\<lambda>name.
     with_opt h (a 2) (a 3) (\<lambda>value.
     calli os ''lgetxattr'' [Str path, Str name, value, Num (uint (a 3))])))"

definition px_lsetxattr :: "'k px" where
  "px_lsetxattr os h a = with_path h (a 0) False (\<lambda>path. with_string h (a 1) (\<lambda>name.
     with_opt h (a 2) (a 3) (\<lambda>value.
     calli os ''lsetxattr'' [Str path, Str name, value, Num (uint (a 3)), Num (c_int (a 4))])))"

definition px_llistxattr :: "'k px" where
  "px_llistxattr os h a = with_path h (a 0) False (\<lambda>path.
     with_opt h (a 1) (a 2) (\<lambda>list.
     calli os ''llistxattr'' [Str path, list, Num (uint (a 2))]))"

definition px_lremovexattr :: "'k px" where
  "px_lremovexattr os h a = with_path h (a 0) False (\<lambda>path.
     with_string h (a 1) (\<lambda>name. calli os ''lremovexattr'' [Str path, Str name]))"

definition px_fgetxattr :: "'k px" where
  "px_fgetxattr os h a = with_fd (a 0) (\<lambda>descriptor. with_string h (a 1) (\<lambda>name.
     with_opt h (a 2) (a 3) (\<lambda>value.
     calli os ''fgetxattr'' [Fd descriptor, Str name, value, Num (uint (a 3))])))"

definition px_fsetxattr :: "'k px" where
  "px_fsetxattr os h a = with_fd (a 0) (\<lambda>descriptor. with_string h (a 1) (\<lambda>name.
     with_opt h (a 2) (a 3) (\<lambda>value.
     calli os ''fsetxattr'' [Fd descriptor, Str name, value, Num (uint (a 3)), Num (c_int (a 4))])))"

definition px_flistxattr :: "'k px" where
  "px_flistxattr os h a = with_fd (a 0) (\<lambda>descriptor. with_opt h (a 1) (a 2) (\<lambda>list.
     calli os ''flistxattr'' [Fd descriptor, list, Num (uint (a 2))]))"

definition px_fremovexattr :: "'k px" where
  "px_fremovexattr os h a = with_fd (a 0) (\<lambda>descriptor. with_string h (a 1) (\<lambda>name.
     calli os ''fremovexattr'' [Fd descriptor, Str name]))"

definition px_renameat :: "'k px" where
  "px_renameat os h a = with_dir (a 0) (\<lambda>old_directory.
     with_path h (a 1) False (\<lambda>old_path. with_dir (a 2) (\<lambda>new_directory.
     with_path h (a 3) False (\<lambda>new_path.
     calli os ''renameat'' [old_directory, Str old_path, new_directory, Str new_path]))))"

definition px_copy_file_range :: "'k px" where
  "px_copy_file_range os h a = with_fd (a 0) (\<lambda>input.
     with_opt h (a 1) 8 (\<lambda>input_offset. with_fd (a 2) (\<lambda>output.
     with_opt h (a 3) 8 (\<lambda>output_offset.
     calli os ''copy_file_range'' [Fd input, input_offset, Fd output, output_offset, Num (uint (a 4)), Num (c_uint (a 5))]))))"

definition px_mq_unlink :: "'k px" where
  "px_mq_unlink os h a = with_string h (a 0) (\<lambda>name. calli os ''mq_unlink'' [Str name])"

definition px_mq_open :: "'k px" where
  "px_mq_open os h a = with_string h (a 0) (\<lambda>name. with_opt h (a 3) 64 (\<lambda>attributes.
     adopt_call os ''mq_open'' [Str name, Num (uint (open_flags (ucast (a 1)))), Num (c_uint (a 2)), attributes]))"

definition px_linkat :: "'k px" where
  "px_linkat os h a = with_dir (a 0) (\<lambda>old_directory. with_flags (a 4) (\<lambda>at.
     with_path h (a 1) (int_flag at AT_SYMLINK_FOLLOW) (\<lambda>old_path.
     with_dir (a 2) (\<lambda>new_directory. with_path h (a 3) False (\<lambda>new_path.
     with_at_flags (a 4) (\<lambda>flags.
     calli os ''linkat'' [old_directory, Str old_path, new_directory, Str new_path, Num flags]))))))"

definition px_statfs :: "'k px" where
  "px_statfs os h a = with_path h (a 0) True (\<lambda>path. with_bytes h (a 1) 120 (\<lambda>out.
     calli os ''statfs'' [Str path, out]))"

definition px_mkfifoat :: "'k px" where
  "px_mkfifoat os h a = with_dir (a 0) (\<lambda>directory. with_path h (a 1) False (\<lambda>path.
     calli os ''mkfifoat'' [directory, Str path, Num (c_uint (a 2))]))"

definition px_mkdirat :: "'k px" where
  "px_mkdirat os h a = with_dir (a 0) (\<lambda>directory. with_path h (a 1) False (\<lambda>path.
     calli os ''mkdirat'' [directory, Str path, Num (c_uint (a 2))]))"

definition px_symlinkat :: "'k px" where
  "px_symlinkat os h a = with_string h (a 0) (\<lambda>target. with_dir (a 1) (\<lambda>directory.
     with_path h (a 2) False (\<lambda>path.
     calli os ''symlinkat'' [Str target, directory, Str path])))"

subsection \<open>The switch\<close>

definition posix_table :: "(u64 \<times> 'k px) list" where
  "posix_table =
    [(1, px_chown), (2, px_lchown), (3, px_fchown), (4, px_truncate), (5, px_ftruncate),
     (6, px_pread), (7, px_pwrite), (8, px_readlinkat), (9, px_unlinkat), (10, px_flock),
     (11, px_posix_fallocate), (12, px_mknod), (14, px_futimens), (15, px_getsid),
     (16, px_getpriority), (17, px_setpriority), (18, px_sethostname), (19, px_gethostid),
     (20, px_sched_get_priority_max), (21, px_sched_get_priority_min), (22, px_sched_getaffinity),
     (23, px_sched_setaffinity), (24, px_socket), (25, px_bind), (26, px_connect),
     (27, px_listen), (28, px_shutdown), (29, px_send), (30, px_recv), (31, px_sendto),
     (33, px_getrandom), (34, px_inotify_init1), (35, px_inotify_add_watch),
     (36, px_inotify_rm_watch), (37, px_posix_openpt), (38, px_grantpt), (39, px_unlockpt),
     (40, px_ptsname_r), (41, px_ttyname_r), (42, px_tcflow), (43, px_shm_unlink),
     (44, px_clock_settime), (46, px_reboot), (47, px_swapon), (48, px_swapoff), (49, px_umount2),
     (50, px_setns), (51, px_unshare), (52, px_rename), (53, px_memfd_create), (54, px_shm_open),
     (55, px_mount), (56, px_initgroups), (57, px_setgroups), (58, px_setuid), (59, px_setgid),
     (60, px_setresuid), (61, px_setresgid), (65, px_epoll_create1), (68, px_sched_yield),
     (69, px_pause), (70, px_mlock), (71, px_munlock), (72, px_mlockall), (73, px_munlockall),
     (74, px_msgget), (75, px_shmget), (76, px_semget), (77, px_chroot), (78, px_utimensat),
     (79, px_clock_getres), (80, px_times), (81, px_faccessat), (82, px_getxattr),
     (83, px_setxattr), (84, px_listxattr), (85, px_removexattr), (86, px_lgetxattr),
     (87, px_lsetxattr), (88, px_llistxattr), (89, px_lremovexattr), (90, px_fgetxattr),
     (91, px_fsetxattr), (92, px_flistxattr), (93, px_fremovexattr), (94, px_renameat),
     (95, px_copy_file_range), (96, px_mq_unlink), (97, px_mq_open), (98, px_linkat),
     (99, px_statfs), (100, px_mkfifoat), (101, px_mkdirat), (102, px_symlinkat)]"

subsection \<open>Confinement\<close>

lemma arg_safe_mem_arg [simp]:
  "arg_safe g (mem_arg p n) \<longleftrightarrow> (case p of None \<Rightarrow> True | Some a \<Rightarrow> range_ok g a (unat n))"
  by (simp add: mem_arg_def split: option.splits)

lemma safe_directory_fd:
  "safe g (directory_fd x) (\<lambda>d. d < 0 \<or> d < int MAX_FDS)"
  unfolding directory_fd_def by (auto intro!: safe_rules safe_mono [OF safe_fd])

lemma safe_bind_directory_fd [safe_rules]:
  "(\<And>d. d < 0 \<or> d < int MAX_FDS \<Longrightarrow> safe g (f d) Q) \<Longrightarrow> safe g (State_Monad.bind (directory_fd x) f) Q"
  by (rule safe_bindI [OF safe_directory_fd])

lemma arg_safe_directory [simp]:
  "arg_safe g (directory_arg d) \<longleftrightarrow> d = AT_FDCWD \<or> 0 \<le> d \<and> d < int MAX_FDS"
  by (simp add: directory_arg_def)

lemma safe_with [safe_rules]:
  "(\<And>d. 0 \<le> d \<Longrightarrow> d < int MAX_FDS \<Longrightarrow> safe g (f d) Q) \<Longrightarrow> Q (-1) \<Longrightarrow> safe g (with_fd x f) Q"
  "(\<And>d. arg_safe g d \<Longrightarrow> safe g (fa d) Q) \<Longrightarrow> Q (-1) \<Longrightarrow> safe g (with_dir x fa) Q"
  "geometry_ok g \<Longrightarrow> (\<And>p. safe g (fs p) Q) \<Longrightarrow> Q (-1) \<Longrightarrow> safe g (with_path g x follow fs) Q"
  "geometry_ok g \<Longrightarrow> (\<And>p. safe g (fs p) Q) \<Longrightarrow> Q (-1) \<Longrightarrow> safe g (with_string g x fs) Q"
  "geometry_ok g \<Longrightarrow> (\<And>p. arg_safe g p \<Longrightarrow> safe g (fa p) Q) \<Longrightarrow> Q (-1) \<Longrightarrow> safe g (with_bytes g x n fa) Q"
  "geometry_ok g \<Longrightarrow> (\<And>p. arg_safe g p \<Longrightarrow> safe g (fa p) Q) \<Longrightarrow> Q (-1) \<Longrightarrow> safe g (with_opt g x n fa) Q"
  "(\<And>c. safe g (f c) Q) \<Longrightarrow> Q (-1) \<Longrightarrow> safe g (with_clock x f) Q"
  "(\<And>c. safe g (f c) Q) \<Longrightarrow> safe g (with_flags x f) Q"
  "(\<And>c. safe g (f c) Q) \<Longrightarrow> Q (-1) \<Longrightarrow> safe g (with_at_flags x f) Q"
  unfolding with_fd_def with_dir_def with_path_def with_string_def with_bytes_def with_opt_def
    with_clock_def with_flags_def with_at_flags_def
  by (intro safe_rules; auto)+

lemma safe_with_opt_path [safe_rules]:
  "geometry_ok g \<Longrightarrow> (\<And>p. arg_safe g p \<Longrightarrow> safe g (f p) Q) \<Longrightarrow> Q (-1) \<Longrightarrow> safe g (with_opt_path g x follow f) Q"
  "geometry_ok g \<Longrightarrow> (\<And>p. arg_safe g p \<Longrightarrow> safe g (f p) Q) \<Longrightarrow> Q (-1) \<Longrightarrow> safe g (with_opt_string g x f) Q"
  unfolding with_opt_path_def with_opt_string_def by (intro safe_rules; auto)+

lemma safe_adopt_call [safe_rules]:
  "os_ok g os \<Longrightarrow> list_all (arg_safe g) args \<Longrightarrow> (\<And>r. Q r) \<Longrightarrow> safe g (adopt_call os nm args) Q"
  "os_ok g os \<Longrightarrow> list_all (arg_safe g) args \<Longrightarrow> (\<And>r. Q r) \<Longrightarrow> safe g (error_call os nm args) Q"
  unfolding adopt_call_def error_call_def by (intro safe_rules; auto)+

lemmas px_defs =
  px_chown_def px_lchown_def px_fchown_def px_truncate_def px_ftruncate_def px_pread_def
  px_pwrite_def px_readlinkat_def px_unlinkat_def px_flock_def px_posix_fallocate_def
  px_mknod_def px_futimens_def px_getsid_def px_getpriority_def px_setpriority_def
  px_sethostname_def px_gethostid_def px_sched_get_priority_max_def
  px_sched_get_priority_min_def px_sched_getaffinity_def px_sched_setaffinity_def px_socket_def
  px_bind_def px_connect_def px_listen_def px_shutdown_def px_send_def px_recv_def px_sendto_def
  px_getrandom_def px_inotify_init1_def px_inotify_add_watch_def px_inotify_rm_watch_def
  px_posix_openpt_def px_grantpt_def px_unlockpt_def px_ptsname_r_def px_ttyname_r_def
  px_tcflow_def px_shm_unlink_def px_clock_settime_def px_reboot_def px_swapon_def
  px_swapoff_def px_umount2_def px_setns_def px_unshare_def px_rename_def px_memfd_create_def
  px_shm_open_def px_mount_def px_initgroups_def px_setgroups_def px_setuid_def px_setgid_def
  px_setresuid_def px_setresgid_def px_epoll_create1_def px_sched_yield_def px_pause_def
  px_mlock_def px_munlock_def px_mlockall_def px_munlockall_def px_msgget_def px_shmget_def
  px_semget_def px_chroot_def px_utimensat_def px_clock_getres_def px_times_def px_faccessat_def
  px_getxattr_def px_setxattr_def px_listxattr_def px_removexattr_def px_lgetxattr_def
  px_lsetxattr_def px_llistxattr_def px_lremovexattr_def px_fgetxattr_def px_fsetxattr_def
  px_flistxattr_def px_fremovexattr_def px_renameat_def px_copy_file_range_def px_mq_unlink_def
  px_mq_open_def px_linkat_def px_statfs_def px_mkfifoat_def px_mkdirat_def px_symlinkat_def

lemma posix_table_safe:
  assumes "os_ok g os" "geometry_ok g"
  shows "list_all (\<lambda>e. safe g (snd e os g a) (\<lambda>_. True)) posix_table"
  unfolding posix_table_def list.pred_inject snd_conv px_defs
  using assms by (intro conjI safe_rules TrueI) simp_all

end
