(* ===== verification/Bridge_Signals.thy ===== *)
theory Bridge_Signals
  imports Bridge_Abi
begin

text \<open>
  Signals between the native process and the guest (\<^verbatim>\<open>src/src/signal_host.h\<close>) and the
  poll service built on them (\<^verbatim>\<open>src/src/poll_host.h\<close>). A \<^verbatim>\<open>sigset_t\<close> is a set of
  signal numbers; the sets passed to a call are their members in ascending order. Signals are
  delivered while a native call is made: the world's \<open>recorded\<close> flags may grow there. The
  instruction-level race between the queue check and the entry of a transfer is in
  \<open>Signal_Io\<close>.
\<close>

subsection \<open>Numbers and masks\<close>

definition native_signal :: "int \<Rightarrow> int" where
  "native_signal number = (if number \<ge> 0 \<and> number \<le> 64 then number else -1)"

definition guest_signal :: "int \<Rightarrow> int" where
  "guest_signal number = (if number \<ge> 0 \<and> number \<le> 64 then number else 0)"

definition bridge_signal_number :: "u64 \<Rightarrow> int" where
  "bridge_signal_number v = (if v \<le> 64 then native_signal (c_int v) else -1)"

definition unpack_signal_mask :: "nat set \<Rightarrow> u64 \<Rightarrow> nat set" where
  "unpack_signal_mask libc packed =
     fold (\<lambda>i s. if native_signal (int i) > 0 \<and> bit packed (i - 1) \<and> nat (native_signal (int i)) \<in> libc
                 then insert (nat (native_signal (int i))) s else s) [1..<65] {}"

definition pack_signal_mask :: "nat set \<Rightarrow> u64" where
  "pack_signal_mask s =
     fold (\<lambda>i packed. if native_signal (int i) > 0 \<and> nat (native_signal (int i)) \<in> s
                      then set_bit (i - 1) packed else packed) [1..<65] 0"

definition all_signals :: "nat set" where "all_signals = {1..64}"

definition sigset_arg :: "nat set \<Rightarrow> arg" where
  "sigset_arg s = Nums (map int (filter (\<lambda>i. i \<in> s) [1..<65]))"

definition sigset_of :: "osret \<Rightarrow> nat set" where
  "sigset_of r = set (map nat (nums r))"

abbreviation (input) SIG_BLOCK :: int where "SIG_BLOCK \<equiv> 0"
abbreviation (input) SIG_UNBLOCK :: int where "SIG_UNBLOCK \<equiv> 1"
abbreviation (input) SIG_SETMASK :: int where "SIG_SETMASK \<equiv> 2"

subsection \<open>The signal queue\<close>

text \<open>
  The handler, on the loader's memory: \<^verbatim>\<open>interrupt_signal_io\<close> also redirects the
  interrupted program counter, which is in \<open>Signal_Io\<close>.
\<close>

definition record_signal :: "int \<Rightarrow> 'k machine \<Rightarrow> 'k machine" where
  "record_signal number m =
     (let guest = guest_signal number in
      if guest \<noteq> 0 then
        let m = m\<lparr>recorded := insert (nat guest) (recorded m)\<rparr> in
        if io_active m then m\<lparr>io_interrupted := True\<rparr> else m
      else m)"

definition publish_one :: "nat \<Rightarrow> 'k host \<Rightarrow> 'k host" where
  "publish_one i s =
     (if i \<in> recorded (world s) then
        s\<lparr>mailbox_pending := mailbox_pending s OR push_bit (i - 1) 1,
          world := (world s)\<lparr>recorded := recorded (world s) - {i}\<rparr>\<rparr>
      else s)"

definition publish_signals :: "'k machine os \<Rightarrow> ('k, unit) hostm" where
  "publish_signals os = do {
     previous \<leftarrow> call os ''sigprocmask'' [Num SIG_BLOCK, sigset_arg all_signals];
     State_Monad.update (fold publish_one [1..<65]);
     _ \<leftarrow> call os ''sigprocmask'' [Num SIG_SETMASK, sigset_arg (sigset_of previous)];
     State_Monad.return ()
   }"

definition suspend_signals :: "'k machine os \<Rightarrow> geometry \<Rightarrow> u64 \<Rightarrow> ('k, int) hostm" where
  "suspend_signals os h sigmask = do {
     let desired = unpack_signal_mask (libc_signals h) sigmask;
     previous \<leftarrow> call os ''sigprocmask'' [Num SIG_BLOCK, sigset_arg all_signals];
     if ret previous \<noteq> 0 then State_Monad.return (-1)
     else do {
       publish_signals os;
       queued \<leftarrow> gets mailbox_pending;
       rc \<leftarrow> (if queued AND NOT sigmask \<noteq> 0 then fail EINTR
              else calli os ''sigsuspend'' [sigset_arg desired]);
       saved \<leftarrow> gets errno;
       restored \<leftarrow> calli os ''sigprocmask'' [Num SIG_SETMASK, sigset_arg (sigset_of previous)];
       if restored \<noteq> 0 then State_Monad.return (-1)
       else do { set_errno saved; State_Monad.return rc }
     }
   }"

subsection \<open>Interruptible transfers\<close>

definition set_io_active :: "bool \<Rightarrow> ('k, unit) hostm" where
  "set_io_active b = State_Monad.update (\<lambda>s. s\<lparr>world := (world s)\<lparr>io_active := b\<rparr>\<rparr>)"

definition clear_io_interrupted :: "('k, unit) hostm" where
  "clear_io_interrupted = State_Monad.update (\<lambda>s. s\<lparr>world := (world s)\<lparr>io_interrupted := False\<rparr>\<rparr>)"

text \<open>
  The assembly routine without the redirection: it returns -4 if the flag was set and otherwise the
  kernel's raw result, a negative error number on failure.
\<close>

definition signal_io_syscall :: "'k machine os \<Rightarrow> bool \<Rightarrow> int \<Rightarrow> u64 \<Rightarrow> u64 \<Rightarrow> ('k, int) hostm" where
  "signal_io_syscall os writing d buffer count = do {
     interrupted \<leftarrow> gets (\<lambda>s. io_interrupted (world s));
     if interrupted then State_Monad.return (-4)
     else calli os (if writing then ''SYS_write'' else ''SYS_read'')
       [Fd d, Mem buffer (unat count), Num (uint count)]
   }"

definition interruptible_transfer ::
  "'k machine os \<Rightarrow> int \<Rightarrow> u64 \<Rightarrow> u64 \<Rightarrow> bool \<Rightarrow> ('k, int) hostm" where
  "interruptible_transfer os d buffer count writing =
     (if count = 0 then
        calli os (if writing then ''write'' else ''read'') [Fd d, Mem buffer 0, Num 0]
      else do {
        previous \<leftarrow> call os ''sigprocmask'' [Num SIG_BLOCK, sigset_arg all_signals];
        if ret previous \<noteq> 0 then State_Monad.return (-1)
        else do {
          publish_signals os;
          queued \<leftarrow> gets mailbox_pending;
          outcome \<leftarrow>
            (if queued AND NOT (pack_signal_mask (sigset_of previous)) \<noteq> 0
             then State_Monad.return (Some (-1, EINTR))
             else do {
               clear_io_interrupted;
               set_io_active True;
               unmasked \<leftarrow> calli os ''sigprocmask'' [Num SIG_SETMASK, sigset_arg (sigset_of previous)];
               if unmasked \<noteq> 0 then do { set_io_active False; State_Monad.return None }
               else do {
                 rc \<leftarrow> signal_io_syscall os writing d buffer count;
                 set_io_active False;
                 State_Monad.return (Some (if rc < 0 then (-1, - rc) else (rc, 0)))
               }
             });
          case outcome of
            None \<Rightarrow> State_Monad.return (-1)
          | Some (rc, error) \<Rightarrow> do {
              publish_signals os;
              restored \<leftarrow> calli os ''sigprocmask'' [Num SIG_SETMASK, sigset_arg (sigset_of previous)];
              if restored \<noteq> 0 then State_Monad.return (-1)
              else do { set_errno error; State_Monad.return rc }
            }
        }
      })"

subsection \<open>Statuses and action flags\<close>

definition guest_wait_status :: "u32 \<Rightarrow> u32" where
  "guest_wait_status status =
     (if status AND 0xff = 0x7f then
        push_bit 8 (word_of_int (guest_signal (uint (drop_bit 8 (status AND 0xff00))))) OR 0x7f
      else if status AND 0x7f \<noteq> 0 \<and> status AND 0x7f \<noteq> 0x7f then
        (status AND 0x80) OR word_of_int (guest_signal (uint (status AND 0x7f)))
      else status)"

text \<open>The guest numbers its action flags 1, 2, 4 up to 64; the second column is Linux's bit.\<close>

definition native_action_flags :: "u32 \<Rightarrow> u32" where
  "native_action_flags flags =
     copy_bits [(0, 0), (1, 27), (2, 31), (3, 28), (4, 2), (5, 1), (6, 30)] flags 0"

definition guest_action_flags :: "u32 \<Rightarrow> u32" where
  "guest_action_flags flags =
     copy_bits [(0, 0), (27, 1), (31, 2), (28, 3), (2, 4), (1, 5), (30, 6)] flags 0"

subsection \<open>Poll\<close>

definition pollfd_layout :: layout where "pollfd_layout = [I 4, I 2, I 2]"

abbreviation (input) POLLNVAL :: int where "POLLNVAL \<equiv> 0x20"

text \<open>One turn of the first loop: the native entry and whether the descriptor was invalid.\<close>

definition poll_entry :: "u64 \<Rightarrow> nat \<Rightarrow> ('k, (int \<times> int) \<times> bool) hostm" where
  "poll_entry base i = do {
     let p = base + of_nat (8 * i);
     m \<leftarrow> peek_mem;
     t \<leftarrow> gets fds;
     let e = decode_struct pollfd_layout (read_bytes m p 8);
     poke (p + 6) [0, 0];
     if e ! 0 < 0 then State_Monad.return ((-1, e ! 1), False)
     else if e ! 0 \<ge> int MAX_FDS \<or> t ! nat (e ! 0) < 0 then do {
       poke (p + 6) (encode_int 2 POLLNVAL);
       State_Monad.return ((-1, e ! 1), True)
     } else State_Monad.return ((t ! nat (e ! 0), e ! 1), False)
   }"

primrec poll_entries :: "u64 \<Rightarrow> nat list \<Rightarrow> ('k, ((int \<times> int) \<times> bool) list) hostm" where
  "poll_entries base [] = State_Monad.return []"
| "poll_entries base (i # is) = do {
     e \<leftarrow> poll_entry base i;
     es \<leftarrow> poll_entries base is;
     State_Monad.return (e # es)
   }"

text \<open>The last loop: \<^verbatim>\<open>in[i].revents |= items[i].revents\<close>.\<close>

primrec poll_results :: "u64 \<Rightarrow> int list \<Rightarrow> nat list \<Rightarrow> ('k, unit) hostm" where
  "poll_results base revents [] = State_Monad.return ()"
| "poll_results base revents (i # is) = do {
     let p = base + of_nat (8 * i) + 6;
     m \<leftarrow> peek_mem;
     let old = (of_nat (le_dec (read_bytes m p 2)) :: u16);
     poke p (le16 (old OR word_of_int (if i < length revents then revents ! i else 0)));
     poll_results base revents is
   }"

definition poll_arg :: "int \<Rightarrow> arg" where
  "poll_arg d = (if d < 0 then Num d else Fd d)"

definition poll_descriptors ::
  "'k machine os \<Rightarrow> geometry \<Rightarrow> u64 \<Rightarrow> u64 \<Rightarrow> (int \<times> int) option \<Rightarrow> u64 option \<Rightarrow> ('k, int) hostm" where
  "poll_descriptors os h base count timeout mask_at =
     (if count > of_nat MAX_FDS then fail EINVAL
      else do {
        items \<leftarrow> poll_entries base [0..<unat count];
        let invalid = length (filter snd items);
        let timeout = (if invalid > 0 then Some (0, 0) else timeout);
        previous \<leftarrow> call os ''sigprocmask'' [Num SIG_BLOCK, sigset_arg all_signals];
        if ret previous \<noteq> 0 then State_Monad.return (-1)
        else do {
          m \<leftarrow> peek_mem;
          let desired = (case mask_at of
                           Some a \<Rightarrow> unpack_signal_mask (libc_signals h) (load64 m a)
                         | None \<Rightarrow> sigset_of previous);
          publish_signals os;
          queued \<leftarrow> gets mailbox_pending;
          r \<leftarrow> (if queued AND NOT (pack_signal_mask desired) \<noteq> 0
                then do {
                  set_errno EINTR;
                  State_Monad.return \<lparr>ret = -1, err = 0, nums = [], payload = []\<rparr>
                }
                else call os ''ppoll''
                  (map (\<lambda>i. poll_arg (fst (fst i))) items @
                   [Nums (map (\<lambda>i. snd (fst i)) items),
                    (case timeout of None \<Rightarrow> Num 0 | Some (sec, nsec) \<Rightarrow> Nums [sec, nsec]),
                    sigset_arg desired]));
          error \<leftarrow> gets errno;
          publish_signals os;
          restored \<leftarrow> calli os ''sigprocmask'' [Num SIG_SETMASK, sigset_arg (sigset_of previous)];
          if restored \<noteq> 0 then State_Monad.return (-1)
          else do {
            set_errno error;
            if ret r < 0 then State_Monad.return (ret r)
            else do {
              poll_results base (nums r) [0..<unat count];
              State_Monad.return (ret r + int invalid)
            }
          }
        }
      })"

subsection \<open>Confinement\<close>

lemma arg_safe_sigset [simp]: "arg_safe g (sigset_arg x)"
  by (simp add: sigset_arg_def)

lemma arg_safe_poll [simp]: "arg_safe g (poll_arg d) \<longleftrightarrow> d < int MAX_FDS"
  by (auto simp: poll_arg_def MAX_FDS_def)

lemma publish_one_same:
  "fds (publish_one i s) = fds s" "dirs (publish_one i s) = dirs s" "dir_fds (publish_one i s) = dir_fds s"
  "sem_objects (publish_one i s) = sem_objects s" "sem_refs (publish_one i s) = sem_refs s"
  "installed_flags (publish_one i s) = installed_flags s" "oob (publish_one i s) = oob s"
  "gmem (world (publish_one i s)) = gmem (world s)" "trace (publish_one i s) = trace s"
  "errno (publish_one i s) = errno s"
  by (simp_all add: publish_one_def)

lemma publish_one_recorded: "recorded (world (publish_one i s)) = recorded (world s) - {i}"
  by (simp add: publish_one_def)

lemma publish_one_mailbox:
  "bit (mailbox_pending (publish_one i s)) k \<longleftrightarrow>
     bit (mailbox_pending s) k \<or> i \<in> recorded (world s) \<and> k = i - 1 \<and> k < 64"
  by (auto simp: publish_one_def bit_or_iff bit_exp_iff)

lemma publish_fold_same:
  "fds (fold publish_one is s) = fds s" "dirs (fold publish_one is s) = dirs s"
  "dir_fds (fold publish_one is s) = dir_fds s" "sem_objects (fold publish_one is s) = sem_objects s"
  "sem_refs (fold publish_one is s) = sem_refs s" "installed_flags (fold publish_one is s) = installed_flags s"
  "oob (fold publish_one is s) = oob s" "gmem (world (fold publish_one is s)) = gmem (world s)"
  "trace (fold publish_one is s) = trace s" "errno (fold publish_one is s) = errno s"
  by (induction "is" arbitrary: s) (simp_all add: publish_one_same)

lemma publish_fold_recorded: "recorded (world (fold publish_one is s)) = recorded (world s) - set is"
  by (induction "is" arbitrary: s) (auto simp: publish_one_recorded)

lemma publish_fold_mailbox:
  "bit (mailbox_pending (fold publish_one is s)) k \<longleftrightarrow>
     bit (mailbox_pending s) k \<or> (\<exists>i \<in> set is. i \<in> recorded (world s) \<and> k = i - 1 \<and> k < 64)"
  by (induction "is" arbitrary: s) (auto simp: publish_one_recorded publish_one_mailbox)

lemma publish_fold_pending:
  assumes "n \<in> {1..64}"
  shows "pending_signal (fold publish_one [1..<65] s) n \<longleftrightarrow> pending_signal s n"
    "bit (mailbox_pending (fold publish_one [1..<65] s)) (n - 1) \<longleftrightarrow> pending_signal s n"
proof -
  have "(\<exists>i \<in> {1..<65}. i \<in> recorded (world s) \<and> n - 1 = i - 1 \<and> n - 1 < 64) \<longleftrightarrow> n \<in> recorded (world s)"
  proof
    assume "\<exists>i \<in> {1..<65}. i \<in> recorded (world s) \<and> n - 1 = i - 1 \<and> n - 1 < 64"
    then obtain i where "i \<in> {1..<65}" "i \<in> recorded (world s)" "n - 1 = i - 1" by blast
    moreover from this assms have "i = n" by auto
    ultimately show "n \<in> recorded (world s)" by simp
  qed (use assms in \<open>auto intro: bexI [of _ n]\<close>)
  then show "pending_signal (fold publish_one [1..<65] s) n \<longleftrightarrow> pending_signal s n"
    "bit (mailbox_pending (fold publish_one [1..<65] s)) (n - 1) \<longleftrightarrow> pending_signal s n"
    using assms unfolding pending_signal_def publish_fold_recorded publish_fold_mailbox set_upt by auto
qed

lemma safe_publish_signals: "os_ok g os \<Longrightarrow> safe g (publish_signals os) (\<lambda>_. True)"
proof -
  assume os: "os_ok g os"
  have "safe g (State_Monad.update (fold publish_one [1..<65])) (\<lambda>_. True)"
    by (rule safeI)
      (simp add: wp_update confined_def host_inv_def publish_fold_same publish_fold_pending del: upt_Suc One_nat_def)
  then show ?thesis unfolding publish_signals_def
    by (intro safe_rules safe_bindI [of g "State_Monad.update f" for f] os) auto
qed

lemma safe_bind_publish_signals [safe_rules]:
  "os_ok g os \<Longrightarrow> safe g (f ()) Q \<Longrightarrow> safe g (State_Monad.bind (publish_signals os) f) Q"
  by (rule safe_bindI [OF safe_publish_signals]) auto

lemma safe_bind_io [safe_rules]:
  "safe g (f ()) Q \<Longrightarrow> safe g (State_Monad.bind (set_io_active b) f) Q"
  "safe g (f ()) Q \<Longrightarrow> safe g (State_Monad.bind clear_io_interrupted f) Q"
  by (rule safe_bindI [where P = "\<lambda>_. True"], rule safeI,
      simp_all add: set_io_active_def clear_io_interrupted_def wp_update confined_def host_inv_def
        pending_signal_def)+

text \<open>A conditional statement whose value the code goes on with.\<close>

lemma safe_bind_if [safe_rules]:
  "(b \<Longrightarrow> safe g (State_Monad.bind m f) Q) \<Longrightarrow> (\<not> b \<Longrightarrow> safe g (State_Monad.bind n f) Q) \<Longrightarrow>
     safe g (State_Monad.bind (if b then m else n) f) Q"
  by simp

lemma safe_bind_return [safe_rules]:
  "safe g (f x) Q \<Longrightarrow> safe g (State_Monad.bind (State_Monad.return x) f) Q"
  by simp

lemma safe_bind_fail [safe_rules]:
  "safe g (f (-1)) Q \<Longrightarrow> safe g (State_Monad.bind (fail e) f) Q"
  by (rule safe_bindI [where P = "\<lambda>r. r = -1"]) (intro safe_rules, auto)

lemma safe_bind_bind [safe_rules]:
  "safe g (State_Monad.bind m (\<lambda>x. State_Monad.bind (n x) f)) Q \<Longrightarrow>
     safe g (State_Monad.bind (State_Monad.bind m n) f) Q"
  by simp

lemma safe_suspend_signals [safe_rules]:
  "os_ok g os \<Longrightarrow> (\<And>r. Q r) \<Longrightarrow> safe g (suspend_signals os g m) Q"
  unfolding suspend_signals_def by (intro safe_rules) auto

lemma safe_interruptible_transfer [safe_rules]:
  assumes "os_ok g os" "0 \<le> d" "d < int MAX_FDS" "range_ok g buffer (unat count)" "\<And>r. Q r"
  shows "safe g (interruptible_transfer os d buffer count writing) Q"
  unfolding interruptible_transfer_def signal_io_syscall_def
  using assms by (intro safe_rules) (auto simp: range_ok_def)

lemma safe_poll_entry:
  assumes "range_ok g base n" "8 * i + 8 \<le> n" "n \<le> 4096"
  shows "safe g (poll_entry base i) (\<lambda>e. fst (fst e) < int MAX_FDS)"
proof -
  have r: "range_ok g (base + of_nat (8 * i) + 6) 2"
  proof -
    have "range_ok g (base + (of_nat (8 * i) + 6)) 2"
      by (rule range_ok_offset [OF assms(1)]) (use assms(2,3) in \<open>simp add: unat_word_ariths unat_of_nat\<close>)
    then show ?thesis by (simp add: add.assoc)
  qed
  have b: "t ! nat x < int MAX_FDS" if "host_inv s" "t = fds s" "0 \<le> x" "x < int MAX_FDS" for s :: "'a host" and t x
  proof -
    have "nat x < MAX_FDS" using that by auto
    with that show ?thesis unfolding host_inv_def by force
  qed
  show ?thesis unfolding poll_entry_def
    by (intro safe_rules) (use r b in \<open>auto simp: MAX_FDS_def numeral_2_eq_2\<close>)
qed

lemma safe_poll_entries:
  assumes "range_ok g base n" "n \<le> 4096"
  shows "\<forall>i \<in> set is. 8 * i + 8 \<le> n \<Longrightarrow>
    safe g (poll_entries base is) (\<lambda>es. length es = length is \<and> (\<forall>e \<in> set es. fst (fst e) < int MAX_FDS))"
proof (induction "is")
  case Nil
  then show ?case by (auto intro!: safe_rules)
next
  case (Cons i "is")
  then show ?case
    by (auto intro!: safe_bindI [OF safe_poll_entry [OF assms(1) _ assms(2)]] safe_bindI [OF Cons.IH] safe_rules)
qed

lemma safe_poll_results:
  assumes "range_ok g base n" "n \<le> 4096"
  shows "\<forall>i \<in> set is. 8 * i + 8 \<le> n \<Longrightarrow> safe g (poll_results base rs is) (\<lambda>_. True)"
proof (induction "is")
  case Nil
  then show ?case by (auto intro!: safe_rules)
next
  case (Cons i "is")
  have "range_ok g (base + (of_nat (8 * i) + 6)) 2"
    by (rule range_ok_offset [OF assms(1)]) (use Cons.prems assms(2) in \<open>simp add: unat_word_ariths unat_of_nat\<close>)
  with Cons show ?case by (auto intro!: safe_rules simp: add.assoc)
qed

lemma safe_poll_descriptors [safe_rules]:
  assumes os: "os_ok g os" and r: "range_ok g base (8 * unat count)" and Q: "\<And>r. Q r"
  shows "safe g (poll_descriptors os g base count timeout m) Q"
proof (cases "count > of_nat MAX_FDS")
  case True
  then show ?thesis unfolding poll_descriptors_def by (auto intro!: safe_rules Q)
next
  case False
  then have n: "8 * unat count \<le> 4096" by (simp add: MAX_FDS_def word_less_nat_alt not_less)
  show ?thesis
    unfolding poll_descriptors_def
    by (rule safe_if, use False in simp,
        intro safe_rules os safe_bindI [OF safe_poll_entries [OF r n]] safe_bindI [OF safe_poll_results [OF r n]] Q)
      (auto simp: list_all_iff split: option.splits)
qed

subsection \<open>Masks and flags\<close>

lemma fold_insert_if: "fold (\<lambda>i s. if P i then insert (f i) s else s) xs A = A \<union> f ` {i \<in> set xs. P i}"
  by (induction xs arbitrary: A) auto

lemma bit_fold_set_bit:
  "bit (fold (\<lambda>i p. if P i then set_bit (i - 1) p else p) xs (p :: u64)) k \<longleftrightarrow>
     bit p k \<or> k < 64 \<and> (\<exists>i \<in> set xs. P i \<and> i - 1 = k)"
  by (induction xs arbitrary: p) (auto simp: bit_set_bit_iff)

lemma unpack_signal_mask_set: "unpack_signal_mask libc m = {i \<in> {1..64}. bit m (i - 1) \<and> i \<in> libc}"
  unfolding unpack_signal_mask_def fold_insert_if
  by (auto simp: native_signal_def image_iff)

lemma bit_pack_signal_mask: "bit (pack_signal_mask x) k \<longleftrightarrow> k < 64 \<and> Suc k \<in> x"
proof -
  have "(\<exists>i \<in> {1..<65}. (native_signal (int i) > 0 \<and> nat (native_signal (int i)) \<in> x) \<and> i - 1 = k) \<longleftrightarrow> Suc k \<in> x"
    if "k < 64"
    using that by (auto simp: native_signal_def intro!: bexI [of _ "Suc k"])
  then show ?thesis unfolding pack_signal_mask_def bit_fold_set_bit set_upt by auto
qed


text \<open>
  Action flags survive the bridge: the seven flags the guest knows come back unchanged from their
  Linux encoding, and nothing else does.
\<close>
theorem action_flags_roundtrip: "guest_action_flags (native_action_flags flags) = flags AND mask 7"
proof (rule bit_eqI)
  fix n :: nat assume "possible_bit TYPE(u32) n"
  then have n: "n < 32" by (simp add: possible_bit_word)
  have "bit (native_action_flags flags) 0 = bit flags 0" "bit (native_action_flags flags) 27 = bit flags 1"
    "bit (native_action_flags flags) 31 = bit flags 2" "bit (native_action_flags flags) 28 = bit flags 3"
    "bit (native_action_flags flags) 2 = bit flags 4" "bit (native_action_flags flags) 1 = bit flags 5"
    "bit (native_action_flags flags) 30 = bit flags 6"
    by (simp_all add: native_action_flags_def bit_copy_bits)
  moreover have "n = 0 \<or> n = 1 \<or> n = 2 \<or> n = 3 \<or> n = 4 \<or> n = 5 \<or> n = 6 \<or> 7 \<le> n" by arith
  ultimately show "bit (guest_action_flags (native_action_flags flags)) n = bit (flags AND mask 7) n"
    using n by (elim disjE) (simp_all add: guest_action_flags_def bit_copy_bits bit_and_iff bit_mask_iff)
qed

subsection \<open>No lost wake-up\<close>

definition calls_only :: "string set \<Rightarrow> 'k host \<Rightarrow> 'k host \<Rightarrow> bool" where
  "calls_only names s t \<longleftrightarrow>
     (\<exists>new. trace t = trace s @ new \<and> (\<forall>e \<in> set new. cname (fst e) \<in> names))"

definition masking_works :: "'k machine os \<Rightarrow> bool" where
  "masking_works os \<longleftrightarrow> (\<forall>args m. ret (fst (os (Call ''sigprocmask'' args) m)) = 0)"

lemma calls_only_refl: "trace t = trace s \<Longrightarrow> calls_only names s t"
  by (simp add: calls_only_def)

lemma calls_only_errno [simp]:
  "calls_only names (s\<lparr>errno := e\<rparr>) t \<longleftrightarrow> calls_only names s t"
  "calls_only names s (t\<lparr>errno := e\<rparr>) \<longleftrightarrow> calls_only names s t"
  by (simp_all add: calls_only_def)

lemma calls_only_trans: "calls_only names s t \<Longrightarrow> calls_only names t u \<Longrightarrow> calls_only names s u"
  unfolding calls_only_def by fastforce

lemma call_keeps:
  assumes "os_signals os"
  shows "wp (call os nm args) (\<lambda>r t. (\<forall>n. pending_signal s n \<longrightarrow> pending_signal t n) \<and>
    mailbox_pending t = mailbox_pending s \<and> calls_only {nm} s t \<and>
    (\<exists>m. r = fst (os (Call nm args) m))) s"
  using assms unfolding os_signals_def
  by (auto simp: wp_call pending_signal_def calls_only_def split: prod.splits)
    (metis snd_conv subsetD, metis fst_conv)

lemma publish_shows:
  assumes os: "os_signals os" and n: "n \<in> {1..64}" "pending_signal s n"
  shows "wp (publish_signals os)
    (\<lambda>r t. bit (mailbox_pending t) (n - 1) \<and> calls_only {''sigprocmask''} s t) s"
proof -
  have last: "wp (call os ''sigprocmask'' args) (\<lambda>r t. bit (mailbox_pending t) (n - 1) \<and> calls_only {''sigprocmask''} s t) u"
    if "calls_only {''sigprocmask''} s u" "bit (mailbox_pending u) (n - 1)" for u args
    by (rule wp_mono [OF call_keeps [OF os]]) (use that in \<open>auto intro: calls_only_trans\<close>)
  show ?thesis unfolding publish_signals_def wp_bind wp_update wp_return
  proof (rule wp_mono [OF call_keeps [OF os]], rule last)
    fix r and t :: "'a host"
    assume t: "(\<forall>n. pending_signal s n \<longrightarrow> pending_signal t n) \<and>
      mailbox_pending t = mailbox_pending s \<and> calls_only {''sigprocmask''} s t \<and>
      (\<exists>m. r = fst (os (Call ''sigprocmask'' [Num SIG_BLOCK, sigset_arg all_signals]) m))"
    then show "calls_only {''sigprocmask''} s (fold publish_one [1..<65] t)"
      by (blast intro: calls_only_trans calls_only_refl publish_fold_same(9))
    from t n show "bit (mailbox_pending (fold publish_one [1..<65] t)) (n - 1)"
      using publish_fold_pending(2) by blast
  qed
qed

lemma unmasked_nonzero: "bit (q :: u64) k \<Longrightarrow> \<not> bit m k \<Longrightarrow> q AND NOT m \<noteq> 0"
  by (metis bit_and_iff bit_not_iff bit_0_eq bot_apply bot_bool_def impossible_bit)

lemma calli_keeps:
  assumes "os_signals os"
  shows "wp (calli os nm args) (\<lambda>r t. (\<forall>n. pending_signal s n \<longrightarrow> pending_signal t n) \<and>
    mailbox_pending t = mailbox_pending s \<and> calls_only {nm} s t \<and>
    (\<exists>m. r = ret (fst (os (Call nm args) m)))) s"
  unfolding calli_def wp_bind wp_return by (rule wp_mono [OF call_keeps [OF assms]]) auto

text \<open>
  C19. Waiting for a signal cannot miss one: if a signal that the requested mask lets through was
  recorded by the handler or is already in the mailbox when \<^verbatim>\<open>suspend_signals\<close> starts, the
  call returns \<^verbatim>\<open>EINTR\<close> at once and never reaches \<^verbatim>\<open>sigsuspend\<close>.
\<close>
theorem suspend_no_lost_wakeup:
  assumes os: "os_signals os" "masking_works os"
    and n: "n \<in> {1..64}" "pending_signal s n" "\<not> bit sigmask (n - 1)"
    and run: "run_state (suspend_signals os h sigmask) s = (r, t)"
  shows "r = -1 \<and> errno t = EINTR \<and> calls_only {''sigprocmask''} s t"
proof -
  have "wp (suspend_signals os h sigmask)
    (\<lambda>r t. r = -1 \<and> errno t = EINTR \<and> calls_only {''sigprocmask''} s t) s"
    unfolding suspend_signals_def Let_def
    apply (rule wp_bindI [OF call_keeps [OF os(1)]])
    subgoal for p u
      using os(2) n
      apply (clarsimp simp: masking_works_def)
      apply (rule wp_bindI [OF publish_shows [OF os(1) n(1)]], blast)
      apply (clarsimp simp: wp_bind wp_gets wp_fail unmasked_nonzero wp_if)
      apply (rule wp_mono [OF calli_keeps [OF os(1)]])
      apply (clarsimp simp: wp_bind wp_set_errno wp_return)
      apply (blast intro: calls_only_trans)
      done
    done
  with run show ?thesis by (auto dest: wp_run)
qed

definition demo_signalled :: "unit host" where
  "demo_signalled = (demo_host (\<lambda>_. 0))\<lparr>mailbox_pending := 2\<rparr>"

lemma demo_signals: "os_signals demo_os" "masking_works demo_os" "2 \<in> {1..64 :: nat}"
  "pending_signal demo_signalled 2"
proof -
  have "bit (2 :: u64) 1" by (simp add: bit_iff_odd)
  then show "pending_signal demo_signalled 2" by (simp add: pending_signal_def demo_signalled_def)
qed (simp_all add: os_signals_def masking_works_def demo_os_def)

theorem suspend_no_lost_wakeup_witness:
  "fst (run_state (suspend_signals demo_os demo_geometry 0) demo_signalled) = -1 \<and>
   errno (snd (run_state (suspend_signals demo_os demo_geometry 0) demo_signalled)) = EINTR \<and>
   calls_only {''sigprocmask''} demo_signalled (snd (run_state (suspend_signals demo_os demo_geometry 0) demo_signalled))"
  by (rule suspend_no_lost_wakeup [OF demo_signals]) simp_all



text \<open>
  A child's wait status keeps its meaning: an exit status of any code, a death by any of the 64
  signals with or without a core dump, and a stop by any of them reach the guest unchanged.
\<close>
theorem wait_status_kept:
  "(status AND 0x7f = 0 \<longrightarrow> guest_wait_status status = status) \<and>
   list_all (\<lambda>sig. guest_wait_status (of_nat sig) = of_nat sig \<and>
     guest_wait_status (of_nat sig OR 0x80) = of_nat sig OR 0x80 \<and>
     guest_wait_status (push_bit 8 (of_nat sig) OR 0x7f) = push_bit 8 (of_nat sig) OR 0x7f) [1..<65]"
proof
  have "status AND 0xff \<noteq> 0x7f" if "status AND 0x7f = 0"
  proof
    assume "status AND 0xff = 0x7f"
    then have "status AND (0xff AND 0x7f) = 0x7f AND 0x7f" by (metis and.assoc)
    with that show False by simp
  qed
  then show "status AND 0x7f = 0 \<longrightarrow> guest_wait_status status = status"
    by (simp add: guest_wait_status_def)
  have e: "[1..<65] = [1::nat, 2, 3, 4, 5, 6, 7, 8, 9, 10, 11, 12, 13, 14, 15, 16, 17, 18, 19, 20, 21, 22, 23,
      24, 25, 26, 27, 28, 29, 30, 31, 32, 33, 34, 35, 36, 37, 38, 39, 40, 41, 42, 43, 44, 45,
      46, 47, 48, 49, 50, 51, 52, 53, 54, 55, 56, 57, 58, 59, 60, 61, 62, 63, 64]"
    by (simp add: upt_conv_Cons)
  show "list_all (\<lambda>sig. guest_wait_status (of_nat sig) = of_nat sig \<and>
     guest_wait_status (of_nat sig OR 0x80) = of_nat sig OR 0x80 \<and>
     guest_wait_status (push_bit 8 (of_nat sig) OR 0x7f) = push_bit 8 (of_nat sig) OR 0x7f) [1..<65]"
    unfolding e list.pred_inject
    by (intro conjI TrueI) (simp_all add: guest_wait_status_def guest_signal_def)
qed

theorem wait_status_kept_witness: "guest_wait_status 0x300 = 0x300"
  using wait_status_kept [of "0x300"] by simp


end
