(* ===== verification/Bridge_Net.thy ===== *)
theory Bridge_Net
  imports Bridge_Posix Bridge_Signals
begin

text \<open>
  Socket services and name resolution (\<^verbatim>\<open>src/src/network_host.h\<close>): address lists copied into
  guest memory, messages with their ancillary data, and the socket calls of
  \<^verbatim>\<open>service_posix_extra\<close>. The guest allocator \<^verbatim>\<open>bpf_capsule_malloc\<close> and the C
  library are reached through \<open>os\<close>; the loader's own \<^verbatim>\<open>calloc\<close> is a call that returns 0
  when it fails, and its \<^verbatim>\<open>free\<close>, which has no effect on the modelled state, is left out.
\<close>

subsection \<open>Structures in guest memory\<close>

definition msghdr_layout :: layout where
  "msghdr_layout = [U 8, U 4, Pad 4, U 8, U 4, Pad 4, U 8, U 4, Pad 4, I 4, Pad 4]"
definition iovec_layout :: layout where "iovec_layout = [U 8, U 8]"
definition cmsghdr_layout :: layout where "cmsghdr_layout = [U 4, Pad 4, I 4, I 4]"
definition native_cmsghdr_layout :: layout where "native_cmsghdr_layout = [U 8, I 4, I 4]"
definition addrinfo_layout :: layout where
  "addrinfo_layout = [I 4, I 4, I 4, I 4, U 4, Pad 4, U 8, U 8, U 8]"

definition load_struct :: "layout \<Rightarrow> (u64 \<Rightarrow> byte) \<Rightarrow> u64 \<Rightarrow> int list" where
  "load_struct l m a = decode_struct l (read_bytes m a (struct_size l))"

definition guest_copy :: "'k machine os \<Rightarrow> byte list \<Rightarrow> ('k, u64 option) hostm" where
  "guest_copy os bs = do {
     out \<leftarrow> calli os ''bpf_capsule_malloc'' [Num (int (length bs))];
     if out = 0 then do { set_errno ENOMEM; State_Monad.return None }
     else do { poke (word_of_int out) bs; State_Monad.return (Some (word_of_int out)) }
   }"

definition pointer :: "u64 option \<Rightarrow> u64" where
  "pointer p = (case p of None \<Rightarrow> 0 | Some a \<Rightarrow> a)"

subsection \<open>Address lists\<close>

text \<open>
  An entry of the list \<^verbatim>\<open>getaddrinfo\<close> returns. The call's result has seven numbers for each
  entry: the four integer members, the address length, whether there is an address, and the length
  of the canonical name or -1; the bytes of the addresses and names follow each other in its payload.
\<close>

record addrinfo =
  ai_flags :: int
  ai_family :: int
  ai_socktype :: int
  ai_protocol :: int
  ai_addrlen :: int
  ai_addr :: "byte list option"
  ai_canonname :: "byte list option"

fun addrinfo_list :: "int list \<Rightarrow> byte list \<Rightarrow> addrinfo list" where
  "addrinfo_list (fl # fam # st # pr # len # has # cn # rest) bs =
     (let bs' = (if has \<noteq> 0 then drop (nat len) bs else bs)
      in \<lparr>ai_flags = fl, ai_family = fam, ai_socktype = st, ai_protocol = pr, ai_addrlen = len,
          ai_addr = (if has \<noteq> 0 then Some (take (nat len) bs) else None),
          ai_canonname = (if cn \<ge> 0 then Some (take (nat cn) bs') else None)\<rparr>
         # addrinfo_list rest (drop (nat cn) bs'))"
| "addrinfo_list _ _ = []"

text \<open>The list is at most as long as the number of entries the loader had linked: \<open>n\<close>.\<close>

primrec free_address_list :: "'k machine os \<Rightarrow> nat \<Rightarrow> u64 \<Rightarrow> ('k, unit) hostm" where
  "free_address_list os 0 item = State_Monad.return ()"
| "free_address_list os (Suc n) item =
     (if item = 0 then State_Monad.return ()
      else do {
        m \<leftarrow> peek_mem;
        let v = load_struct addrinfo_layout m item;
        _ \<leftarrow> call os ''bpf_capsule_free'' [Num (v ! 5)];
        _ \<leftarrow> call os ''bpf_capsule_free'' [Num (v ! 6)];
        _ \<leftarrow> call os ''bpf_capsule_free'' [Num (uint item)];
        free_address_list os n (word_of_int (v ! 7))
      })"

text \<open>
  The loop of \<^verbatim>\<open>network_addresses\<close>; the result is whether it ran to the end, \<^verbatim>\<open>first\<close>
  and the number of entries made.
\<close>

fun copy_addresses ::
  "'k machine os \<Rightarrow> addrinfo list \<Rightarrow> u64 \<Rightarrow> u64 option \<Rightarrow> nat \<Rightarrow> ('k, bool \<times> u64 \<times> nat) hostm" where
  "copy_addresses os [] first previous n = State_Monad.return (True, first, n)"
| "copy_addresses os (p # ps) first previous n = do {
     copied \<leftarrow> guest_copy os (encode_struct addrinfo_layout
       [ai_flags p, ai_family p, ai_socktype p, ai_protocol p, ai_addrlen p, 0, 0, 0]);
     case copied of
       None \<Rightarrow> State_Monad.return (False, first, n)
     | Some item \<Rightarrow> do {
         (case previous of None \<Rightarrow> State_Monad.return () | Some q \<Rightarrow> poke (q + 40) (le64 item));
         let first = (if previous = None then item else first);
         addressed \<leftarrow> (case ai_addr p of
             None \<Rightarrow> State_Monad.return True
           | Some bs \<Rightarrow> do {
               c \<leftarrow> guest_copy os bs;
               poke (item + 24) (le64 (pointer c));
               State_Monad.return (c \<noteq> None)
             });
         if \<not> addressed then State_Monad.return (False, first, Suc n)
         else do {
           named \<leftarrow> (case ai_canonname p of
               None \<Rightarrow> State_Monad.return True
             | Some bs \<Rightarrow> do {
                 c \<leftarrow> guest_copy os (bs @ [0]);
                 poke (item + 32) (le64 (pointer c));
                 State_Monad.return (c \<noteq> None)
               });
           if \<not> named then State_Monad.return (False, first, Suc n)
           else copy_addresses os ps first (Some item) (Suc n)
         }
       }
   }"

abbreviation (input) EAI_SYSTEM :: int where "EAI_SYSTEM \<equiv> -11"
abbreviation (input) EAI_MEMORY :: int where "EAI_MEMORY \<equiv> -10"

definition opt_string :: "geometry \<Rightarrow> u64 \<Rightarrow> ('k, string option) hostm" where
  "opt_string h x = (if x \<noteq> 0 then string h x else State_Monad.return None)"

definition opt_memory :: "geometry \<Rightarrow> u64 \<Rightarrow> u64 \<Rightarrow> ('k, u64 option) hostm" where
  "opt_memory h x n = (if x \<noteq> 0 then memory h x n else State_Monad.return None)"

definition str_arg :: "string option \<Rightarrow> arg" where
  "str_arg p = (case p of None \<Rightarrow> Num 0 | Some str \<Rightarrow> Str str)"

definition network_addresses :: "'k px" where
  "network_addresses os h a = do {
     node \<leftarrow> opt_string h (a 0);
     service \<leftarrow> opt_string h (a 1);
     hint \<leftarrow> opt_memory h (a 2) 48;
     out \<leftarrow> memory h (a 3) 8;
     if (a 0 \<noteq> 0 \<and> node = None) \<or> (a 1 \<noteq> 0 \<and> service = None) \<or> (a 2 \<noteq> 0 \<and> hint = None) \<or> out = None
     then State_Monad.return EAI_SYSTEM
     else do {
       poke (a 3) (le64 0);
       m \<leftarrow> peek_mem;
       r \<leftarrow> call os ''getaddrinfo'' [str_arg node, str_arg service,
         (case hint of None \<Rightarrow> Num 0 | Some p \<Rightarrow> Nums (take 4 (load_struct addrinfo_layout m p)))];
       if ret r \<noteq> 0 then State_Monad.return (ret r)
       else do {
         res \<leftarrow> copy_addresses os (addrinfo_list (nums r) (payload r)) 0 None 0;
         _ \<leftarrow> call os ''freeaddrinfo'' [];
         case res of (ok, first, n) \<Rightarrow>
           if ok then do { poke (a 3) (le64 first); State_Monad.return 0 }
           else do { free_address_list os n first; State_Monad.return EAI_MEMORY }
       }
     }
   }"

subsection \<open>Messages\<close>

text \<open>Storing bytes in a buffer; a store past the end of the buffer changes nothing.\<close>

definition write_at :: "nat \<Rightarrow> byte list \<Rightarrow> byte list \<Rightarrow> byte list" where
  "write_at pos bs buf =
     map (\<lambda>i. if pos \<le> i \<and> i < pos + length bs then bs ! (i - pos) else buf ! i) [0..<length buf]"

lemma length_write_at [simp]: "length (write_at pos bs buf) = length buf"
  by (simp add: write_at_def)

definition int_at :: "nat \<Rightarrow> byte list \<Rightarrow> int" where
  "int_at pos buf = signed_value 4 (le_dec (take 4 (drop pos buf)))"

definition align8 :: "nat \<Rightarrow> nat" where
  "align8 n = (n + 7) div 8 * 8"

abbreviation (input) SOL_SOCKET :: int where "SOL_SOCKET \<equiv> 1"
abbreviation (input) SCM_RIGHTS :: int where "SCM_RIGHTS \<equiv> 1"

text \<open>
  Sending: the inner loop translates \<open>k\<close> descriptors from position \<open>pos\<close> on, and the outer
  one walks the control messages. The results are the changed buffer and the native descriptors put
  into it; \<open>None\<close> is the jump to \<^verbatim>\<open>done\<close>. An entry has at least 16 bytes, so the buffer's
  length bounds the number of entries.
\<close>

primrec rights_out :: "nat \<Rightarrow> nat \<Rightarrow> byte list \<Rightarrow> ('k, (byte list \<times> int list) option) hostm" where
  "rights_out 0 pos buf = State_Monad.return (Some (buf, []))"
| "rights_out (Suc k) pos buf = do {
     d \<leftarrow> fd (int_at pos buf);
     if d < 0 then State_Monad.return None
     else do {
       rest \<leftarrow> rights_out k (pos + 4) (write_at pos (encode_int 4 d) buf);
       case rest of
         None \<Rightarrow> State_Monad.return None
       | Some (buf, ds) \<Rightarrow> State_Monad.return (Some (buf, d # ds))
     }
   }"

primrec control_out :: "nat \<Rightarrow> nat \<Rightarrow> byte list \<Rightarrow> ('k, (byte list \<times> int list) option) hostm" where
  "control_out 0 offset buf = State_Monad.return (Some (buf, []))"
| "control_out (Suc n) offset buf =
     (if offset + 16 > length buf then State_Monad.return (Some (buf, []))
      else
        let w = decode_struct cmsghdr_layout (take 16 (drop offset buf)); len = nat (w ! 0) in
        if len < 16 \<or> len > length buf - offset then do { set_errno EINVAL; State_Monad.return None }
        else
          let buf = write_at (offset + 4) [0, 0, 0, 0] buf in
          if w ! 1 = SOL_SOCKET \<and> w ! 2 = SCM_RIGHTS then
            if (len - 16) mod 4 \<noteq> 0 then do { set_errno EINVAL; State_Monad.return None }
            else do {
              rights \<leftarrow> rights_out ((len - 16) div 4) (offset + 16) buf;
              case rights of
                None \<Rightarrow> State_Monad.return None
              | Some (buf, ds) \<Rightarrow> do {
                  rest \<leftarrow> control_out n (offset + align8 len) buf;
                  case rest of
                    None \<Rightarrow> State_Monad.return None
                  | Some (buf, es) \<Rightarrow> State_Monad.return (Some (buf, ds @ es))
                }
            }
          else control_out n (offset + align8 len) buf)"

text \<open>
  Receiving: every descriptor of every \<^verbatim>\<open>SCM_RIGHTS\<close> entry is adopted; after the first that
  cannot be, the rest are closed. The state is the buffer, \<^verbatim>\<open>installed\<close> and \<^verbatim>\<open>failed\<close>;
  \<^verbatim>\<open>installed\<close> has room for \<^verbatim>\<open>MAX_FDS\<close> entries.
\<close>

definition note_installed :: "nat list \<Rightarrow> ('k, unit) hostm" where
  "note_installed installed = State_Monad.update
     (\<lambda>s. if length installed < MAX_FDS then s else s\<lparr>oob := True\<rparr>)"

primrec rights_in ::
  "'k machine os \<Rightarrow> nat \<Rightarrow> nat \<Rightarrow> byte list \<Rightarrow> nat list \<Rightarrow> bool \<Rightarrow>
     ('k, byte list \<times> nat list \<times> bool) hostm" where
  "rights_in os 0 pos buf installed failed = State_Monad.return (buf, installed, failed)"
| "rights_in os (Suc k) pos buf installed failed =
     (if failed then do {
        _ \<leftarrow> call os ''close'' [New (int_at pos buf)];
        rights_in os k (pos + 4) buf installed failed
      } else do {
        logical \<leftarrow> save_fd os (int_at pos buf) 0;
        if logical < 0 then rights_in os k (pos + 4) buf installed True
        else do {
          note_installed installed;
          rights_in os k (pos + 4) (write_at pos (encode_int 4 logical) buf)
            (installed @ [nat logical]) failed
        }
      })"

primrec control_in ::
  "'k machine os \<Rightarrow> nat \<Rightarrow> nat \<Rightarrow> byte list \<Rightarrow> nat list \<Rightarrow> bool \<Rightarrow>
     ('k, byte list \<times> nat list \<times> bool) hostm" where
  "control_in os 0 offset buf installed failed = State_Monad.return (buf, installed, failed)"
| "control_in os (Suc n) offset buf installed failed =
     (if offset + 16 > length buf then State_Monad.return (buf, installed, failed)
      else
        let w = decode_struct native_cmsghdr_layout (take 16 (drop offset buf)); len = nat (w ! 0) in
        do {
          state \<leftarrow> (if w ! 1 = SOL_SOCKET \<and> w ! 2 = SCM_RIGHTS
                   then rights_in os ((len - 16) div 4) (offset + 16) buf installed failed
                   else State_Monad.return (buf, installed, failed));
          case state of (buf, installed, failed) \<Rightarrow>
            if len < 16 then State_Monad.return (buf, installed, failed)
            else control_in os n (offset + align8 len) buf installed failed
        })"

primrec drop_fds :: "'k machine os \<Rightarrow> nat list \<Rightarrow> ('k, unit) hostm" where
  "drop_fds os [] = State_Monad.return ()"
| "drop_fds os (i # is) = do { drop_fd os i; drop_fds os is }"

text \<open>The loop that checks the vectors, from the one at \<open>p\<close> on.\<close>

primrec check_vectors :: "geometry \<Rightarrow> nat \<Rightarrow> u64 \<Rightarrow> ('k, arg list option) hostm" where
  "check_vectors h 0 p = State_Monad.return (Some [])"
| "check_vectors h (Suc n) p = do {
     m \<leftarrow> peek_mem;
     let v = load_struct iovec_layout m p;
     base \<leftarrow> memory h (word_of_int (v ! 0)) (word_of_int (v ! 1));
     if v ! 1 \<noteq> 0 \<and> base = None then State_Monad.return None
     else do {
       rest \<leftarrow> check_vectors h n (p + 16);
       case rest of
         None \<Rightarrow> State_Monad.return None
       | Some args \<Rightarrow> State_Monad.return (Some (mem_arg base (word_of_int (v ! 1)) # args))
     }
   }"

text \<open>
  After \<^verbatim>\<open>recvmsg\<close>: the call's numbers are the new name length, control length and flags, and
  its payload the received control data.
\<close>

definition finish_receive :: "'k machine os \<Rightarrow> u64 \<Rightarrow> u64 option \<Rightarrow> osret \<Rightarrow> ('k, int) hostm" where
  "finish_receive os wire guest_control r = do {
     state \<leftarrow> control_in os (length (payload r)) 0 (payload r) [] False;
     case state of (buf, installed, failed) \<Rightarrow>
       if failed then do { drop_fds os installed; fail EMFILE }
       else do {
         poke (wire + 8) (encode_int 4 (nums r ! 0));
         poke (wire + 40) (encode_int 4 (nums r ! 1));
         poke (wire + 48) (encode_int 4 (nums r ! 2));
         (case guest_control of
            None \<Rightarrow> State_Monad.return ()
          | Some p \<Rightarrow> poke p buf);
         State_Monad.return (ret r)
       }
   }"

text \<open>
  The control data and the call itself, with the vectors and the name already checked; \<open>w\<close> is
  the message header's members in order.
\<close>

definition message_transfer ::
  "'k machine os \<Rightarrow> geometry \<Rightarrow> (nat \<Rightarrow> u64) \<Rightarrow> bool \<Rightarrow> int \<Rightarrow> int list \<Rightarrow> arg list \<Rightarrow> arg \<Rightarrow> ('k, int) hostm" where
  "message_transfer os h a receiving actual w vs name_arg =
     (let controllen = w ! 5 in
      if controllen = 0 then do {
        r \<leftarrow> call os (if receiving then ''recvmsg'' else ''sendmsg'')
          (Fd actual # vs @ [name_arg, Bytes [], Num (c_int (a 2))]);
        if ret r \<ge> 0 \<and> receiving then finish_receive os (a 1) None r
        else State_Monad.return (ret r)
      } else do {
        guest_control \<leftarrow> memory h (word_of_int (w ! 4)) (word_of_int controllen);
        if guest_control = None then State_Monad.return (-1)
        else do {
          ancillary \<leftarrow> calli os ''calloc'' [Num 1, Num controllen];
          if ancillary = 0 then State_Monad.return (-1)
          else if receiving then do {
            r \<leftarrow> call os ''recvmsg'' (Fd actual # vs @
              [name_arg, Bytes (replicate (nat controllen) 0), Num (c_int (a 2))]);
            if ret r \<ge> 0 then finish_receive os (a 1) (Some (word_of_int (w ! 4))) r
            else State_Monad.return (ret r)
          } else do {
            m \<leftarrow> peek_mem;
            out \<leftarrow> control_out (nat controllen) 0
              (read_bytes m (word_of_int (w ! 4)) (nat controllen));
            case out of
              None \<Rightarrow> State_Monad.return (-1)
            | Some (buf, rights) \<Rightarrow>
                calli os ''sendmsg'' (Fd actual # vs @
                  [name_arg, Bytes buf] @ map Fd rights @ [Num (c_int (a 2))])
          }
        }
      })"

definition network_message :: "'k machine os \<Rightarrow> geometry \<Rightarrow> (nat \<Rightarrow> u64) \<Rightarrow> bool \<Rightarrow> ('k, int) hostm" where
  "network_message os h a receiving = do {
     actual \<leftarrow> fd (c_int (a 0));
     wire \<leftarrow> memory h (a 1) 56;
     if actual < 0 \<or> wire = None then State_Monad.return (-1)
     else do {
       m \<leftarrow> peek_mem;
       let w = load_struct msghdr_layout m (a 1);
       let iovlen = w ! 3;
       if iovlen > 1024 \<or> w ! 5 > 65536 then fail EMSGSIZE
       else do {
         vectors \<leftarrow> (if iovlen \<noteq> 0 then memory h (word_of_int (w ! 2)) (word_of_int (iovlen * 16))
                    else State_Monad.return None);
         if iovlen \<noteq> 0 \<and> vectors = None then State_Monad.return (-1)
         else do {
           iov \<leftarrow> calli os ''calloc'' [Num (if iovlen = 0 then 1 else iovlen), Num 16];
           if iov = 0 then State_Monad.return (-1)
           else do {
             args \<leftarrow> check_vectors h (nat iovlen) (word_of_int (w ! 2));
             case args of
               None \<Rightarrow> State_Monad.return (-1)
             | Some vs \<Rightarrow> do {
                 name \<leftarrow> opt_memory h (word_of_int (w ! 0)) (word_of_int (w ! 1));
                 if w ! 0 \<noteq> 0 \<and> name = None then State_Monad.return (-1)
                 else message_transfer os h a receiving actual w vs (mem_arg name (word_of_int (w ! 1)))
               }
           }
         }
       }
     }
   }"

subsection \<open>The socket calls\<close>

definition px_socketpair :: "'k px" where
  "px_socketpair os h a = do {
     out \<leftarrow> memory h (a 3) 8;
     if out = None then State_Monad.return (-1)
     else do {
       r \<leftarrow> call os ''socketpair'' [Num (c_int (a 0)), Num (c_int (a 1)), Num (c_int (a 2))];
       if ret r \<noteq> 0 then State_Monad.return (-1)
       else do {
         first \<leftarrow> save_fd os (nums r ! 0) 0;
         poke (a 3) (encode_int 4 first);
         if first < 0 then do { _ \<leftarrow> call os ''close'' [New (nums r ! 1)]; State_Monad.return (-1) }
         else do {
           second \<leftarrow> save_fd os (nums r ! 1) 0;
           poke (a 3 + 4) (encode_int 4 second);
           if second < 0 then do { drop_fd os (nat first); State_Monad.return (-1) }
           else State_Monad.return 0
         }
       }
     }
   }"

text \<open>
  \<^verbatim>\<open>PX_ACCEPT\<close>, \<^verbatim>\<open>PX_GETSOCKNAME\<close> and \<^verbatim>\<open>PX_GETPEERNAME\<close> share their checks; the
  continuation receives the descriptor and the two pointers.
\<close>

definition with_address :: "geometry \<Rightarrow> (nat \<Rightarrow> u64) \<Rightarrow> (int \<Rightarrow> arg \<Rightarrow> arg \<Rightarrow> ('k, int) hostm) \<Rightarrow> ('k, int) hostm" where
  "with_address h a f = with_fd (a 0) (\<lambda>actual. do {
     len \<leftarrow> opt_memory h (a 2) 4;
     if a 2 \<noteq> 0 \<and> len = None then State_Monad.return (-1)
     else do {
       m \<leftarrow> peek_mem;
       let n = (case len of None \<Rightarrow> 0 | Some p \<Rightarrow> ucast (load32 m p));
       address \<leftarrow> (if a 1 \<noteq> 0 \<and> len \<noteq> None then memory h (a 1) n else State_Monad.return None);
       if a 1 \<noteq> 0 \<and> address = None then fail EFAULT
       else f actual (mem_arg address n) (mem_arg len 4)
     }
   })"

definition px_accept :: "'k px" where
  "px_accept os h a = with_address h a (\<lambda>actual address len.
     adopt_call os ''accept4'' [Fd actual, address, len, Num (c_int (a 3))])"

definition px_getsockname :: "'k px" where
  "px_getsockname os h a = with_address h a (\<lambda>actual address len.
     calli os ''getsockname'' [Fd actual, address, len])"

definition px_getpeername :: "'k px" where
  "px_getpeername os h a = with_address h a (\<lambda>actual address len.
     calli os ''getpeername'' [Fd actual, address, len])"

definition px_getsockopt :: "'k px" where
  "px_getsockopt os h a = do {
     actual \<leftarrow> fd (c_int (a 0));
     len \<leftarrow> memory h (a 4) 4;
     if actual < 0 \<or> len = None then State_Monad.return (-1)
     else do {
       m \<leftarrow> peek_mem;
       let n = (ucast (load32 m (a 4)) :: u64);
       out \<leftarrow> memory h (a 3) n;
       if out = None \<and> n \<noteq> 0 then State_Monad.return (-1)
       else calli os ''getsockopt'' [Fd actual, Num (c_int (a 1)), Num (c_int (a 2)), mem_arg out n, Mem (a 4) 4]
     }
   }"

definition px_recvfrom :: "'k px" where
  "px_recvfrom os h a = do {
     actual \<leftarrow> fd (c_int (a 0));
     buffer \<leftarrow> memory h (a 1) (a 2);
     len \<leftarrow> opt_memory h (a 5) 4;
     if actual < 0 \<or> (a 2 \<noteq> 0 \<and> buffer = None) \<or> (a 5 \<noteq> 0 \<and> len = None) then State_Monad.return (-1)
     else do {
       m \<leftarrow> peek_mem;
       let n = (case len of None \<Rightarrow> 0 | Some p \<Rightarrow> ucast (load32 m p));
       address \<leftarrow> (if a 4 \<noteq> 0 \<and> len \<noteq> None then memory h (a 4) n else State_Monad.return None);
       if a 4 \<noteq> 0 \<and> address = None then fail EFAULT
       else calli os ''recvfrom'' [Fd actual, mem_arg buffer (a 2), Num (uint (a 2)), Num (c_int (a 3)),
         mem_arg address n, mem_arg len 4]
     }
   }"

definition px_sendmsg :: "'k px" where
  "px_sendmsg os h a = network_message os h a False"

definition px_recvmsg :: "'k px" where
  "px_recvmsg os h a = network_message os h a True"

text \<open>The anonymous structure of \<^verbatim>\<open>PX_GETNAMEINFO\<close>: two pointers and their sizes.\<close>

definition nameinfo_layout :: layout where "nameinfo_layout = [U 8, U 8, U 4, U 4]"

definition px_getnameinfo :: "'k px" where
  "px_getnameinfo os h a = do {
     address \<leftarrow> memory h (a 0) (a 1);
     out \<leftarrow> memory h (a 2) 24;
     if address = None \<or> out = None then State_Monad.return EAI_SYSTEM
     else do {
       m \<leftarrow> peek_mem;
       let v = load_struct nameinfo_layout m (a 2);
       let node_size = (word_of_int (v ! 2) :: u64);
       let service_size = (word_of_int (v ! 3) :: u64);
       node \<leftarrow> opt_memory h (word_of_int (v ! 0)) node_size;
       service \<leftarrow> opt_memory h (word_of_int (v ! 1)) service_size;
       if (v ! 0 \<noteq> 0 \<and> node = None) \<or> (v ! 1 \<noteq> 0 \<and> service = None) then State_Monad.return EAI_SYSTEM
       else calli os ''getnameinfo'' [Mem (a 0) (unat (a 1)), Num (c_uint (a 1)), mem_arg node node_size,
         Num (v ! 2), mem_arg service service_size, Num (v ! 3), Num (c_int (a 3))]
     }
   }"

definition px_if_nametoindex :: "'k px" where
  "px_if_nametoindex os h a = with_string h (a 0) (\<lambda>name. do {
     rc \<leftarrow> calli os ''if_nametoindex'' [Str name];
     State_Monad.return (if rc \<noteq> 0 then rc else -1)
   })"

definition px_if_indextoname :: "'k px" where
  "px_if_indextoname os h a = do {
     name \<leftarrow> memory h (a 1) 16;
     if name = None then State_Monad.return (-1)
     else do {
       r \<leftarrow> calli os ''if_indextoname'' [Num (c_uint (a 0)), Mem (a 1) 16];
       State_Monad.return (if r < 0 then -1 else 0)
     }
   }"

definition network_table :: "(u64 \<times> 'k px) list" where
  "network_table =
    [(1000, px_socketpair), (1001, px_accept), (1002, px_getsockname), (1003, px_getpeername),
     (1004, px_getsockopt), (1005, px_recvfrom), (1006, px_sendmsg), (1007, px_recvmsg),
     (1008, network_addresses), (1009, px_getnameinfo), (1010, px_if_nametoindex),
     (1011, px_if_indextoname)]"

subsection \<open>Confinement\<close>

lemma safe_guest_copy:
  assumes "os_ok g os"
  shows "safe g (guest_copy os bs) (\<lambda>p. case p of None \<Rightarrow> True | Some a \<Rightarrow> range_ok g a (length bs))"
proof -
  have h: "ret r = 0 \<or> range_ok g (word_of_int (ret r)) (length bs)"
    if "\<exists>w. r = fst (os (Call ''bpf_capsule_malloc'' [Num (int (length bs))]) w)" for r
    using assms that unfolding os_ok_def os_heap_def Let_def by (metis nat_int)
  show ?thesis unfolding guest_copy_def calli_def
  proof (rule safe_bind_bind, rule safe_bindI [OF safe_call_raw [OF assms]], simp, rule safe_bind_return)
    fix r assume "\<exists>w. r = fst (os (Call ''bpf_capsule_malloc'' [Num (int (length bs))]) w)"
    from h [OF this] show "safe g (if ret r = 0 then do { set_errno ENOMEM; State_Monad.return None }
        else do { poke (word_of_int (ret r)) bs; State_Monad.return (Some (word_of_int (ret r))) })
        (\<lambda>p. case p of None \<Rightarrow> True | Some a \<Rightarrow> range_ok g a (length bs))"
      by (intro safe_rules) auto
  qed
qed

lemma safe_bind_guest_copy [safe_rules]:
  "os_ok g os \<Longrightarrow> safe g (f None) Q \<Longrightarrow> (\<And>a. range_ok g a (length bs) \<Longrightarrow> safe g (f (Some a)) Q) \<Longrightarrow>
     safe g (State_Monad.bind (guest_copy os bs) f) Q"
  by (rule safe_bindI [OF safe_guest_copy]) (auto split: option.splits)

lemma safe_bind_case_option [safe_rules]:
  "(x = None \<Longrightarrow> safe g (State_Monad.bind m f) Q) \<Longrightarrow> (\<And>y. x = Some y \<Longrightarrow> safe g (State_Monad.bind (n y) f) Q) \<Longrightarrow>
     safe g (State_Monad.bind (case x of None \<Rightarrow> m | Some y \<Rightarrow> n y) f) Q"
  by (cases x) auto

lemma safe_free_address_list: "os_ok g os \<Longrightarrow> safe g (free_address_list os n item) (\<lambda>_. True)"
  by (induction n arbitrary: item) (auto intro!: safe_rules)

lemma struct_sizes [simp]:
  "struct_size addrinfo_layout = 48" "struct_size msghdr_layout = 56" "struct_size iovec_layout = 16"
  by (simp_all add: addrinfo_layout_def msghdr_layout_def iovec_layout_def)

lemma safe_copy_addresses:
  assumes os: "os_ok g os"
  shows "(\<forall>q. previous = Some q \<longrightarrow> range_ok g q 48) \<Longrightarrow>
    safe g (copy_addresses os ps first previous n) (\<lambda>_. True)"
proof (induction ps arbitrary: first previous n)
  case (Cons p ps)
  then show ?case
    by (auto intro!: safe_rules range_ok_offset [where n = 48] os)
qed (auto intro: safe_rules)

lemma safe_bind_opt [safe_rules]:
  "geometry_ok g \<Longrightarrow> (\<And>p. safe g (f p) Q) \<Longrightarrow> safe g (State_Monad.bind (opt_string g x) f) Q"
  "geometry_ok g \<Longrightarrow> (\<And>p. p = None \<or> p = Some x \<and> range_ok g x (unat n) \<Longrightarrow> safe g (f' p) Q) \<Longrightarrow>
     safe g (State_Monad.bind (opt_memory g x n) f') Q"
  unfolding opt_string_def opt_memory_def by (intro safe_rules; auto)+

lemma arg_safe_str_arg [simp]: "arg_safe g (str_arg p)"
  by (simp add: str_arg_def split: option.splits)

lemma safe_network_addresses: "os_ok g os \<Longrightarrow> geometry_ok g \<Longrightarrow> safe g (network_addresses os g a) (\<lambda>_. True)"
  unfolding network_addresses_def
  by (intro safe_rules safe_bindI [OF safe_copy_addresses] safe_bindI [OF safe_free_address_list])
    (auto split: option.splits)

subsection \<open>Confinement of messages\<close>

lemma safe_rights_out:
  "safe g (rights_out k pos buf)
     (\<lambda>r. case r of None \<Rightarrow> True | Some (b, ds) \<Rightarrow> \<forall>d \<in> set ds. 0 \<le> d \<and> d < int MAX_FDS)"
proof (induction k arbitrary: pos buf)
  case (Suc k)
  show ?case unfolding rights_out.simps
    by (intro safe_rules safe_bindI [OF Suc.IH]) auto
qed (auto intro: safe_rules)

lemma safe_control_out:
  "safe g (control_out n offset buf)
     (\<lambda>r. case r of None \<Rightarrow> True | Some (b, ds) \<Rightarrow> \<forall>d \<in> set ds. 0 \<le> d \<and> d < int MAX_FDS)"
proof (induction n arbitrary: offset buf)
  case (Suc n)
  show ?case unfolding control_out.simps Let_def
    by (intro safe_rules safe_bindI [OF safe_rights_out] safe_bindI [OF Suc.IH]) (auto intro: Suc.IH)
qed (auto intro: safe_rules)

lemma safe_check_vectors:
  assumes "geometry_ok g"
  shows "safe g (check_vectors g n p) (\<lambda>r. case r of None \<Rightarrow> True | Some args \<Rightarrow> list_all (arg_safe g) args)"
proof (induction n arbitrary: p)
  case (Suc n)
  show ?case unfolding check_vectors.simps Let_def
    by (intro safe_rules safe_bindI [OF Suc.IH] assms) auto
qed (auto intro: safe_rules)

lemma held_length: "held is s \<Longrightarrow> length is \<le> MAX_FDS"
proof -
  assume "held is s"
  then have "distinct is" "set is \<subseteq> {..<MAX_FDS}" by (auto simp: held_def)
  then show ?thesis by (metis card_lessThan card_mono distinct_card finite_lessThan)
qed

lemma held_perm: "set is = set js \<Longrightarrow> distinct is = distinct js \<Longrightarrow> held is s = held js s"
  by (simp add: held_def)

lemma safe_from_note:
  "safe_from g (held (i # is)) (note_installed is) (\<lambda>_. held (is @ [i]))"
proof (rule safe_fromI)
  fix s :: "'a host" assume s: "host_inv s" "held (i # is) s"
  then have "length is < MAX_FDS" using held_length [of "i # is" s] by simp
  with s show "wp (note_installed is) (\<lambda>r t. confined g s t \<and> held (is @ [i]) t) s"
    by (auto simp: note_installed_def wp_update wp_return confined_refl held_def)
qed

abbreviation (input) received :: "byte list \<Rightarrow> byte list \<times> nat list \<times> bool \<Rightarrow> 'k host \<Rightarrow> bool" where
  "received buf r s \<equiv> held (fst (snd r)) s \<and> length (fst r) = length buf"

lemma safe_rights_in:
  assumes os: "os_ok g os"
  shows "safe_from g (held installed) (rights_in os k pos buf installed failed) (received buf)"
proof (induction k arbitrary: pos buf installed failed)
  case 0
  show ?case by (auto intro: safe_from_return)
next
  case (Suc k)
  have IH: "safe_from g (held is) (rights_in os k (pos + 4) (write_at pos bs buf) is f) (received buf)" for "is" bs f
    using Suc.IH [of "is" "pos + 4" "write_at pos bs buf" f] by simp
  show ?case unfolding rights_in.simps
  proof (intro safe_from_if safe_from_bind [OF safe_from_call [OF os]] safe_from_bind [OF safe_from_save_fd [OF os]])
    fix r :: int assume "r < 0"
    then show "safe_from g (\<lambda>s. if r < 0 then held installed s else r = int_at pos buf \<and> r < int MAX_FDS \<and> held (nat r # installed) s)
      (rights_in os k (pos + 4) buf installed True) (received buf)"
      by (simp add: Suc.IH)
  next
    fix r :: int assume r: "\<not> r < 0"
    let ?P = "\<lambda>s. if r < 0 then held installed s else r = int_at pos buf \<and> r < int MAX_FDS \<and> held (nat r # installed) s"
    have "safe_from g ?P (note_installed installed) (\<lambda>_. held (installed @ [nat r]))"
      by (rule safe_from_weaken [OF safe_from_note]) (use r in auto)
    then show "safe_from g ?P
      (do { note_installed installed;
            rights_in os k (pos + 4) (write_at pos (encode_int 4 r) buf) (installed @ [nat r]) failed })
      (received buf)"
      by (rule safe_from_bind) (rule IH)
  qed (auto intro: Suc.IH)
qed

lemma safe_from_fixed: "(\<And>s. P s \<Longrightarrow> p) \<Longrightarrow> (p \<Longrightarrow> safe_from g P m Q) \<Longrightarrow> safe_from g P m Q"
  by (auto simp: safe_from_def)

lemma safe_control_in:
  assumes os: "os_ok g os"
  shows "safe_from g (held installed) (control_in os n offset buf installed failed) (received buf)"
proof (induction n arbitrary: offset buf installed failed)
  case 0
  show ?case by (auto intro: safe_from_return)
next
  case (Suc n)
  let ?w = "decode_struct native_cmsghdr_layout (take 16 (drop offset buf))"
  have step: "safe_from g (held installed)
      (if ?w ! 1 = SOL_SOCKET \<and> ?w ! 2 = SCM_RIGHTS
       then rights_in os ((nat (?w ! 0) - 16) div 4) (offset + 16) buf installed failed
       else State_Monad.return (buf, installed, failed)) (received buf)"
    by (intro safe_from_if safe_rights_in os safe_from_return) simp
  have IH: "safe_from g (\<lambda>s. held is s \<and> length b = length buf) (control_in os n off b is f) (received buf)" for off b "is" f
    by (rule safe_from_fixed [where p = "length b = length buf"])
      (use Suc.IH [of "is" off b f] in \<open>auto simp: safe_from_def\<close>)
  show ?case unfolding control_in.simps Let_def
    by (intro safe_from_if safe_from_return safe_from_bind [OF step])
      (auto split: prod.splits intro!: safe_from_return IH)
qed

lemma safe_drop_fds:
  assumes "os_ok g os"
  shows "safe_from g (held is) (drop_fds os is) (\<lambda>_ _. True)"
proof (induction "is")
  case (Cons i "is")
  then show ?case unfolding drop_fds.simps
    by (intro safe_from_bind [OF safe_from_drop_fd [OF assms]])
qed (auto intro: safe_from_return)

lemma safe_finish_receive:
  assumes os: "os_ok g os" and wire: "range_ok g wire 56"
    and control: "\<forall>p. guest_control = Some p \<longrightarrow> range_ok g p (length (payload r))"
  shows "safe g (finish_receive os wire guest_control r) (\<lambda>_. True)"
proof -
  have "safe_from g (\<lambda>s. held installed s \<and> length buf = length (payload r))
      (if failed then do { drop_fds os installed; fail EMFILE }
       else do {
         poke (wire + 8) (encode_int 4 (nums r ! 0));
         poke (wire + 40) (encode_int 4 (nums r ! 1));
         poke (wire + 48) (encode_int 4 (nums r ! 2));
         (case guest_control of None \<Rightarrow> State_Monad.return () | Some p \<Rightarrow> poke p buf);
         State_Monad.return (ret r)
       }) (\<lambda>_ _. True)" for buf :: "byte list" and installed failed
  proof (intro safe_from_if)
    show "safe_from g (\<lambda>s. held installed s \<and> length buf = length (payload r))
        (do { drop_fds os installed; fail EMFILE }) (\<lambda>_ _. True)"
      by (rule safe_from_weaken [OF safe_from_bind [OF safe_drop_fds [OF os] safe_from_plain [OF safe_fail]]]) auto
    show "safe_from g (\<lambda>s. held installed s \<and> length buf = length (payload r)) (do {
         poke (wire + 8) (encode_int 4 (nums r ! 0));
         poke (wire + 40) (encode_int 4 (nums r ! 1));
         poke (wire + 48) (encode_int 4 (nums r ! 2));
         (case guest_control of None \<Rightarrow> State_Monad.return () | Some p \<Rightarrow> poke p buf);
         State_Monad.return (ret r)
       }) (\<lambda>_ _. True)"
      by (rule safe_from_fixed [where p = "length buf = length (payload r)"], simp,
          rule safe_from_plain, intro safe_rules range_ok_offset [OF wire])
        (use control in auto)
  qed
  moreover have "safe_from g (\<lambda>_. True) (control_in os (length (payload r)) 0 (payload r) [] False)
      (received (payload r))"
    by (rule safe_from_weaken [OF safe_control_in [OF os, of "[]"]]) (auto simp: held_def)
  ultimately show ?thesis unfolding finish_receive_def
    by (intro safe_from_start [where Q = "\<lambda>_ _. True"], elim safe_from_bind) (simp_all split: prod.split)
qed

lemma safe_bind_call_raw:
  assumes "os_ok g os" "list_all (arg_safe g) args"
    "\<And>r w. r = fst (os (Call nm args) w) \<Longrightarrow> safe g (f r) Q"
  shows "safe g (State_Monad.bind (call os nm args) f) Q"
  by (rule safe_bindI [OF safe_call_raw [OF assms(1,2)]]) (use assms(3) in blast)

lemma received_fits:
  assumes "os_ok g os" "r = fst (os (Call ''recvmsg'' args) w)" "Bytes bs \<in> set args" "range_ok g p (length bs)"
  shows "range_ok g p (length (payload r))"
  using assms by (auto simp: os_ok_def os_receive_def intro: range_ok_mono)

lemma control_length: "0 \<le> n \<Longrightarrow> n \<le> 65536 \<Longrightarrow> unat (word_of_int n :: u64) = nat n"
  by (simp add: unsigned_of_int take_bit_int_eq_self)

lemma msghdr_controllen: "0 \<le> load_struct msghdr_layout m p ! 5"
  by (simp add: load_struct_def msghdr_layout_def)

lemma safe_message_transfer:
  assumes os: "os_ok g os" and g: "geometry_ok g" and wire: "range_ok g (a 1) 56"
    and d: "0 \<le> actual" "actual < int MAX_FDS" and vs: "list_all (arg_safe g) vs" "arg_safe g name_arg"
    and c: "0 \<le> w ! 5" "w ! 5 \<le> 65536"
  shows "safe g (message_transfer os g a receiving actual w vs name_arg) (\<lambda>_. True)"
proof -
  have plain: "safe g (finish_receive os (a 1) None r) (\<lambda>_. True)" for r
    by (rule safe_finish_receive [OF os wire]) simp
  have rights: "safe g (finish_receive os (a 1) (Some p) r) (\<lambda>_. True)"
    if "range_ok g p (nat (w ! 5))" "r = fst (os (Call ''recvmsg'' (Fd actual # vs @
      [name_arg, Bytes (replicate (nat (w ! 5)) 0), Num (c_int (a 2))])) x)" for p r x
    by (rule safe_finish_receive [OF os wire])
      (use received_fits [OF os that(2), of "replicate (nat (w ! 5)) 0"] that(1) in auto)
  show ?thesis unfolding message_transfer_def Let_def
    by (intro safe_if safe_bind_memory [OF g] safe_bind_calli [OF os] safe_bind_call_raw [OF os] safe_return
        safe_bind_peek_mem safe_bindI [OF safe_control_out] safe_case_option safe_case_prod safe_calli [OF os]
        plain rights)
      (use d vs c in \<open>auto simp: control_length list_all_iff\<close>)
qed

lemma safe_network_message:
  assumes os: "os_ok g os" and g: "geometry_ok g"
  shows "safe g (network_message os g a receiving) (\<lambda>_. True)"
  unfolding network_message_def Let_def
  by (intro safe_rules os g safe_bindI [OF safe_check_vectors [OF g]] safe_message_transfer)
    (auto simp: msghdr_controllen)

lemma poke_fds: "wp (poke a bs) (\<lambda>r t. fds t = fds s) s"
  by (simp add: poke_def wp_update)

lemma safe_socketpair:
  assumes os: "os_ok g os" and g: "geometry_ok g"
  shows "safe g (px_socketpair os g a) (\<lambda>_. True)"
proof -
  have put: "safe_from g (held is) (poke p (encode_int 4 v)) (\<lambda>_. held is)"
    if "range_ok g p 4" for p v "is"
    by (rule safe_from_weaken [OF safe_from_held [OF safe_poke poke_fds]]) (use that in auto)
  have second: "safe_from g (held [i]) (do {
      second \<leftarrow> save_fd os y 0;
      poke (a 3 + 4) (encode_int 4 second);
      if second < 0 then do { drop_fd os i; State_Monad.return (-1) } else State_Monad.return 0
    }) (\<lambda>_ _. True)" if "range_ok g (a 3) 8" for i y
  proof (rule safe_from_bind [OF safe_from_save_fd [OF os]])
    fix r :: int
    have "range_ok g (a 3 + 4) 4" by (rule range_ok_offset [OF that]) simp
    note w = put [OF this, of _ r]
    show "safe_from g (\<lambda>s. if r < 0 then held [i] s else r = y \<and> r < int MAX_FDS \<and> held [nat r, i] s)
      (do { poke (a 3 + 4) (encode_int 4 r);
        if r < 0 then do { drop_fd os i; State_Monad.return (-1) } else State_Monad.return 0 }) (\<lambda>_ _. True)"
    proof (cases "r < 0")
      case True
      then show ?thesis
        by (simp, intro safe_from_bind [OF w [of "[i]"]] safe_from_bind [OF safe_from_drop_fd [OF os]]
            safe_from_return TrueI)
    next
      case False
      then show ?thesis
        using \<open>range_ok g (a 3 + 4) 4\<close> by (auto intro!: safe_from_plain [where Q = "\<lambda>_. True"] safe_rules)
    qed
  qed
  have first: "safe g (do {
      first \<leftarrow> save_fd os x 0;
      poke (a 3) (encode_int 4 first);
      if first < 0 then do { _ \<leftarrow> call os ''close'' [New y]; State_Monad.return (-1) }
      else do {
        second \<leftarrow> save_fd os y 0;
        poke (a 3 + 4) (encode_int 4 second);
        if second < 0 then do { drop_fd os (nat first); State_Monad.return (-1) } else State_Monad.return 0
      } }) (\<lambda>_. True)" if r: "range_ok g (a 3) 8" for x y
  proof (rule safe_from_start [where Q = "\<lambda>_ _. True"], rule safe_from_bind)
    show "safe_from g (\<lambda>_. True) (save_fd os x 0) (\<lambda>r s. held (if r < 0 then [] else [nat r]) s)"
      by (rule safe_from_weaken [OF safe_from_save_fd [OF os, of "[]"]]) (auto simp: held_def split: if_splits)
    fix r :: int
    have "range_ok g (a 3) 4" using range_ok_mono [OF r, of 4] by simp
    note w = put [OF this, of "if r < 0 then [] else [nat r]" r]
    show "safe_from g (\<lambda>s. held (if r < 0 then [] else [nat r]) s) (do {
      poke (a 3) (encode_int 4 r);
      if r < 0 then do { _ \<leftarrow> call os ''close'' [New y]; State_Monad.return (-1) }
      else do {
        second \<leftarrow> save_fd os y 0;
        poke (a 3 + 4) (encode_int 4 second);
        if second < 0 then do { drop_fd os (nat r); State_Monad.return (-1) } else State_Monad.return 0
      } }) (\<lambda>_ _. True)"
      by (rule safe_from_bind [OF w], rule safe_from_if)
        (auto intro!: safe_from_plain safe_rules os second r)
  qed simp
  show ?thesis unfolding px_socketpair_def
    by (intro safe_rules os g first) auto
qed

lemma safe_with_address [safe_rules]:
  "geometry_ok g \<Longrightarrow> (\<And>d x y. 0 \<le> d \<Longrightarrow> d < int MAX_FDS \<Longrightarrow> arg_safe g x \<Longrightarrow> arg_safe g y \<Longrightarrow> safe g (f d x y) Q) \<Longrightarrow>
     Q (-1) \<Longrightarrow> safe g (with_address g a f) Q"
  unfolding with_address_def by (intro safe_rules) (auto split: option.splits)

lemma network_table_safe:
  assumes os: "os_ok g os" and g: "geometry_ok g"
  shows "list_all (\<lambda>e. safe g (snd e os g a) (\<lambda>_. True)) network_table"
proof -
  have "safe g (px_getnameinfo os g a) (\<lambda>_. True)"
    unfolding px_getnameinfo_def Let_def by (intro safe_rules os g) auto
  moreover have "safe g (px_recvfrom os g a) (\<lambda>_. True)"
    unfolding px_recvfrom_def Let_def by (intro safe_rules os g) (auto split: option.splits)
  moreover have "safe g (px_getsockopt os g a) (\<lambda>_. True)"
    unfolding px_getsockopt_def Let_def by (intro safe_rules os g) (auto split: option.splits)
  moreover have "safe g (px_accept os g a) (\<lambda>_. True)" "safe g (px_getsockname os g a) (\<lambda>_. True)"
    "safe g (px_getpeername os g a) (\<lambda>_. True)" "safe g (px_if_nametoindex os g a) (\<lambda>_. True)"
    "safe g (px_if_indextoname os g a) (\<lambda>_. True)"
    unfolding px_accept_def px_getsockname_def px_getpeername_def px_if_nametoindex_def px_if_indextoname_def
    by (intro safe_rules os g; simp)+
  ultimately show ?thesis
    using safe_network_message [OF os g] safe_network_addresses [OF os g] safe_socketpair [OF os g]
    by (simp add: network_table_def px_sendmsg_def px_recvmsg_def)
qed

end
