(* ===== verification/Bridge_Calendar.thy ===== *)
theory Bridge_Calendar
  imports Bridge_Net
begin

text \<open>
  The calendar formatter (\<^verbatim>\<open>src/src/calendar_host.h\<close>). The C library must not see the
  guest's time zone name, so \<^verbatim>\<open>format_calendar\<close> replaces every \<^verbatim>\<open>%Z\<close> conversion by
  the name, quoted, before it calls \<^verbatim>\<open>strftime\<close>. The expansion is \<open>expand_format\<close>; what
  it means is stated over the conversions of a format (\<open>tokens\<close>).
\<close>

subsection \<open>The expansion\<close>

definition zone_flag :: "char \<Rightarrow> bool" where
  "zone_flag c \<longleftrightarrow> c \<in> set ''_-0^#''"

text \<open>The flag loop: \<^verbatim>\<open>pad\<close>, \<^verbatim>\<open>no_pad\<close>, \<^verbatim>\<open>uppercase\<close> and what follows the flags.\<close>

fun zone_flags :: "char \<times> bool \<times> bool \<Rightarrow> string \<Rightarrow> (char \<times> bool \<times> bool) \<times> string" where
  "zone_flags st [] = (st, [])"
| "zone_flags (pad, no_pad, uppercase) (c # cs) =
     (if zone_flag c then
        let no_pad = (if c = CHR ''-'' then True else no_pad);
            (no_pad, pad) = (if c = CHR ''_'' \<or> c = CHR ''0''
              then (False, if c = CHR ''0'' then CHR ''0'' else CHR '' '') else (no_pad, pad));
            uppercase = (if c = CHR ''^'' \<or> c = CHR ''#'' then True else uppercase)
        in zone_flags (pad, no_pad, uppercase) cs
      else ((pad, no_pad, uppercase), c # cs))"

text \<open>The width loop, which saturates at \<^verbatim>\<open>size\<close>.\<close>

fun zone_width :: "nat \<Rightarrow> nat \<Rightarrow> string \<Rightarrow> nat \<times> string" where
  "zone_width n w [] = (w, [])"
| "zone_width n w (c # cs) =
     (if is_digit c then
        let digit = digit_value c
        in zone_width n (if digit \<ge> n \<or> w > (n - digit) div 10 then n else w * 10 + digit) cs
      else (w, c # cs))"

definition toupper :: "char \<Rightarrow> char" where
  "toupper c = (if of_char c \<in> {97 :: nat..122} then char_of (of_char c - 32 :: nat) else c)"

text \<open>Copying the name, doubling \<^verbatim>\<open>%\<close>; \<open>None\<close> is the jump to \<^verbatim>\<open>fail\<close>.\<close>

fun quote_name :: "bool \<Rightarrow> nat \<Rightarrow> string \<Rightarrow> nat \<Rightarrow> string option" where
  "quote_name uppercase capacity [] used = Some []"
| "quote_name uppercase capacity (c # name) used =
     (if used + 2 \<ge> capacity then None
      else let text = (if c = CHR ''%'' then [c] else []) @ [if uppercase then toupper c else c]
           in map_option (append text) (quote_name uppercase capacity name (used + length text)))"

lemma zone_flags_rest: "snd (zone_flags st cs) = dropWhile zone_flag cs"
  by (induction st cs rule: zone_flags.induct) (auto simp: Let_def split: prod.splits if_splits)

lemma zone_width_rest: "snd (zone_width n w cs) = dropWhile is_digit cs"
  by (induction n w cs rule: zone_width.induct) (auto simp: Let_def)

lemma after_conversion: "length (snd (zone_width n w (snd (zone_flags st cs)))) \<le> length cs"
  unfolding zone_width_rest zone_flags_rest
  using length_dropWhile_le [of zone_flag cs] length_dropWhile_le [of is_digit "dropWhile zone_flag cs"]
  by simp

text \<open>
  The main loop from position \<open>used\<close> of the output on. A conversion is copied, or, when it is
  \<^verbatim>\<open>%Z\<close>, replaced by padding and the quoted name.
\<close>

function expand_format :: "nat \<Rightarrow> nat \<Rightarrow> string \<Rightarrow> string \<Rightarrow> nat \<Rightarrow> string option" where
  "expand_format n capacity name [] used = Some []"
| "expand_format n capacity name (c # cs) used =
     (if c \<noteq> CHR ''%'' then
        if used + 1 \<ge> capacity then None
        else map_option (Cons c) (expand_format n capacity name cs (used + 1))
      else
        let fl = zone_flags (CHR '' '', False, False) cs;
            wd = zone_width n 0 (snd fl);
            at2 = snd wd;
            at3 = drop 1 at2
        in if at2 = [] \<or> hd at2 \<noteq> CHR ''Z'' then
             let count = length (c # cs) - length at3 in
             if count \<ge> capacity - used then None
             else map_option (append (take count (c # cs)))
                    (expand_format n capacity name at3 (used + count))
           else
             let pad = fst (fst fl);
                 no_pad = fst (snd (fst fl));
                 uppercase = snd (snd (fst fl));
                 width = fst wd;
                 name_length = length name;
                 padding = (if \<not> no_pad \<and> width > name_length then width - name_length else 0)
             in if name_length \<ge> n \<or> padding \<ge> n - name_length \<or> padding \<ge> capacity - used then None
                else case quote_name uppercase capacity name (used + padding) of
                       None \<Rightarrow> None
                     | Some text \<Rightarrow>
                         map_option (\<lambda>rest. replicate padding pad @ text @ rest)
                           (expand_format n capacity name at3 (used + padding + length text)))"
  by pat_completeness auto

termination
proof (relation "measure (\<lambda>(n, capacity, name, cs, used). length cs)", goal_cases)
  case (3 n capacity name c cs)
  then show ?case using after_conversion [of n 0 "(CHR '' '', False, False)" cs] by simp
next
  case (4 n capacity name c cs)
  then show ?case using after_conversion [of n 0 "(CHR '' '', False, False)" cs] by simp
qed simp_all

definition calendar_layout :: layout where
  "calendar_layout = replicate 9 (I 4) @ [Pad 4, I 8, U 8]"

text \<open>
  \<open>v\<close> is the members of \<^verbatim>\<open>struct bridge_calendar\<close> in order; the native \<^verbatim>\<open>struct tm\<close>
  is its first ten and the zone.
\<close>

definition format_calendar ::
  "'k machine os \<Rightarrow> u64 \<Rightarrow> u64 \<Rightarrow> string \<Rightarrow> int list \<Rightarrow> string option \<Rightarrow> ('k, int) hostm" where
  "format_calendar os out n format v zone =
     (let native = [Nums (take 10 v), str_arg zone] in
      if n = 0 then State_Monad.return 0
      else if CHR ''Z'' \<notin> set format then
        calli os ''strftime'' ([Mem out (unat n), Num (uint n), Str format] @ native)
      else if uint n > (2 ^ 64 - 1 - int (length format) - 1) div 2 then State_Monad.return 0
      else do {
        let capacity = length format + 2 * unat n + 1;
        expanded \<leftarrow> calli os ''malloc'' [Num (int capacity)];
        if expanded = 0 then State_Monad.return 0
        else
          let name = (case zone of Some z \<Rightarrow> if v ! 8 \<ge> 0 then z else [] | None \<Rightarrow> [])
          in case expand_format (unat n) capacity name format 0 of
               None \<Rightarrow> State_Monad.return 0
             | Some text \<Rightarrow>
                 calli os ''strftime'' ([Mem out (unat n), Num (uint n), Str text] @ native)
      })"


subsection \<open>The meaning of a format\<close>

text \<open>
  A format is a sequence of literal characters and conversions, a conversion being its flags and
  width and its final character; \<open>Tail\<close> is a conversion the format ends in. \<open>substitute\<close> is
  what the expansion should do to each of them.
\<close>

datatype token = Lit char | Conv string char | Tail string

function tokens :: "string \<Rightarrow> token list" where
  "tokens [] = []"
| "tokens (c # cs) =
     (if c \<noteq> CHR ''%'' then Lit c # tokens cs
      else let r1 = dropWhile zone_flag cs;
               spec = takeWhile zone_flag cs @ takeWhile is_digit r1;
               r2 = dropWhile is_digit r1
           in if r2 = [] then [Tail spec] else Conv spec (hd r2) # tokens (tl r2))"
  by pat_completeness auto

termination
proof (relation "measure length", goal_cases)
  case (3 c cs)
  then show ?case
    using length_dropWhile_le [of zone_flag cs] length_dropWhile_le [of is_digit "dropWhile zone_flag cs"]
    by simp
qed simp_all

definition zone_tokens :: "nat \<Rightarrow> string \<Rightarrow> string \<Rightarrow> token list" where
  "zone_tokens n name spec =
     (let fl = zone_flags (CHR '' '', False, False) spec;
          width = fst (zone_width n 0 (snd fl));
          padding = (if \<not> fst (snd (fst fl)) \<and> width > length name then width - length name else 0)
      in replicate padding (Lit (fst (fst fl))) @
         map (\<lambda>c. if c = CHR ''%'' then Conv [] c
                  else Lit (if snd (snd (fst fl)) then toupper c else c)) name)"

definition substitute :: "nat \<Rightarrow> string \<Rightarrow> token \<Rightarrow> token list" where
  "substitute n name t =
     (case t of Conv spec d \<Rightarrow> if d = CHR ''Z'' then zone_tokens n name spec else [t] | _ \<Rightarrow> [t])"

lemma substitute_simps [simp]:
  "substitute n name (Lit c) = [Lit c]" "substitute n name (Tail spec) = [Tail spec]"
  "d \<noteq> CHR ''Z'' \<Longrightarrow> substitute n name (Conv spec d) = [Conv spec d]"
  "substitute n name (Conv spec (CHR ''Z'')) = zone_tokens n name spec"
  by (simp_all add: substitute_def)

declare expand_format.simps(2) [simp del] tokens.simps(2) [simp del]

lemma toupper_percent: "toupper c = CHR ''%'' \<longleftrightarrow> c = CHR ''%''"
proof (cases "of_char c \<in> {97 :: nat..122}")
  case True
  then have "(of_char c - 32 :: nat) < 256" by auto
  with True have "of_char (toupper c) = (of_char c - 32 :: nat)" by (simp add: toupper_def)
  with True have "toupper c \<noteq> CHR ''%''" by auto
  with True show ?thesis by auto
next
  case False
  then show ?thesis by (auto simp: toupper_def)
qed

lemma tokens_literal [simp]: "c \<noteq> CHR ''%'' \<Longrightarrow> tokens (c # cs) = Lit c # tokens cs"
  by (simp add: tokens.simps)

lemma percent_plain [simp]: "\<not> zone_flag (CHR ''%'')" "\<not> is_digit (CHR ''%'')"
  by (simp_all add: zone_flag_def is_digit_def)

lemma tokens_percent [simp]: "tokens (CHR ''%'' # CHR ''%'' # cs) = Conv [] (CHR ''%'') # tokens cs"
  by (subst tokens.simps) (simp add: Let_def)

lemma tokens_padding: "c \<noteq> CHR ''%'' \<Longrightarrow> tokens (replicate k c @ cs) = replicate k (Lit c) @ tokens cs"
  by (induction k) auto

lemma tokens_quoted:
  "quote_name up capacity name used = Some out \<Longrightarrow>
     tokens (out @ rest) =
       map (\<lambda>c. if c = CHR ''%'' then Conv [] c else Lit (if up then toupper c else c)) name @ tokens rest"
  by (induction up capacity name used arbitrary: out rule: quote_name.induct)
    (auto simp: Let_def toupper_percent toupper_percent [THEN iffD2] split: if_splits)

lemma zone_flags_prefix: "fst (zone_flags st cs) = fst (zone_flags st (takeWhile zone_flag cs))"
  by (induction st cs rule: zone_flags.induct) (auto simp: Let_def split: prod.splits)

lemma zone_width_prefix: "fst (zone_width n w cs) = fst (zone_width n w (takeWhile is_digit cs))"
  by (induction n w cs rule: zone_width.induct) (auto simp: Let_def)

lemma zone_flags_pad:
  "fst st \<noteq> CHR ''%'' \<Longrightarrow> fst (fst (zone_flags st cs)) \<noteq> CHR ''%''"
  by (induction st cs rule: zone_flags.induct) (auto simp: Let_def split: prod.splits if_splits)

text \<open>The parts of a conversion do not depend on what follows it.\<close>

lemma conversion_parts:
  fixes cs
  defines "fl \<equiv> takeWhile zone_flag cs" and "w \<equiv> takeWhile is_digit (dropWhile zone_flag cs)"
  assumes "rest = [] \<or> (\<exists>d r3. dropWhile is_digit (dropWhile zone_flag cs) = d # r3 \<and> hd rest = d)"
  shows "takeWhile zone_flag (fl @ w @ rest) = fl" "dropWhile zone_flag (fl @ w @ rest) = w @ rest"
    "takeWhile is_digit (w @ rest) = w" "dropWhile is_digit (w @ rest) = rest"
proof -
  have fl: "\<forall>c \<in> set fl. zone_flag c" by (auto simp: fl_def dest: set_takeWhileD)
  have w: "\<forall>c \<in> set w. is_digit c" by (auto simp: w_def dest: set_takeWhileD)
  have h: "w @ rest = [] \<or> \<not> zone_flag (hd (w @ rest))"
  proof (cases w)
    case Nil
    show ?thesis
    proof (cases "rest = []")
      case False
      with assms(3) obtain d r3 where d: "dropWhile is_digit (dropWhile zone_flag cs) = d # r3" "hd rest = d"
        by auto
      from Nil have "dropWhile zone_flag cs = d # r3"
        using d(1) takeWhile_dropWhile_id [of is_digit "dropWhile zone_flag cs"] by (simp add: w_def)
      then have "\<not> zone_flag d" by (metis dropWhile_eq_Cons_conv)
      with Nil d show ?thesis by simp
    qed (simp add: Nil)
  next
    case (Cons x xs)
    then have "dropWhile zone_flag cs \<noteq> [] \<and> x = hd (dropWhile zone_flag cs)"
      by (cases "dropWhile zone_flag cs") (auto simp: w_def split: if_splits)
    then have "\<not> zone_flag x" by (metis hd_dropWhile)
    with Cons show ?thesis by simp
  qed
  have r: "rest = [] \<or> \<not> is_digit (hd rest)"
    using assms(3) hd_dropWhile [of is_digit "dropWhile zone_flag cs"] by force
  show "takeWhile zone_flag (fl @ w @ rest) = fl" "dropWhile zone_flag (fl @ w @ rest) = w @ rest"
    using fl h by (cases "w @ rest"; simp add: takeWhile_append dropWhile_append)+
  show "takeWhile is_digit (w @ rest) = w" "dropWhile is_digit (w @ rest) = rest"
    using w r by (cases rest; simp add: takeWhile_append dropWhile_append)+
qed


lemma spec_parts:
  fixes cs
  defines "spec \<equiv> takeWhile zone_flag cs @ takeWhile is_digit (dropWhile zone_flag cs)"
  shows "fst (zone_flags st spec) = fst (zone_flags st cs)"
    "fst (zone_width n w (snd (zone_flags st spec))) = fst (zone_width n w (snd (zone_flags st cs)))"
  using conversion_parts [of "[]" cs] zone_flags_prefix [of st spec] zone_flags_prefix [of st cs]
    zone_width_prefix [of n w "dropWhile zone_flag cs"]
  by (simp_all add: spec_def zone_flags_rest)

lemma tokens_conversion:
  fixes cs rest
  defines "spec \<equiv> takeWhile zone_flag cs @ takeWhile is_digit (dropWhile zone_flag cs)"
  assumes "dropWhile is_digit (dropWhile zone_flag cs) = d # r3"
  shows "tokens (CHR ''%'' # spec @ d # rest) = Conv spec d # tokens rest"
  using conversion_parts [of "d # rest" cs] assms(2)
  by (subst tokens.simps) (simp add: spec_def Let_def del: dropWhile_eq_Nil_conv)

lemma take_conversion:
  fixes cs
  defines "r2 \<equiv> dropWhile is_digit (dropWhile zone_flag cs)"
  shows "take (length (c # cs) - length (drop 1 r2)) (c # cs) =
    c # takeWhile zone_flag cs @ takeWhile is_digit (dropWhile zone_flag cs) @ take 1 r2"
proof -
  have "cs = (takeWhile zone_flag cs @ takeWhile is_digit (dropWhile zone_flag cs) @ take 1 r2) @ drop 1 r2"
    by (simp add: r2_def)
  then show ?thesis
    by (metis Cons_eq_appendI append_eq_conv_conj diff_add_inverse2 length_append length_Cons add_Suc)
qed

text \<open>The three ways a turn of the main loop can go on.\<close>

lemma expand_step:
  assumes "expand_format n capacity name (c # cs) used = Some e"
  obtains (literal) e' where "c \<noteq> CHR ''%''" "used + 1 < capacity" "e = c # e'"
      "expand_format n capacity name cs (used + 1) = Some e'"
  | (copied) spec r2 e' where "c = CHR ''%''" "spec = takeWhile zone_flag cs @ takeWhile is_digit (dropWhile zone_flag cs)"
      "r2 = dropWhile is_digit (dropWhile zone_flag cs)" "r2 = [] \<or> hd r2 \<noteq> CHR ''Z''"
      "e = c # spec @ take 1 r2 @ e'" "used + length (c # spec @ take 1 r2) < capacity"
      "expand_format n capacity name (drop 1 r2) (used + length (c # spec @ take 1 r2)) = Some e'"
  | (zone) fl up padding r3 out e' where "c = CHR ''%''" "fl = zone_flags (CHR '' '', False, False) cs"
      "dropWhile is_digit (dropWhile zone_flag cs) = CHR ''Z'' # r3" "up = snd (snd (fst fl))"
      "padding = (if \<not> fst (snd (fst fl)) \<and> fst (zone_width n 0 (snd fl)) > length name
         then fst (zone_width n 0 (snd fl)) - length name else 0)"
      "e = replicate padding (fst (fst fl)) @ out @ e'" "used + padding < capacity"
      "quote_name up capacity name (used + padding) = Some out"
      "expand_format n capacity name r3 (used + padding + length out) = Some e'"
proof -
  define fl where "fl = zone_flags (CHR '' '', False, False) cs"
  define r2 where "r2 = dropWhile is_digit (dropWhile zone_flag cs)"
  define spec where "spec = takeWhile zone_flag cs @ takeWhile is_digit (dropWhile zone_flag cs)"
  define padding where "padding =
    (if \<not> fst (snd (fst fl)) \<and> fst (zone_width n 0 (snd fl)) > length name
     then fst (zone_width n 0 (snd fl)) - length name else 0)"
  have r2: "snd (zone_width n 0 (snd fl)) = r2"
    by (simp add: fl_def r2_def zone_width_rest zone_flags_rest)
  have taken: "take (length (c # cs) - length (drop 1 r2)) (c # cs) = c # spec @ take 1 r2"
    using take_conversion [of c cs] by (simp add: r2_def spec_def)
  then have count: "length (c # cs) - length (drop 1 r2) = length (c # spec @ take 1 r2)"
    by (metis diff_le_self length_take min.absorb2)
  note body = assms [unfolded expand_format.simps(2) fl_def [symmetric] Let_def r2 padding_def [symmetric]]
  consider "c \<noteq> CHR ''%''" | "c = CHR ''%''" "r2 = [] \<or> hd r2 \<noteq> CHR ''Z''" | "c = CHR ''%''" "\<not> (r2 = [] \<or> hd r2 \<noteq> CHR ''Z'')"
    by blast
  then show thesis
  proof cases
    case 1
    with body literal show thesis by (auto split: if_splits)
  next
    case 2
    from body [unfolded if_P [OF 2(2)] taken, unfolded count] 2(1) copied [OF 2(1) spec_def r2_def 2(2)]
    show thesis by (auto split: if_splits)
  next
    case 3
    then obtain r3 where r3: "r2 = CHR ''Z'' # r3" by (cases r2) auto
    from body [unfolded if_not_P [OF 3(2)]] 3(1) r3 zone [OF 3(1) fl_def _ refl padding_def, of r3]
    show thesis by (auto simp: r2_def split: if_splits option.splits)
  qed
qed

lemma after_parts: "length (drop 1 (dropWhile is_digit (dropWhile zone_flag cs))) < length (c # cs)"
  using after_conversion [of n 0 "(CHR '' '', False, False)" cs] by (simp add: zone_width_rest zone_flags_rest)

lemma tokens_expanded:
  assumes "c = CHR ''%''" "dropWhile is_digit (dropWhile zone_flag cs) = d # r3"
  shows "tokens (c # cs) = Conv (takeWhile zone_flag cs @ takeWhile is_digit (dropWhile zone_flag cs)) d # tokens r3"
  using assms(2) by (subst tokens.simps) (simp add: assms(1) Let_def del: dropWhile_eq_Nil_conv)

lemma expand_tokens:
  "expand_format n capacity name cs used = Some e \<Longrightarrow>
     tokens e = concat (map (substitute n name) (tokens cs))"
proof (induction cs arbitrary: used e rule: length_induct)
  case (1 cs)
  show ?case
  proof (cases cs)
    case Nil
    with 1 show ?thesis by simp
  next
    case cs: (Cons c cs')
    note shorter = 1(1) [rule_format, unfolded cs]
    from 1(2) [unfolded cs] show ?thesis
    proof (cases rule: expand_step)
      case (literal e')
      then show ?thesis using shorter [of cs' "used + 1" e'] by (simp add: cs)
    next
      case (copied spec r2 e')
      have IH: "tokens e' = concat (map (substitute n name) (tokens (drop 1 r2)))"
        using copied shorter [OF _ copied(7)] after_parts [of cs' c] by simp
      show ?thesis
      proof (cases r2)
        case Nil
        then have "e' = []" using copied(7) by simp
        with Nil copied have "e = c # cs'" by (metis append_Nil2 takeWhile_dropWhile_id append_assoc take_Nil)
        moreover have "tokens (c # cs') = [Tail spec]"
          using Nil copied by (subst tokens.simps) (simp add: Let_def del: dropWhile_eq_Nil_conv)
        ultimately show ?thesis by (simp add: cs)
      next
        case (Cons d r3)
        then have "tokens e = Conv spec d # tokens e'"
          using copied tokens_conversion [of cs' d r3 e'] by simp
        with Cons copied IH show ?thesis
          using tokens_expanded [of c cs' d r3] by (simp add: cs)
      qed
    next
      case (zone fl up padding r3 out e')
      have IH: "tokens e' = concat (map (substitute n name) (tokens r3))"
        using zone(3) shorter [OF _ zone(9)] after_parts [of cs' c] by simp
      have "tokens e = zone_tokens n name (takeWhile zone_flag cs' @ takeWhile is_digit (dropWhile zone_flag cs')) @ tokens e'"
        using zone zone_flags_pad [of "(CHR '' '', False, False)" cs'] spec_parts [where cs = cs']
        by (simp add: tokens_padding tokens_quoted [OF zone(8)] zone_tokens_def)
      with zone IH show ?thesis
        using tokens_expanded [of c cs' "CHR ''Z''" r3] by (simp add: cs)
    qed
  qed
qed

lemma quote_name_bound:
  "quote_name up capacity name used = Some out \<Longrightarrow> used < capacity \<Longrightarrow> used + length out < capacity"
  by (induction up capacity name used arbitrary: out rule: quote_name.induct)
    (auto simp: Let_def split: if_splits)

lemma expand_bound:
  "expand_format n capacity name cs used = Some e \<Longrightarrow> used < capacity \<Longrightarrow> used + length e < capacity"
proof (induction cs arbitrary: used e rule: length_induct)
  case (1 cs)
  show ?case
  proof (cases cs)
    case Nil
    with 1 show ?thesis by simp
  next
    case (Cons c cs')
    note shorter = 1(1) [rule_format, unfolded Cons]
    from 1(2) [unfolded Cons] show ?thesis
    proof (cases rule: expand_step)
      case (literal e')
      then show ?thesis using shorter [of cs' "used + 1" e'] by simp
    next
      case (copied spec r2 e')
      then show ?thesis using shorter [OF _ copied(7)] after_parts [of cs' c] by simp
    next
      case (zone fl up padding r3 out e')
      then have "used + padding + length out < capacity" using quote_name_bound by blast
      then show ?thesis using zone(3,6) shorter [OF _ zone(9)] after_parts [of cs' c] by simp
    qed
  qed
qed


lemma tokens_subset: "Conv spec d \<in> set (tokens cs) \<Longrightarrow> d \<in> set cs"
proof (induction cs rule: length_induct)
  case (1 cs)
  show ?case
  proof (cases cs)
    case cs: (Cons c cs')
    let ?r2 = "dropWhile is_digit (dropWhile zone_flag cs')"
    have sub: "set ?r2 \<subseteq> set cs'" by (auto dest: set_dropWhileD)
    show ?thesis
    proof (cases "c = CHR ''%'' \<and> ?r2 \<noteq> []")
      case True
      then obtain d' r3 where r3: "?r2 = d' # r3" by (cases ?r2) auto
      then have "tokens cs = Conv (takeWhile zone_flag cs' @ takeWhile is_digit (dropWhile zone_flag cs')) d' # tokens r3"
        using True cs tokens_expanded by simp
      with 1 r3 sub show ?thesis using after_parts [of cs' c] by (auto simp: cs)
    next
      case False
      with 1 show ?thesis by (auto simp: cs tokens.simps(2) [of c cs'] Let_def split: if_splits)
    qed
  qed (use 1 in simp)
qed

lemma substitute_none: "CHR ''Z'' \<notin> set cs \<Longrightarrow> concat (map (substitute n name) (tokens cs)) = tokens cs"
proof -
  assume "CHR ''Z'' \<notin> set cs"
  then have "\<forall>t \<in> set (tokens cs). substitute n name t = [t]"
    by (auto simp: substitute_def dest: tokens_subset split: token.splits)
  then have "map (substitute n name) (tokens cs) = map (\<lambda>t. [t]) (tokens cs)" by (intro map_cong) auto
  then show ?thesis using concat_map_singleton [of "\<lambda>t. t" "tokens cs"] by (simp only: list.map_ident)
qed

definition zone_name :: "int list \<Rightarrow> string option \<Rightarrow> string" where
  "zone_name v zone = (case zone of Some z \<Rightarrow> if v ! 8 \<ge> 0 then z else [] | None \<Rightarrow> [])"

definition zone_quoted :: "nat \<Rightarrow> string \<Rightarrow> string \<Rightarrow> string \<Rightarrow> bool" where
  "zone_quoted n name format out \<longleftrightarrow>
     tokens out = concat (map (substitute n name) (tokens format)) \<and>
     length out < length format + 2 * n + 1"

lemma strftime_calls:
  "emits (\<lambda>c. cname c = ''strftime'' \<longrightarrow> (\<exists>out. cargs c ! 2 = Str out \<and> zone_quoted (unat n) (zone_name v zone) format out))
     (format_calendar os p n format v zone)"
proof -
  have "zone_quoted (unat n) (zone_name v zone) format format" if "CHR ''Z'' \<notin> set format"
    using that by (simp add: zone_quoted_def substitute_none)
  moreover have "zone_quoted (unat n) (zone_name v zone) format out"
    if "expand_format (unat n) (length format + 2 * unat n + 1) (zone_name v zone) format 0 = Some out" for out
    using expand_tokens [OF that] expand_bound [OF that] by (simp add: zone_quoted_def)
  ultimately show ?thesis
    unfolding format_calendar_def Let_def zone_name_def [symmetric] by (intro emits_rules) auto
qed


definition granting_os :: "unit machine os" where
  "granting_os c m = (\<lparr>ret = 1, err = 0, nums = [], payload = []\<rparr>, m)"


end
