(* ===== verification/Bridge_Sem.thy ===== *)
theory Bridge_Sem
  imports Bridge_Safety
begin

text \<open>
  Named semaphores (\<^verbatim>\<open>src/src/named_sem_host.h\<close>): the guest's handles are table indices plus
  one, each slot holds the native object and how many times the guest opened it. A
  \<^verbatim>\<open>sem_t *\<close> is an opaque number; \<^verbatim>\<open>SEM_FAILED\<close> is the result -1.
\<close>

datatype slot_scan = Existing nat | Vacant "nat option"

text \<open>The loop of \<^verbatim>\<open>open_named_semaphore\<close> from index \<open>i\<close> on, with \<^verbatim>\<open>free_slot\<close>.\<close>

fun scan_slots :: "(u32 \<times> int option) list \<Rightarrow> int \<Rightarrow> nat \<Rightarrow> nat option \<Rightarrow> slot_scan" where
  "scan_slots [] object i free_slot = Vacant free_slot"
| "scan_slots ((r, ob) # rest) object i free_slot =
     (if r = 0 then scan_slots rest object (Suc i) (case free_slot of None \<Rightarrow> Some i | Some f \<Rightarrow> Some f)
      else if ob = Some object then Existing i
      else scan_slots rest object (Suc i) free_slot)"

definition set_slot :: "nat \<Rightarrow> int option \<Rightarrow> u32 \<Rightarrow> ('k, unit) hostm" where
  "set_slot i ob r = State_Monad.update
     (\<lambda>s. s\<lparr>sem_objects := (sem_objects s)[i := ob], sem_refs := (sem_refs s)[i := r]\<rparr>)"

definition open_named_semaphore ::
  "'k machine os \<Rightarrow> string \<Rightarrow> int \<Rightarrow> int \<Rightarrow> int \<Rightarrow> ('k, int) hostm" where
  "open_named_semaphore os name flags mode v = do {
     object \<leftarrow> calli os ''sem_open'' [Str name, Num flags, Num mode, Num v];
     if object < 0 then State_Monad.return (-1)
     else do {
       h \<leftarrow> State_Monad.get;
       case scan_slots (zip (sem_refs h) (sem_objects h)) object 0 None of
         Existing i \<Rightarrow>
           if sem_refs h ! i = -1 then do {
             _ \<leftarrow> call os ''sem_close'' [Num object];
             fail EOVERFLOW
           } else do {
             set_slot i (sem_objects h ! i) (sem_refs h ! i + 1);
             State_Monad.return (int i + 1)
           }
       | Vacant None \<Rightarrow> do {
           _ \<leftarrow> call os ''sem_close'' [Num object];
           fail EMFILE
         }
       | Vacant (Some f) \<Rightarrow> do {
           set_slot f (Some object) 1;
           State_Monad.return (int f + 1)
         }
     }
   }"

definition close_named_semaphore :: "'k machine os \<Rightarrow> u64 \<Rightarrow> ('k, int) hostm" where
  "close_named_semaphore os handle = do {
     h \<leftarrow> State_Monad.get;
     if handle = 0 \<or> handle > of_nat MAX_NAMED_SEMAPHORES \<or> sem_refs h ! unat (handle - 1) = 0
     then fail EINVAL
     else do {
       let i = unat (handle - 1);
       rc \<leftarrow> calli os ''sem_close'' [Num (case sem_objects h ! i of None \<Rightarrow> 0 | Some ob \<Rightarrow> ob)];
       if rc = 0 then do {
         set_slot i (if sem_refs h ! i - 1 = 0 then None else sem_objects h ! i) (sem_refs h ! i - 1);
         State_Monad.return rc
       } else State_Monad.return rc
     }
   }"

text \<open>
  The inner \<^verbatim>\<open>while\<close> of \<^verbatim>\<open>close_named_semaphores\<close>: every turn that does not leave the loop
  lowers the count by one, so the count it starts with is enough turns.
\<close>

primrec close_slot :: "'k machine os \<Rightarrow> nat \<Rightarrow> nat \<Rightarrow> ('k, unit) hostm" where
  "close_slot os i 0 = State_Monad.return ()"
| "close_slot os i (Suc n) = do {
     refs \<leftarrow> gets sem_refs;
     if refs ! i = 0 then State_Monad.return ()
     else do {
       rc \<leftarrow> close_named_semaphore os (of_nat i + 1);
       if rc \<noteq> 0 then State_Monad.return () else close_slot os i n
     }
   }"

primrec close_slots :: "'k machine os \<Rightarrow> nat list \<Rightarrow> ('k, unit) hostm" where
  "close_slots os [] = State_Monad.return ()"
| "close_slots os (i # is) = do {
     refs \<leftarrow> gets sem_refs;
     close_slot os i (unat (refs ! i));
     close_slots os is
   }"

definition close_named_semaphores :: "'k machine os \<Rightarrow> ('k, unit) hostm" where
  "close_named_semaphores os = close_slots os [0..<MAX_NAMED_SEMAPHORES]"

subsection \<open>Confinement\<close>

lemma safe_bind_set_slot [safe_rules]:
  "safe g (f ()) Q \<Longrightarrow> safe g (State_Monad.bind (set_slot i ob r) f) Q"
  by (rule safe_bindI [where P = "\<lambda>_. True"], rule safeI)
    (simp_all add: set_slot_def wp_update confined_def host_inv_def pending_signal_def)

lemma safe_case_scan [safe_rules]:
  "(\<And>i. x = Existing i \<Longrightarrow> safe g (f i) Q) \<Longrightarrow> (\<And>v. x = Vacant v \<Longrightarrow> safe g (h v) Q) \<Longrightarrow>
     safe g (case x of Existing i \<Rightarrow> f i | Vacant v \<Rightarrow> h v) Q"
  by (cases x) auto

lemma safe_open_named_semaphore [safe_rules]:
  "os_ok g os \<Longrightarrow> (\<And>r. Q r) \<Longrightarrow> safe g (open_named_semaphore os name flags mode v) Q"
  unfolding open_named_semaphore_def by (intro safe_rules) auto

lemma safe_close_named_semaphore [safe_rules]:
  "os_ok g os \<Longrightarrow> (\<And>r. Q r) \<Longrightarrow> safe g (close_named_semaphore os handle) Q"
  unfolding close_named_semaphore_def by (intro safe_rules) auto

lemma safe_close_slot: "os_ok g os \<Longrightarrow> safe g (close_slot os i n) (\<lambda>_. True)"
proof (induction n)
  case (Suc n)
  then show ?case
    by (auto intro!: safe_rules safe_bindI [where m = "close_named_semaphore os h" and P = "\<lambda>_. True" for h])
qed (auto intro: safe_rules)

lemma safe_close_named_semaphores: "os_ok g os \<Longrightarrow> safe g (close_named_semaphores os) (\<lambda>_. True)"
proof -
  assume os: "os_ok g os"
  have "safe g (close_slots os is) (\<lambda>_. True)" for "is"
    by (induction "is") (auto intro!: safe_rules safe_bindI [OF safe_close_slot [OF os]])
  then show ?thesis by (simp add: close_named_semaphores_def)
qed

subsection \<open>The table\<close>

definition sem_inv :: "'k host \<Rightarrow> bool" where
  "sem_inv s \<longleftrightarrow>
     length (sem_objects s) = MAX_NAMED_SEMAPHORES \<and> length (sem_refs s) = MAX_NAMED_SEMAPHORES \<and>
     (\<forall>i < MAX_NAMED_SEMAPHORES. sem_refs s ! i = 0 \<longleftrightarrow> sem_objects s ! i = None) \<and>
     (\<forall>i < MAX_NAMED_SEMAPHORES. \<forall>j < MAX_NAMED_SEMAPHORES.
        sem_objects s ! i = sem_objects s ! j \<longrightarrow> sem_objects s ! i \<noteq> None \<longrightarrow> i = j)"

lemma scan_existing:
  "scan_slots xs object i f = Existing j \<Longrightarrow>
     i \<le> j \<and> j < i + length xs \<and> fst (xs ! (j - i)) \<noteq> 0 \<and> snd (xs ! (j - i)) = Some object"
proof (induction xs object i f rule: scan_slots.induct)
  case (2 r ob rest object i f)
  show ?case
  proof (cases "r \<noteq> 0 \<and> ob = Some object")
    case True
    with 2 show ?thesis by auto
  next
    case False
    with 2 have "Suc i \<le> j \<and> j < Suc i + length rest \<and> fst (rest ! (j - Suc i)) \<noteq> 0 \<and>
        snd (rest ! (j - Suc i)) = Some object"
      by (auto split: if_splits)
    then show ?thesis by (auto simp: nth_Cons' Suc_diff_Suc)
  qed
qed simp

lemma scan_vacant_none:
  "scan_slots xs object i f = Vacant v \<Longrightarrow> k < length xs \<Longrightarrow> fst (xs ! k) \<noteq> 0 \<Longrightarrow> snd (xs ! k) \<noteq> Some object"
  by (induction xs object i f arbitrary: k rule: scan_slots.induct)
    (auto split: if_splits simp: nth_Cons')

lemma scan_vacant_some:
  "scan_slots xs object i f = Vacant (Some j) \<Longrightarrow>
     f = Some j \<or> f = None \<and> i \<le> j \<and> j < i + length xs \<and> fst (xs ! (j - i)) = 0"
proof (induction xs object i f rule: scan_slots.induct)
  case (2 r ob rest object i f)
  show ?case
  proof (cases "r = 0")
    case True
    with 2 show ?thesis by (cases f) auto
  next
    case False
    with 2 have "f = Some j \<or> f = None \<and> Suc i \<le> j \<and> j < Suc i + length rest \<and> fst (rest ! (j - Suc i)) = 0"
      by (auto split: if_splits)
    then show ?thesis by (auto simp: nth_Cons' Suc_diff_Suc)
  qed
qed simp

text \<open>What a slot table looks like after the loop, on the loader's own arrays.\<close>

lemma scan_table:
  assumes "sem_inv s" "scan_slots (zip (sem_refs s) (sem_objects s)) object 0 None = x"
  shows "x = Existing i \<Longrightarrow> i < MAX_NAMED_SEMAPHORES \<and> sem_refs s ! i \<noteq> 0 \<and> sem_objects s ! i = Some object"
    "x = Vacant (Some i) \<Longrightarrow> i < MAX_NAMED_SEMAPHORES \<and> sem_refs s ! i = 0 \<and>
       (\<forall>k < MAX_NAMED_SEMAPHORES. sem_objects s ! k \<noteq> Some object)"
proof -
  have l: "length (zip (sem_refs s) (sem_objects s)) = MAX_NAMED_SEMAPHORES"
    using assms(1) by (simp add: sem_inv_def)
  show "x = Existing i \<Longrightarrow> i < MAX_NAMED_SEMAPHORES \<and> sem_refs s ! i \<noteq> 0 \<and> sem_objects s ! i = Some object"
    using scan_existing [of "zip (sem_refs s) (sem_objects s)" object 0 None i] assms l
    by (auto simp: sem_inv_def)
  assume v: "x = Vacant (Some i)"
  have "sem_objects s ! k \<noteq> Some object" if "k < MAX_NAMED_SEMAPHORES" for k
    using scan_vacant_none [of "zip (sem_refs s) (sem_objects s)" object 0 None "Some i" k] assms l v that
    by (cases "sem_refs s ! k = 0") (auto simp: sem_inv_def)
  then show "i < MAX_NAMED_SEMAPHORES \<and> sem_refs s ! i = 0 \<and> (\<forall>k < MAX_NAMED_SEMAPHORES. sem_objects s ! k \<noteq> Some object)"
    using scan_vacant_some [of "zip (sem_refs s) (sem_objects s)" object 0 None i] assms l v
    by (auto simp: sem_inv_def)
qed

lemma sem_inv_update:
  assumes "sem_inv s" "i < MAX_NAMED_SEMAPHORES" "r = 0 \<longleftrightarrow> ob = None"
    "\<forall>k < MAX_NAMED_SEMAPHORES. k \<noteq> i \<longrightarrow> ob \<noteq> None \<longrightarrow> sem_objects s ! k \<noteq> ob"
  shows "sem_inv (s\<lparr>sem_objects := (sem_objects s)[i := ob], sem_refs := (sem_refs s)[i := r]\<rparr>)"
  using assms unfolding sem_inv_def by (auto simp: nth_list_update)

definition same_table :: "'k host \<Rightarrow> 'k host \<Rightarrow> bool" where
  "same_table s t \<longleftrightarrow> sem_objects t = sem_objects s \<and> sem_refs t = sem_refs s"

lemma same_table_inv: "same_table s t \<Longrightarrow> sem_inv s \<Longrightarrow> sem_inv t"
  by (simp add: same_table_def sem_inv_def)

lemma calli_table: "wp (calli os nm args) (\<lambda>r t. same_table s t \<and> r = ret (fst (os (Call nm args) (world s)))) s"
  by (simp add: calli_def wp_simps same_table_def split: prod.splits)

lemma call_table: "wp (call os nm args) (\<lambda>r t. same_table s t) s"
  by (simp add: wp_simps same_table_def split: prod.splits)

lemma sem_open_spec:
  assumes inv: "sem_inv s" and run: "run_state (open_named_semaphore os name flags mode v) s = (r, t)"
  defines "object \<equiv> ret (fst (os (Call ''sem_open'' [Str name, Num flags, Num mode, Num v]) (world s)))"
  shows "sem_inv t \<and>
    (if r < 0 then sem_objects t = sem_objects s \<and> sem_refs t = sem_refs s
     else \<exists>i < MAX_NAMED_SEMAPHORES. r = int i + 1 \<and> 0 \<le> object \<and>
       (sem_refs s ! i \<noteq> 0 \<longrightarrow> sem_objects s ! i = Some object) \<and>
       sem_objects t = (sem_objects s)[i := Some object] \<and>
       sem_refs t = (sem_refs s)[i := sem_refs s ! i + 1] \<and> unat (sem_refs t ! i) = unat (sem_refs s ! i) + 1)"
    (is "?P r t")
proof -
  define P where "P = (\<lambda>r t. ?P r t)"
  have same: "P (-1) u" if "same_table s u" for u
    unfolding P_def using that same_table_inv [OF that inv] by (simp add: same_table_def)
  have slot: "P (int i + 1) (u\<lparr>sem_objects := (sem_objects u)[i := Some object], sem_refs := (sem_refs u)[i := sem_refs u ! i + 1]\<rparr>)"
    if u: "same_table s u" and i: "i < MAX_NAMED_SEMAPHORES" and ob: "0 \<le> object"
      and old: "sem_refs u ! i \<noteq> 0 \<longrightarrow> sem_objects u ! i = Some object" and room: "sem_refs u ! i \<noteq> -1"
      and alone: "\<forall>k < MAX_NAMED_SEMAPHORES. k \<noteq> i \<longrightarrow> sem_objects u ! k \<noteq> Some object" for i u
  proof -
    have "sem_refs u ! i + 1 \<noteq> 0" using room by (metis add_eq_0_iff2)
    then have "unat (sem_refs u ! i + 1) = unat (sem_refs u ! i) + 1" by (simp add: unatSuc add.commute)
    moreover have "sem_inv (u\<lparr>sem_objects := (sem_objects u)[i := Some object], sem_refs := (sem_refs u)[i := sem_refs u ! i + 1]\<rparr>)"
      by (rule sem_inv_update [OF same_table_inv [OF u inv] i])
        (use \<open>sem_refs u ! i + 1 \<noteq> 0\<close> alone in auto)
    ultimately show ?thesis unfolding P_def using i ob old u inv
      by (auto intro!: exI [of _ i] simp: same_table_def sem_inv_def)
  qed
  have "wp (open_named_semaphore os name flags mode v) P s"
    unfolding open_named_semaphore_def
  proof (rule wp_bindI [OF calli_table])
    fix ob and u :: "'a host"
    assume "same_table s u \<and> ob = ret (fst (os (Call ''sem_open'' [Str name, Num flags, Num mode, Num v]) (world s)))"
    then have u: "same_table s u" "ob = object" by (simp_all add: object_def)
    have inv_u: "sem_inv u" using same_table_inv [OF u(1) inv] .
    have close: "wp (State_Monad.bind (call os ''sem_close'' [Num ob]) (\<lambda>_. fail e)) P u" for e
      by (rule wp_bindI [OF call_table]) (use u(1) in \<open>auto simp: wp_fail same_table_def intro!: same\<close>)
    show "wp (if ob < 0 then State_Monad.return (-1) else do {
       h \<leftarrow> State_Monad.get;
       case scan_slots (zip (sem_refs h) (sem_objects h)) ob 0 None of
         Existing i \<Rightarrow> if sem_refs h ! i = -1 then do { _ \<leftarrow> call os ''sem_close'' [Num ob]; fail EOVERFLOW }
           else do { set_slot i (sem_objects h ! i) (sem_refs h ! i + 1); State_Monad.return (int i + 1) }
       | Vacant None \<Rightarrow> do { _ \<leftarrow> call os ''sem_close'' [Num ob]; fail EMFILE }
       | Vacant (Some f) \<Rightarrow> do { set_slot f (Some ob) 1; State_Monad.return (int f + 1) } }) P u"
    proof (cases "ob < 0")
      case True
      with u show ?thesis by (simp add: wp_return same)
    next
      case False
      show ?thesis
      proof (cases "scan_slots (zip (sem_refs u) (sem_objects u)) ob 0 None")
        case (Existing i)
        from scan_table(1) [OF inv_u Existing refl] have i: "i < MAX_NAMED_SEMAPHORES" "sem_objects u ! i = Some ob"
          by auto
        moreover have "\<forall>k < MAX_NAMED_SEMAPHORES. k \<noteq> i \<longrightarrow> sem_objects u ! k \<noteq> Some object"
          using inv_u i u(2) by (auto simp: sem_inv_def)
        ultimately show ?thesis using False Existing close slot [of u i] u
          by (simp add: wp_bind [of State_Monad.get] wp_bind [of "State_Monad.update m" for m] wp_get wp_if
              wp_return set_slot_def wp_update)
      next
        case (Vacant f)
        show ?thesis
        proof (cases f)
          case None
          with False Vacant close show ?thesis by (simp add: wp_bind [of State_Monad.get] wp_get)
        next
          case (Some i)
          with scan_table(2) [OF inv_u Vacant, of i] False Vacant slot [of u i] u show ?thesis
            by (simp add: wp_bind wp_get wp_return set_slot_def wp_update)
        qed
      qed
    qed
  qed
  with run have "P r t" by (auto dest: wp_run)
  then show ?thesis unfolding P_def .
qed

text \<open>
  C21. Opening a named semaphore keeps the table well formed (a slot is free exactly when it has no
  references, and no object has two slots) and counts references exactly: on success the handle
  names a slot that holds the native object and whose count went up by one from its earlier count
  without wrapping, all other slots are unchanged, and a failure leaves the table as it was.
\<close>
theorem open_named_semaphore_counts:
  assumes inv: "sem_inv s" and run: "run_state (open_named_semaphore os name flags mode v) s = (r, t)"
  defines "object \<equiv> ret (fst (os (Call ''sem_open'' [Str name, Num flags, Num mode, Num v]) (world s)))"
  shows "sem_inv t \<and>
    (if r < 0 then sem_objects t = sem_objects s \<and> sem_refs t = sem_refs s
     else \<exists>i < MAX_NAMED_SEMAPHORES. r = int i + 1 \<and> 0 \<le> object \<and>
       (sem_refs s ! i \<noteq> 0 \<longrightarrow> sem_objects s ! i = Some object) \<and>
       sem_objects t = (sem_objects s)[i := Some object] \<and>
       sem_refs t = (sem_refs s)[i := sem_refs s ! i + 1] \<and> unat (sem_refs t ! i) = unat (sem_refs s ! i) + 1)"
  unfolding object_def by (rule sem_open_spec [OF inv run])

lemma handle_index: "i < MAX_NAMED_SEMAPHORES \<Longrightarrow> unat ((of_nat i + 1 :: u64) - 1) = i \<and> of_nat i + (1 :: u64) \<noteq> 0 \<and>
    \<not> of_nat i + (1 :: u64) > of_nat MAX_NAMED_SEMAPHORES"
proof -
  assume "i < MAX_NAMED_SEMAPHORES"
  then have "unat (of_nat i + 1 :: u64) = i + 1" by (simp add: MAX_NAMED_SEMAPHORES_def unat_word_ariths unat_of_nat)
  with \<open>i < MAX_NAMED_SEMAPHORES\<close> show ?thesis
    by (auto simp: MAX_NAMED_SEMAPHORES_def word_less_nat_alt unat_of_nat word_unat_eq_iff)
qed

text \<open>What the code relies on of \<^verbatim>\<open>sem_close\<close>: it does not fail on an open semaphore.\<close>

definition sem_close_works :: "'k machine os \<Rightarrow> bool" where
  "sem_close_works os \<longleftrightarrow> (\<forall>args m. ret (fst (os (Call ''sem_close'' args) m)) = 0)"

lemma close_named_semaphore_step:
  assumes "sem_inv s" "sem_close_works os" "i < MAX_NAMED_SEMAPHORES" "sem_refs s ! i \<noteq> 0"
  shows "wp (close_named_semaphore os (of_nat i + 1)) (\<lambda>r t. r = 0 \<and> sem_inv t \<and>
    sem_refs t = (sem_refs s)[i := sem_refs s ! i - 1] \<and>
    sem_objects t = (sem_objects s)[i := if sem_refs s ! i = 1 then None else sem_objects s ! i]) s"
proof -
  let ?ob = "if sem_refs s ! i = 1 then None else sem_objects s ! i"
  let ?Q = "\<lambda>r t. r = 0 \<and> sem_inv t \<and> sem_refs t = (sem_refs s)[i := sem_refs s ! i - 1] \<and>
    sem_objects t = (sem_objects s)[i := ?ob]"
  have "sem_inv (u\<lparr>sem_objects := (sem_objects u)[i := ?ob], sem_refs := (sem_refs u)[i := sem_refs s ! i - 1]\<rparr>)"
    if "same_table s u" for u
    by (rule sem_inv_update [OF same_table_inv [OF that assms(1)] assms(3)])
      (use that assms in \<open>auto simp: sem_inv_def same_table_def\<close>)
  then have "wp (do {
      rc \<leftarrow> calli os ''sem_close'' [Num (case sem_objects s ! i of None \<Rightarrow> 0 | Some ob \<Rightarrow> ob)];
      if rc = 0 then do { set_slot i ?ob (sem_refs s ! i - 1); State_Monad.return rc }
      else State_Monad.return rc }) ?Q s"
    by (intro wp_bindI [OF calli_table])
      (use assms(2) in \<open>auto simp: sem_close_works_def wp_bind wp_return set_slot_def wp_update same_table_def\<close>)
  moreover have "(if sem_refs s ! i - 1 = 0 then None else sem_objects s ! i) = ?ob" by auto
  ultimately show ?thesis using handle_index [OF assms(3)] assms(4)
    unfolding close_named_semaphore_def wp_bind [of State_Monad.get] wp_get Let_def
    by (simp only: simp_thms if_False)
qed

text \<open>
  C22. Opening and closing balance: closing the handle that \<^verbatim>\<open>open_named_semaphore\<close> returned
  succeeds and restores the table exactly, whether the object was already open (the count goes back)
  or not (the slot is free again).
\<close>
theorem semaphore_open_close_roundtrip:
  assumes inv: "sem_inv s" and os: "sem_close_works os"
    and run: "run_state (open_named_semaphore os name flags mode v) s = (r, t)" "0 < r"
      "run_state (close_named_semaphore os (word_of_int r)) t = (rc, u)"
  shows "rc = 0 \<and> sem_objects u = sem_objects s \<and> sem_refs u = sem_refs s"
proof -
  let ?ob = "ret (fst (os (Call ''sem_open'' [Str name, Num flags, Num mode, Num v]) (world s)))"
  from run(2) have "\<not> r < 0" by simp
  note spec = sem_open_spec [OF inv run(1), unfolded if_not_P [OF this]]
  then have t: "sem_inv t" by (rule conjunct1)
  from spec [THEN conjunct2] obtain i where i: "i < MAX_NAMED_SEMAPHORES" "r = int i + 1"
      "sem_refs s ! i \<noteq> 0 \<longrightarrow> sem_objects s ! i = Some ?ob"
      "sem_objects t = (sem_objects s)[i := Some ?ob]" "sem_refs t = (sem_refs s)[i := sem_refs s ! i + 1]"
      "unat (sem_refs t ! i) = unat (sem_refs s ! i) + 1"
    by (elim exE conjE)
  have l: "length (sem_refs s) = MAX_NAMED_SEMAPHORES" "length (sem_objects s) = MAX_NAMED_SEMAPHORES"
    "sem_refs s ! i = 0 \<longleftrightarrow> sem_objects s ! i = None"
    using inv i(1) by (auto simp: sem_inv_def)
  have "sem_refs t ! i \<noteq> 0" using i(6) by auto
  moreover have "word_of_int r = (of_nat i + 1 :: u64)" by (simp add: i(2))
  ultimately have u: "rc = 0 \<and> sem_refs u = (sem_refs t)[i := sem_refs t ! i - 1] \<and>
      sem_objects u = (sem_objects t)[i := if sem_refs t ! i = 1 then None else sem_objects t ! i]"
    using wp_run [OF close_named_semaphore_step [OF t os i(1)]] run(3) by auto
  have n: "sem_refs t ! i = sem_refs s ! i + 1" "sem_objects t ! i = Some ?ob" using i(1,4,5) l by simp_all
  then have "sem_refs t ! i = 1 \<longleftrightarrow> sem_objects s ! i = None" using l(3) by simp
  then have "(if sem_refs t ! i = 1 then None else sem_objects t ! i) = sem_objects s ! i"
    using n(2) i(3) l(3) by auto
  moreover have "sem_refs t ! i - 1 = sem_refs s ! i" using n(1) by simp
  ultimately show ?thesis using u i(4,5) by simp
qed

lemma close_slot_clears:
  assumes "sem_close_works os" "i < MAX_NAMED_SEMAPHORES"
  shows "sem_inv s \<Longrightarrow> unat (sem_refs s ! i) \<le> n \<Longrightarrow>
    wp (close_slot os i n) (\<lambda>_ t. sem_inv t \<and> sem_refs t = (sem_refs s)[i := 0]) s"
proof (induction n arbitrary: s)
  case 0
  then show ?case by (simp add: wp_return unat_eq_0 list_update_same_conv [THEN iffD2] sem_inv_def assms(2))
next
  case (Suc n)
  show ?case
  proof (cases "sem_refs s ! i = 0")
    case True
    with Suc.prems assms(2) show ?thesis
      by (simp add: wp_bind wp_gets wp_return list_update_same_conv [THEN iffD2] sem_inv_def)
  next
    case False
    have "wp (do { rc \<leftarrow> close_named_semaphore os (of_nat i + 1);
        if rc \<noteq> 0 then State_Monad.return () else close_slot os i n })
        (\<lambda>_ t. sem_inv t \<and> sem_refs t = (sem_refs s)[i := 0]) s"
    proof (rule wp_bindI [OF close_named_semaphore_step [OF Suc.prems(1) assms False]])
      fix rc and t :: "'a host"
      assume t: "rc = 0 \<and> sem_inv t \<and> sem_refs t = (sem_refs s)[i := sem_refs s ! i - 1] \<and>
        sem_objects t = (sem_objects s)[i := if sem_refs s ! i = 1 then None else sem_objects s ! i]"
      have "length (sem_refs s) = MAX_NAMED_SEMAPHORES" using Suc.prems(1) by (simp add: sem_inv_def)
      then have "unat (sem_refs t ! i) \<le> n"
        using t False Suc.prems(2) assms(2) by (simp add: unat_minus_one)
      with t Suc.IH [of t] show "wp (if rc \<noteq> 0 then State_Monad.return () else close_slot os i n)
          (\<lambda>_ t. sem_inv t \<and> sem_refs t = (sem_refs s)[i := 0]) t" by simp
    qed
    with False show ?thesis by (simp add: wp_bind [of "gets f" for f] wp_gets)
  qed
qed

lemma close_slots_clear:
  assumes "sem_close_works os"
  shows "\<forall>i \<in> set is. i < MAX_NAMED_SEMAPHORES \<Longrightarrow> sem_inv s \<Longrightarrow>
    wp (close_slots os is) (\<lambda>_ t. sem_inv t \<and> (\<forall>i < MAX_NAMED_SEMAPHORES.
      sem_refs t ! i = (if i \<in> set is then 0 else sem_refs s ! i))) s"
proof (induction "is" arbitrary: s)
  case (Cons j js)
  have l: "length (sem_refs s) = MAX_NAMED_SEMAPHORES" using Cons.prems(2) by (simp add: sem_inv_def)
  have "wp (do { close_slot os j (unat (sem_refs s ! j)); close_slots os js }) (\<lambda>_ t. sem_inv t \<and>
      (\<forall>i < MAX_NAMED_SEMAPHORES. sem_refs t ! i = (if i \<in> set (j # js) then 0 else sem_refs s ! i))) s"
  proof (rule wp_bindI [OF close_slot_clears [OF assms _ Cons.prems(2) order_refl]])
    fix x and t :: "'a host" assume t: "sem_inv t \<and> sem_refs t = (sem_refs s)[j := 0]"
    show "wp (close_slots os js) (\<lambda>_ u. sem_inv u \<and> (\<forall>i < MAX_NAMED_SEMAPHORES.
        sem_refs u ! i = (if i \<in> set (j # js) then 0 else sem_refs s ! i))) t"
      by (rule wp_mono [OF Cons.IH [of t]])
        (use t l Cons.prems(1) in \<open>simp_all add: nth_list_update\<close>)
  qed (use Cons.prems in simp)
  then show ?case by (simp add: wp_bind [of "gets f" for f] wp_gets)
qed (simp add: wp_return)

text \<open>
  C23. Leaving the loader releases every semaphore: \<^verbatim>\<open>close_named_semaphores\<close> ends with every
  reference count at zero and every slot free, however often the guest had opened each of them.
\<close>
theorem close_named_semaphores_releases_all:
  assumes "sem_inv s" "sem_close_works os" "run_state (close_named_semaphores os) s = (u, t)"
  shows "list_all (\<lambda>r. r = 0) (sem_refs t) \<and> list_all (\<lambda>ob. ob = None) (sem_objects t)"
proof -
  have "wp (close_named_semaphores os) (\<lambda>_ t. sem_inv t \<and> (\<forall>i < MAX_NAMED_SEMAPHORES. sem_refs t ! i = 0)) s"
    unfolding close_named_semaphores_def
    by (rule wp_mono [OF close_slots_clear [OF assms(2) _ assms(1)]]) auto
  with assms(3) have "sem_inv t \<and> (\<forall>i < MAX_NAMED_SEMAPHORES. sem_refs t ! i = 0)" by (auto dest: wp_run)
  then show ?thesis by (auto simp: sem_inv_def list_all_length)
qed

subsection \<open>Concrete runs\<close>

lemma demo_sem_inv: "sem_inv (demo_host m)" "sem_close_works demo_os"
  by (simp_all add: sem_inv_def demo_host_def MAX_NAMED_SEMAPHORES_def sem_close_works_def demo_os_def)

theorem open_named_semaphore_counts_witness:
  "sem_inv (snd (run_state (open_named_semaphore demo_os ''/s'' 0 0 1) (demo_host (\<lambda>_. 0))))"
  by (rule conjunct1 [OF open_named_semaphore_counts [OF demo_sem_inv(1) surjective_pairing]])

theorem semaphore_open_close_roundtrip_witness:
  "\<exists>t rc u. run_state (open_named_semaphore demo_os ''/s'' 0 0 1) (demo_host (\<lambda>_. 0)) = (1, t) \<and>
     run_state (close_named_semaphore demo_os 1) t = (rc, u) \<and> rc = 0 \<and> sem_refs u = replicate 64 0"
proof -
  obtain r t where o: "run_state (open_named_semaphore demo_os ''/s'' 0 0 1) (demo_host (\<lambda>_. 0)) = (r, t)"
    by fastforce
  moreover have "fst (run_state (open_named_semaphore demo_os ''/s'' 0 0 1) (demo_host (\<lambda>_. 0))) = 1"
    by code_simp
  ultimately have r: "r = 1" by simp
  obtain rc u where c: "run_state (close_named_semaphore demo_os (word_of_int r)) t = (rc, u)" by fastforce
  from semaphore_open_close_roundtrip [OF demo_sem_inv o _ c] r o c show ?thesis
    by (simp add: demo_host_def)
qed

theorem close_named_semaphores_releases_all_witness:
  "list_all (\<lambda>r. r = 0) (sem_refs (snd (run_state (close_named_semaphores demo_os) (demo_host (\<lambda>_. 0)))))"
  using close_named_semaphores_releases_all [OF demo_sem_inv surjective_pairing] by blast

end
