(* ===== verification/Bridge_Misc.thy ===== *)
theory Bridge_Misc
  imports Bridge_Calendar Bridge_Sem
begin

text \<open>
  The services of \<^verbatim>\<open>src/src/misc_host.h\<close>: named semaphores, calendar formatting,
  directory-relative opens, directory streams, epoll, file-system and clock records, group and
  interface lists, signal descriptors and System V IPC control. As in the other service theories a
  \<^verbatim>\<open>case\<close> of the \<^verbatim>\<open>switch\<close> is one definition and \<open>misc_table\<close> is the
  \<^verbatim>\<open>switch\<close>; a structure that the C code passes by pointer to its own memory is the list of
  its members.
\<close>

subsection \<open>Semaphores and calendar\<close>

definition px_sem_open :: "'k px" where
  "px_sem_open os h a = with_string h (a 0) (\<lambda>name.
     open_named_semaphore os name (uint (open_flags (ucast (a 1)))) (c_uint (a 2)) (c_uint (a 3)))"

definition px_sem_close :: "'k px" where
  "px_sem_close os h a = close_named_semaphore os (a 0)"

definition px_sem_unlink :: "'k px" where
  "px_sem_unlink os h a = with_string h (a 0) (\<lambda>name. calli os ''sem_unlink'' [Str name])"

definition px_git_strftime :: "'k px" where
  "px_git_strftime os h a = do {
     cal \<leftarrow> memory h (a 3) 56;
     format \<leftarrow> string h (a 2);
     out \<leftarrow> memory h (a 0) (a 1);
     if cal = None \<or> format = None \<or> out = None then State_Monad.return (-1)
     else do {
       m \<leftarrow> peek_mem;
       let v = load_struct calendar_layout m (a 3);
       zone \<leftarrow> opt_string h (word_of_int (v ! 10));
       if v ! 10 \<noteq> 0 \<and> zone = None then State_Monad.return (-1)
       else format_calendar os (a 0) (a 1) (the format) v zone
     }
   }"

subsection \<open>Directories\<close>

definition px_openat :: "'k px" where
  "px_openat os h a = do {
     actual \<leftarrow> directory_fd (a 0);
     path \<leftarrow> path_string_mode h (a 1) (\<not> bit (a 2) BO_NOFOLLOW);
     if actual < 0 \<and> actual \<noteq> AT_FDCWD \<or> path = None then State_Monad.return (-1)
     else adopt_call os ''openat'' [directory_arg actual, Str (the path),
       Num (uint (open_flags (ucast (a 2)))), Num (c_uint (a 3))]
   }"

definition px_fstatat :: "'k px" where
  "px_fstatat os h a = with_at_flags (a 3) (\<lambda>flags. do {
     actual \<leftarrow> directory_fd (a 0);
     path \<leftarrow> path_string_mode h (a 1) (\<not> int_flag flags AT_SYMLINK_NOFOLLOW);
     if actual < 0 \<and> actual \<noteq> AT_FDCWD \<or> path = None then State_Monad.return (-1)
     else do {
       out \<leftarrow> memory h (a 2) 128;
       if out = None then State_Monad.return (-1)
       else do {
         r \<leftarrow> call os ''fstatat'' [directory_arg actual, Str (the path), Num flags];
         if ret r = 0 then do { poke (a 2) (export_stat (nums r)); State_Monad.return (ret r) }
         else State_Monad.return (ret r)
       }
     }
   })"

text \<open>The first vacant slot of the table of directory streams, and the assignments to
  \<^verbatim>\<open>dirs[i]\<close> and \<^verbatim>\<open>dir_fds[i]\<close>.\<close>

fun free_dir :: "int option list \<Rightarrow> nat \<Rightarrow> nat option" where
  "free_dir [] i = None"
| "free_dir (d # ds) i = (if d = None then Some i else free_dir ds (Suc i))"

definition set_dir :: "nat \<Rightarrow> int option \<Rightarrow> int \<Rightarrow> ('k, unit) hostm" where
  "set_dir i dir number = State_Monad.update
     (\<lambda>s. s\<lparr>dirs := (dirs s)[i := dir], dir_fds := (dir_fds s)[i := number]\<rparr>)"

definition px_fdopendir :: "'k px" where
  "px_fdopendir os h a = with_fd (a 0) (\<lambda>actual. do {
     table \<leftarrow> gets dirs;
     case free_dir table 0 of
       None \<Rightarrow> fail EMFILE
     | Some i \<Rightarrow> do {
         dir \<leftarrow> calli os ''fdopendir'' [Fd actual];
         if dir < 0 then State_Monad.return (-1)
         else do { set_dir i (Some dir) (c_int (a 0)); State_Monad.return (int i) }
       }
   })"

subsection \<open>Epoll\<close>

definition px_epoll_ctl :: "'k px" where
  "px_epoll_ctl os h a = do {
     actual \<leftarrow> fd (c_int (a 0));
     target \<leftarrow> fd (c_int (a 2));
     if actual < 0 \<or> target < 0 then State_Monad.return (-1)
     else do {
       p \<leftarrow> opt_memory h (a 3) 16;
       if a 3 \<noteq> 0 \<and> p = None then State_Monad.return (-1)
       else do {
         m \<leftarrow> peek_mem;
         calli os ''epoll_ctl'' [Fd actual, Num (c_int (a 1)), Fd target,
           (case p of None \<Rightarrow> Num 0 | Some p \<Rightarrow> Nums (load_struct epoll_layout m p))]
       }
     }
   }"

definition BRIDGE_EPOLL_EVENTS :: int where "BRIDGE_EPOLL_EVENTS = 1024"

fun pairs :: "int list \<Rightarrow> (int \<times> int) list" where
  "pairs (x # y # rest) = (x, y) # pairs rest"
| "pairs _ = []"

definition px_epoll_wait :: "'k px" where
  "px_epoll_wait os h a = with_fd (a 0) (\<lambda>actual.
     let count = c_int (a 2) in
     if count \<le> 0 \<or> count > BRIDGE_EPOLL_EVENTS then fail EINVAL
     else do {
       out \<leftarrow> memory h (a 1) (word_of_int (count * 16));
       if out = None then State_Monad.return (-1)
       else do {
         r \<leftarrow> call os ''epoll_wait'' [Fd actual, Num count, Num (c_int (a 3))];
         if ret r > 0 then do {
           poke (a 1) (export_epoll_events (take (nat (ret r)) (pairs (nums r))));
           State_Monad.return (ret r)
         } else State_Monad.return (ret r)
       }
     })"

subsection \<open>File systems and clocks\<close>

text \<open>The common end: store the record when the call returned 0.\<close>

definition export_result :: "u64 \<Rightarrow> (int list \<Rightarrow> byte list) \<Rightarrow> osret \<Rightarrow> ('k, int) hostm" where
  "export_result out f r =
     (if ret r = 0 then do { poke out (f (nums r)); State_Monad.return (ret r) }
      else State_Monad.return (ret r))"

definition px_statvfs :: "'k px" where
  "px_statvfs os h a = do {
     out \<leftarrow> memory h (a 1) 88;
     if out = None then State_Monad.return (-1)
     else with_path h (a 0) True (\<lambda>path. do {
       r \<leftarrow> call os ''statvfs'' [Str path];
       export_result (a 1) export_statvfs r
     })
   }"

definition px_fstatvfs :: "'k px" where
  "px_fstatvfs os h a = do {
     out \<leftarrow> memory h (a 1) 88;
     if out = None then State_Monad.return (-1)
     else with_fd (a 0) (\<lambda>actual. do {
       r \<leftarrow> call os ''fstatvfs'' [Fd actual];
       export_result (a 1) export_statvfs r
     })
   }"

definition timeval_nums :: "timeval \<Rightarrow> int list" where
  "timeval_nums t = [tv_sec t, tv_usec t]"

definition timeval_at :: "(u64 \<Rightarrow> byte) \<Rightarrow> u64 \<Rightarrow> timeval" where
  "timeval_at m p = import_timeval (read_bytes m p 16)"

definition timeval_of :: "int list \<Rightarrow> timeval" where
  "timeval_of v = \<lparr>tv_sec = v ! 0, tv_usec = v ! 1\<rparr>"

text \<open>Two consecutive native values, as the array of two wire values.\<close>

definition export_timevals :: "int list \<Rightarrow> byte list" where
  "export_timevals v = export_timeval (timeval_of v) @ export_timeval (timeval_of (drop 2 v))"

definition px_utimes :: "'k px" where
  "px_utimes os h a = do {
     path \<leftarrow> path_string_mode h (a 0) True;
     p \<leftarrow> opt_memory h (a 1) 32;
     if path = None \<or> (a 1 \<noteq> 0 \<and> p = None) then State_Monad.return (-1)
     else do {
       m \<leftarrow> peek_mem;
       calli os ''utimes'' [Str (the path), (case p of None \<Rightarrow> Num 0 | Some p \<Rightarrow>
         Nums (timeval_nums (timeval_at m p) @ timeval_nums (timeval_at m (p + 16))))]
     }
   }"

definition px_adjtime :: "'k px" where
  "px_adjtime os h a = do {
     p \<leftarrow> opt_memory h (a 0) 16;
     out \<leftarrow> opt_memory h (a 1) 16;
     if (a 0 \<noteq> 0 \<and> p = None) \<or> (a 1 \<noteq> 0 \<and> out = None) then State_Monad.return (-1)
     else do {
       m \<leftarrow> peek_mem;
       r \<leftarrow> call os ''adjtime'' [
         (case p of None \<Rightarrow> Num 0 | Some p \<Rightarrow> Nums (timeval_nums (timeval_at m p))),
         Num (if out = None then 0 else 1)];
       case out of
         None \<Rightarrow> State_Monad.return (ret r)
       | Some out \<Rightarrow> export_result out (\<lambda>v. export_timeval (timeval_of v)) r
     }
   }"

definition px_setitimer :: "'k px" where
  "px_setitimer os h a = do {
     p \<leftarrow> opt_memory h (a 1) 32;
     out \<leftarrow> opt_memory h (a 2) 32;
     if (a 1 \<noteq> 0 \<and> p = None) \<or> (a 2 \<noteq> 0 \<and> out = None) then State_Monad.return (-1)
     else do {
       m \<leftarrow> peek_mem;
       r \<leftarrow> call os ''setitimer'' [Num (c_int (a 0)),
         (case p of None \<Rightarrow> Num 0 | Some p \<Rightarrow>
            Nums (timeval_nums (timeval_at m p) @ timeval_nums (timeval_at m (p + 16)))),
         Num (if out = None then 0 else 1)];
       case out of
         None \<Rightarrow> State_Monad.return (ret r)
       | Some out \<Rightarrow> export_result out export_timevals r
     }
   }"

definition px_adjtimex :: "'k px" where
  "px_adjtimex os h a = do {
     wire \<leftarrow> memory h (a 0) 208;
     if wire = None then State_Monad.return (-1)
     else do {
       m \<leftarrow> peek_mem;
       r \<leftarrow> call os ''adjtimex'' [Nums (import_timex (read_bytes m (a 0) 208))];
       if ret r \<ge> 0 then do { poke (a 0) (export_timex (nums r)); State_Monad.return (ret r) }
       else State_Monad.return (ret r)
     }
   }"

abbreviation (input) SO_RCVTIMEO :: int where "SO_RCVTIMEO \<equiv> 20"
abbreviation (input) SO_SNDTIMEO :: int where "SO_SNDTIMEO \<equiv> 21"

definition px_setsockopt :: "'k px" where
  "px_setsockopt os h a = do {
     actual \<leftarrow> fd (c_int (a 0));
     let n = (ucast (ucast (a 4) :: u32) :: u64);
     p \<leftarrow> memory h (a 3) n;
     if actual < 0 \<or> (p = None \<and> n \<noteq> 0) then State_Monad.return (-1)
     else do {
       let level = c_int (a 1);
       let option = c_int (a 2);
       if level = SOL_SOCKET \<and> (option = SO_RCVTIMEO \<or> option = SO_SNDTIMEO) \<and> n = 16 then do {
         m \<leftarrow> peek_mem;
         calli os ''setsockopt'' [Fd actual, Num level, Num option,
           Nums (timeval_nums (import_guest_timeval (read_bytes m (a 3) 16))), Num 16]
       } else calli os ''setsockopt'' [Fd actual, Num level, Num option, mem_arg p n, Num (uint n)]
     }
   }"

definition px_getrusage :: "'k px" where
  "px_getrusage os h a = do {
     out \<leftarrow> memory h (a 1) 32;
     if out = None then State_Monad.return (-1)
     else do {
       r \<leftarrow> call os ''getrusage'' [Num (c_int (a 0))];
       export_result (a 1) export_timevals r
     }
   }"


subsection \<open>Groups and interfaces\<close>

definition px_getgrouplist :: "'k px" where
  "px_getgrouplist os h a = do {
     name \<leftarrow> string h (a 0);
     count \<leftarrow> memory h (a 3) 4;
     if name = None \<or> count = None then State_Monad.return (-1)
     else do {
       m \<leftarrow> peek_mem;
       let n = sint (load32 m (a 3));
       if n < 0 \<or> n > 65536 then fail EINVAL
       else do {
         groups \<leftarrow> (if n \<noteq> 0 then memory h (a 2) (word_of_int (n * 4)) else State_Monad.return None);
         if n \<noteq> 0 \<and> groups = None then State_Monad.return (-1)
         else calli os ''getgrouplist'' [Str (the name), Num (c_uint (a 1)),
           mem_arg groups (word_of_int (n * 4)), Mem (a 3) 4]
       }
     }
   }"

text \<open>
  An entry of the list \<^verbatim>\<open>getifaddrs\<close> returns. The call's result has five numbers for each
  entry, the flags, the length of the name, and the length of each of the three addresses or -1, and
  the bytes follow each other in its payload.
\<close>

record ifaddrs =
  ifa_flags :: int
  ifa_name :: "byte list"
  ifa_addr :: "byte list option"
  ifa_netmask :: "byte list option"
  ifa_broadaddr :: "byte list option"

definition cut_address :: "int \<Rightarrow> byte list \<Rightarrow> byte list option \<times> byte list" where
  "cut_address n bs = (if n < 0 then (None, bs) else (Some (take (nat n) bs), drop (nat n) bs))"

fun ifaddrs_list :: "int list \<Rightarrow> byte list \<Rightarrow> ifaddrs list" where
  "ifaddrs_list (fl # nm # ad # ms # bc # rest) bs =
     (let (address, b1) = cut_address ad (drop (nat nm) bs);
          (netmask, b2) = cut_address ms b1;
          (broad, b3) = cut_address bc b2
      in \<lparr>ifa_flags = fl, ifa_name = take (nat nm) bs, ifa_addr = address, ifa_netmask = netmask,
          ifa_broadaddr = broad\<rparr> # ifaddrs_list rest b3)"
| "ifaddrs_list _ _ = []"

definition ifaddrs_layout :: layout where
  "ifaddrs_layout = [U 8, U 8, U 4, Pad 4, U 8, U 8, U 8, U 8]"

primrec free_interfaces :: "'k machine os \<Rightarrow> nat \<Rightarrow> u64 \<Rightarrow> ('k, unit) hostm" where
  "free_interfaces os 0 p = State_Monad.return ()"
| "free_interfaces os (Suc n) p =
     (if p = 0 then State_Monad.return ()
      else do {
        m \<leftarrow> peek_mem;
        let v = load_struct ifaddrs_layout m p;
        _ \<leftarrow> call os ''bpf_capsule_free'' [Num (v ! 1)];
        _ \<leftarrow> call os ''bpf_capsule_free'' [Num (v ! 3)];
        _ \<leftarrow> call os ''bpf_capsule_free'' [Num (v ! 4)];
        _ \<leftarrow> call os ''bpf_capsule_free'' [Num (v ! 5)];
        _ \<leftarrow> call os ''bpf_capsule_free'' [Num (uint p)];
        free_interfaces os n (word_of_int (v ! 0))
      })"

definition sockaddr_size :: "nat \<Rightarrow> nat" where
  "sockaddr_size family =
     (if family = 2 then 16 else if family = 10 then 28 else if family = 17 then 20 else 16)"

definition copy_sockaddr :: "'k machine os \<Rightarrow> byte list option \<Rightarrow> ('k, u64) hostm" where
  "copy_sockaddr os p =
     (case p of
        None \<Rightarrow> State_Monad.return 0
      | Some bs \<Rightarrow> do {
          c \<leftarrow> guest_copy os (take (sockaddr_size (le_dec (take 2 bs))) bs);
          State_Monad.return (pointer c)
        })"

text \<open>The loop; the result is whether it ran to the end, \<^verbatim>\<open>first\<close> and the number of entries made.\<close>

fun copy_interfaces ::
  "'k machine os \<Rightarrow> ifaddrs list \<Rightarrow> u64 \<Rightarrow> u64 option \<Rightarrow> nat \<Rightarrow> ('k, bool \<times> u64 \<times> nat) hostm" where
  "copy_interfaces os [] first prev n = State_Monad.return (True, first, n)"
| "copy_interfaces os (p # ps) first prev n = do {
     copied \<leftarrow> guest_copy os (encode_struct ifaddrs_layout [0, 0, ifa_flags p, 0, 0, 0, 0]);
     case copied of
       None \<Rightarrow> State_Monad.return (False, first, n)
     | Some item \<Rightarrow> do {
         (case prev of None \<Rightarrow> State_Monad.return () | Some q \<Rightarrow> poke q (le64 item));
         let first = (if prev = None then item else first);
         name \<leftarrow> guest_copy os (ifa_name p @ [0]);
         poke (item + 8) (le64 (pointer name));
         address \<leftarrow> copy_sockaddr os (ifa_addr p);
         poke (item + 24) (le64 address);
         netmask \<leftarrow> copy_sockaddr os (ifa_netmask p);
         poke (item + 32) (le64 netmask);
         broadcast \<leftarrow> copy_sockaddr os (ifa_broadaddr p);
         poke (item + 40) (le64 broadcast);
         if name = None \<or> (ifa_addr p \<noteq> None \<and> address = 0) \<or> (ifa_netmask p \<noteq> None \<and> netmask = 0) \<or>
            (ifa_broadaddr p \<noteq> None \<and> broadcast = 0)
         then State_Monad.return (False, first, Suc n)
         else copy_interfaces os ps first (Some item) (Suc n)
       }
   }"

definition px_getifaddrs :: "'k px" where
  "px_getifaddrs os h a = do {
     out \<leftarrow> memory h (a 0) 8;
     if out = None then State_Monad.return (-1)
     else do {
       poke (a 0) (le64 0);
       r \<leftarrow> call os ''getifaddrs'' [];
       if ret r \<noteq> 0 then State_Monad.return (-1)
       else do {
         res \<leftarrow> copy_interfaces os (ifaddrs_list (nums r) (payload r)) 0 None 0;
         _ \<leftarrow> call os ''freeifaddrs'' [];
         case res of (ok, first, n) \<Rightarrow>
           if ok then do { poke (a 0) (le64 first); State_Monad.return 0 }
           else do { free_interfaces os n first; fail ENOMEM }
       }
     }
   }"

subsection \<open>Signal descriptors\<close>

definition px_signalfd :: "'k px" where
  "px_signalfd os h a = do {
     bits \<leftarrow> memory h (a 1) 8;
     if bits = None then State_Monad.return (-1)
     else do {
       m \<leftarrow> peek_mem;
       let sigs = unpack_signal_mask (libc_signals h) (load64 m (a 1));
       actual \<leftarrow> (if c_int (a 0) < 0 then State_Monad.return (-1) else fd (c_int (a 0)));
       if c_int (a 0) \<ge> 0 \<and> actual < 0 then State_Monad.return (-1)
       else do {
         rc \<leftarrow> calli os ''signalfd'' [poll_arg actual, sigset_arg sigs,
           Num (uint (open_flags (ucast (a 2))))];
         if actual < 0 then save_fd os rc 0
         else State_Monad.return (if rc < 0 then -1 else c_int (a 0))
       }
     }
   }"

definition siginfo_layout :: layout where
  "siginfo_layout = [I 4, I 4, I 4, I 4, U 4, I 4, U 8]"

definition px_sigtimedwait :: "'k px" where
  "px_sigtimedwait os h a = do {
     bits \<leftarrow> memory h (a 0) 8;
     out \<leftarrow> memory h (a 1) 32;
     timeout \<leftarrow> opt_memory h (a 2) 16;
     if bits = None \<or> out = None \<or> (a 2 \<noteq> 0 \<and> timeout = None) then State_Monad.return (-1)
     else do {
       m \<leftarrow> peek_mem;
       r \<leftarrow> call os ''sigtimedwait'' [sigset_arg (unpack_signal_mask (libc_signals h) (load64 m (a 0))),
         mem_arg timeout 16];
       if ret r \<ge> 0 then do {
         poke (a 1) (encode_struct siginfo_layout (nums r));
         State_Monad.return (ret r)
       } else State_Monad.return (ret r)
     }
   }"

subsection \<open>Configuration and System V IPC\<close>

text \<open>\<^verbatim>\<open>_SC_CLK_TCK\<close>, \<^verbatim>\<open>_SC_NPROCESSORS_CONF\<close>, \<^verbatim>\<open>_SC_NPROCESSORS_ONLN\<close>, \<^verbatim>\<open>_SC_PHYS_PAGES\<close>.\<close>

definition sysconf_names :: "int list" where "sysconf_names = [0, 2, 83, 84, 85]"

definition px_sysconf :: "'k px" where
  "px_sysconf os h a =
     (if a 0 < 1 \<or> a 0 > 4 then fail EINVAL
      else calli os ''sysconf'' [Num (sysconf_names ! unat (a 0))])"

abbreviation (input) IPC_SET :: int where "IPC_SET \<equiv> 1"
abbreviation (input) IPC_STAT :: int where "IPC_STAT \<equiv> 2"
abbreviation (input) IPC_INFO :: int where "IPC_INFO \<equiv> 3"
abbreviation (input) MSG_INFO :: int where "MSG_INFO \<equiv> 12"
abbreviation (input) GETALL :: int where "GETALL \<equiv> 13"
abbreviation (input) SHM_INFO :: int where "SHM_INFO \<equiv> 14"
abbreviation (input) SETVAL :: int where "SETVAL \<equiv> 16"
abbreviation (input) SETALL :: int where "SETALL \<equiv> 17"
abbreviation (input) SEM_STAT :: int where "SEM_STAT \<equiv> 18"
abbreviation (input) SEM_INFO :: int where "SEM_INFO \<equiv> 19"
abbreviation (input) SEM_STAT_ANY :: int where "SEM_STAT_ANY \<equiv> 20"

definition ipc_size :: "u64 \<Rightarrow> int \<Rightarrow> u64" where
  "ipc_size kind command =
     (if kind = 1 then (if command = IPC_INFO \<or> command = MSG_INFO then 32 else 120)
      else if kind = 2 then (if command = IPC_INFO then 72 else if command = SHM_INFO then 48 else 112)
      else (if command = IPC_INFO \<or> command = SEM_INFO then 40 else 104))"

definition semaphore_record :: "u64 \<Rightarrow> int \<Rightarrow> bool" where
  "semaphore_record kind command \<longleftrightarrow> kind = 3 \<and>
     (command = IPC_STAT \<or> command = IPC_SET \<or> command = SEM_STAT \<or> command = SEM_STAT_ANY)"

definition px_ipcctl :: "'k px" where
  "px_ipcctl os h a = do {
     let command = c_int (a 2);
     let n = ipc_size (a 0) command;
     buffer \<leftarrow> (if a 3 \<noteq> 0 \<and> command \<noteq> SETVAL then memory h (a 3) n else State_Monad.return None);
     if a 3 \<noteq> 0 \<and> command \<noteq> SETVAL \<and> buffer = None then State_Monad.return (-1)
     else if a 0 = 1 then calli os ''msgctl'' [Num (c_int (a 1)), Num command, mem_arg buffer n]
     else if a 0 = 2 then calli os ''shmctl'' [Num (c_int (a 1)), Num command, mem_arg buffer n]
     else if command = GETALL \<or> command = SETALL then fail ENOTSUP
     else do {
       m \<leftarrow> peek_mem;
       let native = semaphore_record (a 0) command \<and> buffer \<noteq> None;
       r \<leftarrow> call os ''semctl'' [Num (c_int (a 1)), Num (c_int (a 4)), Num command,
         (if command = SETVAL then Num (c_int (a 3))
          else if native then Nums (import_semid (read_bytes m (a 3) 104))
          else mem_arg buffer n)];
       if ret r \<ge> 0 \<and> native \<and> command \<noteq> IPC_SET then do {
         poke (a 3) (export_semid (nums r));
         State_Monad.return (ret r)
       } else State_Monad.return (ret r)
     }
   }"

definition misc_table :: "(u64 \<times> 'k px) list" where
  "misc_table =
    [(1026, px_sem_open), (1027, px_sem_close), (1028, px_sem_unlink), (1029, px_git_strftime),
     (1012, px_openat), (1013, px_fstatat), (1014, px_fdopendir), (1015, px_epoll_ctl),
     (66, px_epoll_wait), (63, px_statvfs), (64, px_fstatvfs), (13, px_utimes), (45, px_adjtime),
     (62, px_setitimer), (67, px_adjtimex), (32, px_setsockopt), (1016, px_getrusage),
     (1017, px_getgrouplist), (1018, px_getifaddrs), (1019, px_signalfd), (1020, px_sigtimedwait),
     (1021, px_sysconf), (1022, px_ipcctl)]"

subsection \<open>Confinement\<close>

lemma safe_format_calendar [safe_rules]:
  "os_ok g os \<Longrightarrow> range_ok g p (unat n) \<Longrightarrow> (\<And>r. Q r) \<Longrightarrow> safe g (format_calendar os p n format v zone) Q"
  unfolding format_calendar_def Let_def by (intro safe_rules) auto

lemma free_dir_bound: "free_dir ds k = Some i \<Longrightarrow> k \<le> i \<and> i < k + length ds \<and> ds ! (i - k) = None"
  by (induction ds k rule: free_dir.induct) (auto simp: nth_Cons' split: if_splits)

lemma safe_bind_set_dir [safe_rules]:
  "i < MAX_DIRS \<Longrightarrow> dir = None \<or> 0 \<le> number \<and> number < int MAX_FDS \<Longrightarrow> safe g (f ()) Q \<Longrightarrow>
     safe g (State_Monad.bind (set_dir i dir number) f) Q"
  by (rule safe_bindI [where P = "\<lambda>_. True"], rule safeI)
    (auto simp: set_dir_def wp_update confined_def host_inv_def pending_signal_def nth_list_update)

lemma misc_sizes [simp]:
  "length (export_stat v) = 128" "length (export_statvfs v) = 88" "length (export_timevals v) = 32"
  "length (export_timex v) = 208" "length (export_semid v) = 104" "length (export_timeval t) = 16"
  "struct_size siginfo_layout = 32" "struct_size ifaddrs_layout = 56"
  by (simp_all add: export_stat_def stat_layout_def export_statvfs_def statvfs_layout_def
      export_timevals_def export_timeval_def timeval_layout_def export_timex_def timex_layout_def
      export_semid_def semid_layout_def siginfo_layout_def ifaddrs_layout_def numeral_eq_Suc)

lemma safe_export_result [safe_rules]:
  "(\<And>v. range_ok g out (length (f v))) \<Longrightarrow> (\<And>r. Q r) \<Longrightarrow> safe g (export_result out f r) Q"
  unfolding export_result_def by (intro safe_rules) auto

lemma length_epoll_events [simp]: "length (export_epoll_events es) = 16 * length es"
  by (induction es) (simp_all add: epoll_layout_def)

lemma epoll_events_fit:
  assumes "os_ok g os" "0 < count" "count \<le> 1024"
    "range_ok g p (unat (word_of_int (count * 16) :: u64))"
    "r = fst (os (Call ''epoll_wait'' [d, Num count, t]) w)"
  shows "range_ok g p (length (export_epoll_events (take (nat (ret r)) es)))"
proof -
  have "ret r \<le> max 0 count" using assms(1,5) by (simp add: os_ok_def os_events_def)
  then have "16 * length (take (nat (ret r)) es) \<le> nat (count * 16)" using assms(2) by auto
  moreover have "unat (word_of_int (count * 16) :: u64) = nat (count * 16)"
    using assms(2,3) by (intro control_length) simp_all
  ultimately show ?thesis using assms(4) by (metis length_epoll_events range_ok_mono)
qed


lemma safe_epoll_wait:
  assumes os: "os_ok g os" and g: "geometry_ok g"
  shows "safe g (px_epoll_wait os g a) (\<lambda>_. True)"
  unfolding px_epoll_wait_def Let_def
  by (intro safe_with safe_if safe_fail safe_return safe_bind_memory safe_bind_call_raw safe_bind_poke TrueI os g)
    (auto simp: BRIDGE_EPOLL_EVENTS_def simp del: length_epoll_events
      intro!: epoll_events_fit [OF os, of "c_int (a 2)"])

lemma safe_fdopendir:
  assumes os: "os_ok g os"
  shows "safe g (px_fdopendir os g a) (\<lambda>_. True)"
  unfolding px_fdopendir_def with_fd_def
  by (intro safe_rules os) (auto simp: host_inv_def dest: free_dir_bound)

lemma safe_bind_copy_sockaddr [safe_rules]:
  "os_ok g os \<Longrightarrow> (\<And>x. safe g (f x) Q) \<Longrightarrow> safe g (State_Monad.bind (copy_sockaddr os p) f) Q"
  unfolding copy_sockaddr_def by (intro safe_rules) auto

lemma safe_free_interfaces: "os_ok g os \<Longrightarrow> safe g (free_interfaces os n p) (\<lambda>_. True)"
  by (induction n arbitrary: p) (auto intro!: safe_rules)

lemma safe_copy_interfaces:
  assumes os: "os_ok g os"
  shows "(\<forall>q. prev = Some q \<longrightarrow> range_ok g q 56) \<Longrightarrow>
    safe g (copy_interfaces os ps first prev n) (\<lambda>_. True)"
proof (induction ps arbitrary: first prev n)
  case (Cons p ps)
  then show ?case
    by (auto intro!: safe_rules range_ok_offset [where n = 56] os intro: range_ok_mono)
qed (auto intro: safe_rules)

lemma safe_getifaddrs: "os_ok g os \<Longrightarrow> geometry_ok g \<Longrightarrow> safe g (px_getifaddrs os g a) (\<lambda>_. True)"
  unfolding px_getifaddrs_def
  by (intro safe_rules safe_bindI [OF safe_copy_interfaces] safe_bindI [OF safe_free_interfaces]) auto


lemma ipc_semaphore_size: "semaphore_record kind command \<Longrightarrow> unat (ipc_size kind command) = 104"
  by (auto simp: semaphore_record_def ipc_size_def)

lemma safe_misc_files:
  assumes os: "os_ok g os" and g: "geometry_ok g"
  shows "safe g (px_sem_open os g a) (\<lambda>_. True)" "safe g (px_sem_close os g a) (\<lambda>_. True)"
    "safe g (px_sem_unlink os g a) (\<lambda>_. True)" "safe g (px_git_strftime os g a) (\<lambda>_. True)"
    "safe g (px_openat os g a) (\<lambda>_. True)" "safe g (px_fstatat os g a) (\<lambda>_. True)"
    "safe g (px_epoll_ctl os g a) (\<lambda>_. True)" "safe g (px_statvfs os g a) (\<lambda>_. True)"
    "safe g (px_fstatvfs os g a) (\<lambda>_. True)"
  unfolding px_sem_open_def px_sem_close_def px_sem_unlink_def px_git_strftime_def px_openat_def
    px_fstatat_def px_epoll_ctl_def px_statvfs_def px_fstatvfs_def Let_def
  by (intro safe_rules os g; auto split: option.splits)+

lemma safe_misc_clocks:
  assumes os: "os_ok g os" and g: "geometry_ok g"
  shows "safe g (px_utimes os g a) (\<lambda>_. True)" "safe g (px_adjtime os g a) (\<lambda>_. True)"
    "safe g (px_setitimer os g a) (\<lambda>_. True)" "safe g (px_adjtimex os g a) (\<lambda>_. True)"
    "safe g (px_setsockopt os g a) (\<lambda>_. True)" "safe g (px_getrusage os g a) (\<lambda>_. True)"
  unfolding px_utimes_def px_adjtime_def px_setitimer_def px_adjtimex_def px_setsockopt_def
    px_getrusage_def Let_def
  by (intro safe_rules os g; auto split: option.splits)+

lemma safe_misc_rest:
  assumes os: "os_ok g os" and g: "geometry_ok g"
  shows "safe g (px_getgrouplist os g a) (\<lambda>_. True)" "safe g (px_signalfd os g a) (\<lambda>_. True)"
    "safe g (px_sigtimedwait os g a) (\<lambda>_. True)" "safe g (px_sysconf os g a) (\<lambda>_. True)"
    "safe g (px_ipcctl os g a) (\<lambda>_. True)"
  unfolding px_getgrouplist_def px_signalfd_def px_sigtimedwait_def px_sysconf_def px_ipcctl_def Let_def
  by (intro safe_rules os g; auto simp: ipc_semaphore_size split: option.splits)+

lemma misc_table_safe:
  assumes "os_ok g os" "geometry_ok g"
  shows "list_all (\<lambda>e. safe g (snd e os g a) (\<lambda>_. True)) misc_table"
  using safe_misc_files [OF assms] safe_misc_clocks [OF assms] safe_misc_rest [OF assms]
    safe_epoll_wait [OF assms] safe_fdopendir [OF assms(1)] safe_getifaddrs [OF assms]
  by (simp add: misc_table_def)

end
