(* ===== verification/Bridge_Raw.thy ===== *)
theory Bridge_Raw
  imports Bridge_Misc
begin

text \<open>
  The raw system calls, \<^verbatim>\<open>prctl\<close> and \<^verbatim>\<open>ptrace\<close> (\<^verbatim>\<open>src/src/raw_host.h\<close>,
  \<^verbatim>\<open>src/src/native_syscalls.h\<close>): which calls the guest may make by number, and the checks
  of their pointers and descriptors. On x86-64 the wire numbers are the native ones. In the trace a
  checked pointer is \<open>Mem\<close>, a checked string the string, a translated descriptor \<open>Fd\<close>.
\<close>

subsection \<open>Process control\<close>

text \<open>The operations of \<^verbatim>\<open>prctl\<close> that take a pointer, with its size, and those that take none.\<close>

definition prctl_pointers :: "(u64 \<times> u64) list" where
  "prctl_pointers = [(2, 4), (37, 4), (15, 16), (16, 16)]"

definition prctl_plain :: "u64 list" where
  "prctl_plain = [1, 36, 3, 4, 7, 8, 23, 24, 27, 28, 47, 38, 39]"

definition px_prctl :: "'k px" where
  "px_prctl os h a =
     (let rest = [Num (uint (a 2)), Num (uint (a 3)), Num (uint (a 4))] in
      case map_of prctl_pointers (a 0) of
        Some n \<Rightarrow> do {
          p \<leftarrow> memory h (a 1) n;
          if p = None then State_Monad.return (-1)
          else calli os ''prctl'' ([Num (c_int (a 0)), mem_arg p n] @ rest)
        }
      | None \<Rightarrow>
          if a 0 \<in> set prctl_plain
          then calli os ''prctl'' ([Num (c_int (a 0)), Num (uint (a 1))] @ rest)
          else fail ENOTSUP)"

text \<open>\<^verbatim>\<open>PTRACE_GETREGS\<close> and \<^verbatim>\<open>PTRACE_GETEVENTMSG\<close> store through their last argument.\<close>

definition ptrace_pointers :: "(u64 \<times> u64) list" where
  "ptrace_pointers = [(12, 216), (0x4201, 8)]"

definition ptrace_plain :: "u64 list" where
  "ptrace_plain = [0, 16, 17, 24, 7, 0x4200, 2, 1]"

definition px_ptrace :: "'k px" where
  "px_ptrace os h a =
     (let front = [Num (c_int (a 0)), Num (c_int (a 1)), Num (uint (a 2))] in
      case map_of ptrace_pointers (a 0) of
        Some n \<Rightarrow> do {
          p \<leftarrow> memory h (a 3) n;
          if p = None then State_Monad.return (-1)
          else calli os ''ptrace'' (front @ [mem_arg p n])
        }
      | None \<Rightarrow>
          if a 0 \<in> set ptrace_plain then calli os ''ptrace'' (front @ [Num (uint (a 3))])
          else fail ENOTSUP)"

subsection \<open>System calls by number\<close>

definition LINUX_BASH_SYSCALLS :: "u64 list" where
  "LINUX_BASH_SYSCALLS = [56, 103, 125, 126, 143, 144, 145, 155, 176, 248, 250, 251, 252, 302, 313,
     314, 315, 317, 318, 424, 434]"

definition native_syscall_number :: "u64 \<Rightarrow> int" where
  "native_syscall_number wire = (if wire \<in> set LINUX_BASH_SYSCALLS then uint wire else -1)"

abbreviation (input) SYS_syslog :: int where "SYS_syslog \<equiv> 103"
abbreviation (input) SYS_capget :: int where "SYS_capget \<equiv> 125"
abbreviation (input) SYS_capset :: int where "SYS_capset \<equiv> 126"
abbreviation (input) SYS_sched_getparam :: int where "SYS_sched_getparam \<equiv> 143"
abbreviation (input) SYS_sched_setscheduler :: int where "SYS_sched_setscheduler \<equiv> 144"
abbreviation (input) SYS_sched_getscheduler :: int where "SYS_sched_getscheduler \<equiv> 145"
abbreviation (input) SYS_pivot_root :: int where "SYS_pivot_root \<equiv> 155"
abbreviation (input) SYS_delete_module :: int where "SYS_delete_module \<equiv> 176"
abbreviation (input) SYS_add_key :: int where "SYS_add_key \<equiv> 248"
abbreviation (input) SYS_keyctl :: int where "SYS_keyctl \<equiv> 250"
abbreviation (input) SYS_ioprio_set :: int where "SYS_ioprio_set \<equiv> 251"
abbreviation (input) SYS_ioprio_get :: int where "SYS_ioprio_get \<equiv> 252"
abbreviation (input) SYS_prlimit64 :: int where "SYS_prlimit64 \<equiv> 302"
abbreviation (input) SYS_finit_module :: int where "SYS_finit_module \<equiv> 313"
abbreviation (input) SYS_sched_setattr :: int where "SYS_sched_setattr \<equiv> 314"
abbreviation (input) SYS_sched_getattr :: int where "SYS_sched_getattr \<equiv> 315"
abbreviation (input) SYS_seccomp :: int where "SYS_seccomp \<equiv> 317"
abbreviation (input) SYS_getrandom :: int where "SYS_getrandom \<equiv> 318"
abbreviation (input) SYS_pidfd_send_signal :: int where "SYS_pidfd_send_signal \<equiv> 424"
abbreviation (input) SYS_pidfd_open :: int where "SYS_pidfd_open \<equiv> 434"

text \<open>
  A check that jumps out of the \<^verbatim>\<open>switch\<close> with -1 when it fails; on success the continuation
  gets the argument to pass. The checks' result says which of the six arguments are not plain words.
\<close>

type_synonym overrides = "(nat \<times> arg) list"

definition need_memory ::
  "geometry \<Rightarrow> u64 \<Rightarrow> u64 \<Rightarrow> (arg \<Rightarrow> ('k, overrides option) hostm) \<Rightarrow> ('k, overrides option) hostm" where
  "need_memory h x n f = do {
     p \<leftarrow> memory h x n;
     if p = None then State_Monad.return None else f (mem_arg p n)
   }"

definition need_string ::
  "geometry \<Rightarrow> u64 \<Rightarrow> (arg \<Rightarrow> ('k, overrides option) hostm) \<Rightarrow> ('k, overrides option) hostm" where
  "need_string h x f = do {
     p \<leftarrow> string h x;
     case p of None \<Rightarrow> State_Monad.return None | Some str \<Rightarrow> f (Str str)
   }"

definition need_fd :: "u64 \<Rightarrow> (arg \<Rightarrow> ('k, overrides option) hostm) \<Rightarrow> ('k, overrides option) hostm" where
  "need_fd x f = do {
     real \<leftarrow> fd (c_int x);
     if real < 0 then State_Monad.return None else f (Fd real)
   }"

definition pass :: "overrides \<Rightarrow> ('k, overrides option) hostm" where
  "pass xs = State_Monad.return (Some xs)"

definition refuse :: "('k, overrides option) hostm" where
  "refuse = do { set_errno ENOTSUP; State_Monad.return None }"

definition keyctl_check :: "geometry \<Rightarrow> (nat \<Rightarrow> u64) \<Rightarrow> ('k, overrides option) hostm" where
  "keyctl_check h v =
     (if v 0 = 1 then (if v 1 \<noteq> 0 then need_string h (v 1) (\<lambda>x. pass [(1, x)]) else pass [])
      else if v 0 = 10 then
        need_string h (v 2) (\<lambda>x. need_string h (v 3) (\<lambda>y. pass [(2, x), (3, y)]))
      else if v 0 = 11 then
        (if v 3 \<noteq> 0 then need_memory h (v 2) (v 3) (\<lambda>x. pass [(2, x)]) else pass [])
      else if v 0 = 3 \<or> v 0 = 7 then pass []
      else refuse)"

definition fprog_layout :: layout where "fprog_layout = [U 2, Pad 6, U 8]"

definition seccomp_check :: "geometry \<Rightarrow> (nat \<Rightarrow> u64) \<Rightarrow> ('k, overrides option) hostm" where
  "seccomp_check h v =
     (if v 0 \<noteq> 1 then refuse
      else need_memory h (v 2) 16 (\<lambda>program. do {
        m \<leftarrow> peek_mem;
        let w = load_struct fprog_layout m (v 2);
        if w ! 0 > 4096 then State_Monad.return None
        else need_memory h (word_of_int (w ! 1)) (word_of_int (w ! 0 * 8)) (\<lambda>filter. pass [(2, program)])
      }))"

definition raw_check :: "geometry \<Rightarrow> int \<Rightarrow> (nat \<Rightarrow> u64) \<Rightarrow> ('k, overrides option) hostm" where
  "raw_check h n v =
     (if n = SYS_getrandom then
        (if v 1 \<noteq> 0 then need_memory h (v 0) (v 1) (\<lambda>x. pass [(0, x)]) else pass [])
      else if n = SYS_add_key then
        need_string h (v 0) (\<lambda>x. need_string h (v 1) (\<lambda>y.
          if v 3 \<noteq> 0 then need_memory h (v 2) (v 3) (\<lambda>z. pass [(0, x), (1, y), (2, z)])
          else pass [(0, x), (1, y)]))
      else if n = SYS_keyctl then keyctl_check h v
      else if n = SYS_seccomp then seccomp_check h v
      else if n = SYS_pidfd_send_signal then
        need_fd (v 0) (\<lambda>x. if v 2 \<noteq> 0 then refuse else pass [(0, x)])
      else if n = SYS_capget \<or> n = SYS_capset then
        need_memory h (v 0) 8 (\<lambda>x. need_memory h (v 1) 24 (\<lambda>y. pass [(0, x), (1, y)]))
      else if n = SYS_sched_getscheduler \<or> n = SYS_ioprio_get \<or> n = SYS_ioprio_set then pass []
      else if n = SYS_sched_getparam then need_memory h (v 1) 4 (\<lambda>x. pass [(1, x)])
      else if n = SYS_sched_setscheduler then need_memory h (v 2) 4 (\<lambda>x. pass [(2, x)])
      else if n = SYS_sched_getattr then need_memory h (v 1) (v 2) (\<lambda>x. pass [(1, x)])
      else if n = SYS_sched_setattr then
        need_memory h (v 1) 4 (\<lambda>_. do {
          m \<leftarrow> peek_mem;
          need_memory h (v 1) (ucast (load32 m (v 1))) (\<lambda>x. pass [(1, x)])
        })
      else if n = SYS_prlimit64 then
        (if v 2 \<noteq> 0 then need_memory h (v 2) 16 (\<lambda>x.
           if v 3 \<noteq> 0 then need_memory h (v 3) 16 (\<lambda>y. pass [(2, x), (3, y)]) else pass [(2, x)])
         else if v 3 \<noteq> 0 then need_memory h (v 3) 16 (\<lambda>y. pass [(3, y)]) else pass [])
      else if n = SYS_pivot_root then
        need_string h (v 0) (\<lambda>x. need_string h (v 1) (\<lambda>y. pass [(0, x), (1, y)]))
      else if n = SYS_finit_module then
        need_fd (v 0) (\<lambda>x. need_string h (v 1) (\<lambda>y. pass [(0, x), (1, y)]))
      else if n = SYS_delete_module then need_string h (v 0) (\<lambda>x. pass [(0, x)])
      else if n = SYS_syslog then
        (if v 1 \<noteq> 0 \<and> v 2 \<noteq> 0 then need_memory h (v 1) (v 2) (\<lambda>x. pass [(1, x)]) else pass [])
      else refuse)"

definition raw_args :: "(nat \<Rightarrow> u64) \<Rightarrow> overrides \<Rightarrow> arg list" where
  "raw_args v xs =
     map (\<lambda>i. case map_of xs i of Some x \<Rightarrow> x | None \<Rightarrow> Num (uint (v i))) [0..<6]"

definition raw_call :: "'k machine os \<Rightarrow> geometry \<Rightarrow> int \<Rightarrow> (nat \<Rightarrow> u64) \<Rightarrow> ('k, int) hostm" where
  "raw_call os h n v =
     (if n = SYS_pidfd_open
      then adopt_call os ''syscall'' [Num n, Num (uint (v 0)), Num (uint (v 1))]
      else do {
        xs \<leftarrow> raw_check h n v;
        case xs of
          None \<Rightarrow> State_Monad.return (-1)
        | Some xs \<Rightarrow> calli os ''syscall'' (Num n # raw_args v xs)
      })"

definition px_raw_syscall :: "'k px" where
  "px_raw_syscall os h a = do {
     p \<leftarrow> memory h (a 0) 56;
     if p = None then State_Monad.return (-1)
     else do {
       m \<leftarrow> peek_mem;
       let n = native_syscall_number (load64 m (a 0));
       let v = (\<lambda>i. load64 m (a 0 + 8 + of_nat (8 * i)));
       if n < 0 then fail ENOTSUP else raw_call os h n v
     }
   }"

text \<open>\<^verbatim>\<open>service_raw\<close> is the last of the chained switches.\<close>

definition service_raw :: "'k machine os \<Rightarrow> geometry \<Rightarrow> u64 \<Rightarrow> (nat \<Rightarrow> u64) \<Rightarrow> ('k, int) hostm" where
  "service_raw os h operation a =
     (if operation = 1024 then px_prctl os h a
      else if operation = 1025 then px_ptrace os h a
      else if operation \<noteq> 1023 then fail ENOSYS
      else px_raw_syscall os h a)"

text \<open>The chain \<^verbatim>\<open>service_posix\<close>, \<^verbatim>\<open>service_posix_extra\<close>, \<^verbatim>\<open>service_misc\<close>, \<^verbatim>\<open>service_raw\<close>.\<close>

definition service_posix :: "'k machine os \<Rightarrow> geometry \<Rightarrow> u64 \<Rightarrow> (nat \<Rightarrow> u64) \<Rightarrow> ('k, int) hostm" where
  "service_posix os h operation a =
     (case map_of posix_table operation of
        Some f \<Rightarrow> f os h a
      | None \<Rightarrow>
          (case map_of network_table operation of
             Some f \<Rightarrow> f os h a
           | None \<Rightarrow>
               (case map_of misc_table operation of
                  Some f \<Rightarrow> f os h a
                | None \<Rightarrow> service_raw os h operation a)))"

subsection \<open>Confinement\<close>

definition overrides_safe :: "geometry \<Rightarrow> overrides option \<Rightarrow> bool" where
  "overrides_safe g r = (case r of None \<Rightarrow> True | Some xs \<Rightarrow> list_all (\<lambda>e. arg_safe g (snd e)) xs)"

lemma safe_need [safe_rules]:
  "geometry_ok g \<Longrightarrow> (\<And>x. arg_safe g x \<Longrightarrow> safe g (f x) (overrides_safe g)) \<Longrightarrow>
     safe g (need_memory g p n f) (overrides_safe g)"
  "geometry_ok g \<Longrightarrow> (\<And>x. arg_safe g x \<Longrightarrow> safe g (f x) (overrides_safe g)) \<Longrightarrow>
     safe g (need_string g p f) (overrides_safe g)"
  "(\<And>x. arg_safe g x \<Longrightarrow> safe g (f x) (overrides_safe g)) \<Longrightarrow> safe g (need_fd p f) (overrides_safe g)"
  "list_all (\<lambda>e. arg_safe g (snd e)) xs \<Longrightarrow> safe g (pass xs) (overrides_safe g)"
  "safe g refuse (overrides_safe g)"
  unfolding need_memory_def need_string_def need_fd_def pass_def refuse_def
  by (intro safe_rules; auto simp: overrides_safe_def)+

lemma safe_seccomp_check: "geometry_ok g \<Longrightarrow> safe g (seccomp_check g v) (overrides_safe g)"
  unfolding seccomp_check_def Let_def by (intro safe_rules) (auto simp: overrides_safe_def)

lemma safe_raw_check: "geometry_ok g \<Longrightarrow> safe g (raw_check g n v) (overrides_safe g)"
  unfolding raw_check_def keyctl_check_def by (intro safe_rules safe_seccomp_check) simp_all

lemma raw_args_safe: "overrides_safe g (Some xs) \<Longrightarrow> list_all (arg_safe g) (raw_args v xs)"
  by (auto simp: raw_args_def overrides_safe_def list_all_iff split: option.splits dest!: map_of_SomeD)

lemma safe_service_raw:
  assumes os: "os_ok g os" and g: "geometry_ok g"
  shows "safe g (service_raw os g operation a) (\<lambda>_. True)"
  unfolding service_raw_def px_prctl_def px_ptrace_def px_raw_syscall_def raw_call_def Let_def
  by (intro safe_rules os g safe_bindI [OF safe_raw_check [OF g]])
    (auto simp: raw_args_safe)

lemma safe_table:
  "list_all (\<lambda>e. safe g (snd e os g a) Q) table \<Longrightarrow> map_of table operation = Some f \<Longrightarrow> safe g (f os g a) Q"
  by (force simp: list_all_iff dest!: map_of_SomeD)

lemma safe_service_posix:
  assumes "os_ok g os" "geometry_ok g"
  shows "safe g (service_posix os g operation a) (\<lambda>_. True)"
  unfolding service_posix_def
  by (intro safe_case_option safe_table [OF posix_table_safe [OF assms]] safe_table [OF network_table_safe [OF assms]]
      safe_table [OF misc_table_safe [OF assms]] safe_service_raw [OF assms])

subsection \<open>Properties\<close>

lemma emits_checks [emits_rules]:
  "emits P (memory h x n)" "emits P (string h x)" "emits P peek_mem" "emits P (fd i)"
  unfolding memory_def string_def peek_mem_def fd_def Let_def by (intro emits_rules)+

lemma emits_need [emits_rules]:
  "(\<And>x. emits P (f x)) \<Longrightarrow> emits P (need_memory h p n f)"
  "(\<And>x. emits P (f x)) \<Longrightarrow> emits P (need_string h p f)"
  "(\<And>x. emits P (f x)) \<Longrightarrow> emits P (need_fd p f)"
  "emits P (pass xs)" "emits P refuse"
  unfolding need_memory_def need_string_def need_fd_def pass_def refuse_def by (intro emits_rules; simp)+

lemma raw_check_clone: "n \<notin> uint ` set LINUX_BASH_SYSCALLS - {56} \<Longrightarrow> raw_check h n v = refuse"
  by (simp add: raw_check_def LINUX_BASH_SYSCALLS_def)

lemma emits_raw_check: "emits P (raw_check h n v)"
  unfolding raw_check_def keyctl_check_def seccomp_check_def Let_def by (intro emits_rules)

lemma refuse_bind: "State_Monad.bind refuse f = do { set_errno ENOTSUP; f None }"
  by (simp add: refuse_def)

lemma raw_syscalls_emitted:
  "emits (\<lambda>c. cname c = ''syscall'' \<longrightarrow>
     (\<exists>n rest. cargs c = Num n # rest \<and> n \<in> uint ` set LINUX_BASH_SYSCALLS - {56})) (service_raw os h operation a)"
proof -
  let ?P = "\<lambda>c. cname c = ''syscall'' \<longrightarrow>
     (\<exists>n rest. cargs c = Num n # rest \<and> n \<in> uint ` set LINUX_BASH_SYSCALLS - {56})"
  have "emits ?P (raw_call os h n v)" for n v
  proof (cases "n \<in> uint ` set LINUX_BASH_SYSCALLS - {56}")
    case True
    then show ?thesis
      unfolding raw_call_def adopt_call_def save_fd_def adopt_descriptor_def
      by (intro emits_rules emits_raw_check) (auto simp: set_fd_def intro!: emits_update)
  next
    case False
    then have "n \<noteq> 434" by (auto simp: LINUX_BASH_SYSCALLS_def)
    with False show ?thesis
      by (simp add: raw_call_def raw_check_clone refuse_bind) (intro emits_rules)
  qed
  then show ?thesis
    unfolding service_raw_def px_prctl_def px_ptrace_def px_raw_syscall_def Let_def
    by (intro emits_rules) auto
qed

text \<open>
  C24. The guest reaches only the declared Linux calls by number: whatever request
  \<^verbatim>\<open>service_raw\<close> is given, every \<^verbatim>\<open>syscall\<close> it makes has a number of
  \<^verbatim>\<open>LINUX_BASH_SYSCALLS\<close> other than \<^verbatim>\<open>clone\<close>, which would share the loader's address
  space.
\<close>
theorem raw_syscalls_listed:
  assumes "run_state (service_raw os h operation a) s = (r, t)"
    and "(Call ''syscall'' args, res) \<in> set (drop (length (trace s)) (trace t))"
  shows "\<exists>n rest. args = Num n # rest \<and> n \<in> uint ` set LINUX_BASH_SYSCALLS - {56}"
  using emitsD [OF raw_syscalls_emitted assms] by simp

text \<open>A request in guest memory for the system call \<open>words ! 0\<close> with the arguments that follow.\<close>

definition demo_words :: "u64 \<Rightarrow> u64 list \<Rightarrow> u64 \<Rightarrow> byte" where
  "demo_words p words = write_bytes (\<lambda>_. 0) p (words_bytes words)"

lemma memory_granted:
  "available h x \<noteq> 0 \<Longrightarrow> n \<le> available h x \<Longrightarrow> memory h x n = State_Monad.return (Some x)"
  by (auto simp: memory_def)

lemma run_peek: "run_state peek_mem s = (gmem (world s), s)"
  by (simp add: peek_mem_def gets_def)

lemma six: "[0..<6] = [0, 1, 2, 3, 4, 5 :: nat]"
  by code_simp

lemma seccomp_check_long:
  assumes "v 0 = 1" "available h (v 2) \<noteq> 0" "16 \<le> available h (v 2)"
    "load_struct fprog_layout (gmem (world s)) (v 2) ! 0 > 4096"
  shows "run_state (seccomp_check h v) s = (None, s)"
  using assms by (simp add: seccomp_check_def need_memory_def memory_granted run_peek Let_def)

lemma demo_words_load:
  "i < length ws \<Longrightarrow> 8 * length ws < 2 ^ 64 \<Longrightarrow> load64 (demo_words p ws) (p + of_nat (8 * i)) = ws ! i"
  unfolding demo_words_def by (rule load64_words)

theorem raw_syscalls_listed_witness:
  "\<exists>n rest. [Num 145, Num 7, Num 0, Num 0, Num 0, Num 0, Num 0] = Num n # rest \<and>
     n \<in> uint ` set LINUX_BASH_SYSCALLS - {56}"
proof -
  let ?m = "demo_words 0x11000 [145, 7, 0, 0, 0, 0, 0]"
  let ?run = "run_state (service_raw demo_os demo_geometry 1023 (\<lambda>_. 0x11000)) (demo_host ?m)"
  have av: "available demo_geometry 0x11000 = 0xf000" by code_simp
  have "load64 ?m 0x11000 = 145" "load64 ?m 0x11008 = 7" "load64 ?m 0x11010 = 0" "load64 ?m 0x11018 = 0"
    "load64 ?m 0x11020 = 0" "load64 ?m 0x11028 = 0" "load64 ?m 0x11030 = 0"
    using demo_words_load [of 0 "[145, 7, 0, 0, 0, 0, 0]" "0x11000"] demo_words_load [of 1 "[145, 7, 0, 0, 0, 0, 0]" "0x11000"]
      demo_words_load [of 2 "[145, 7, 0, 0, 0, 0, 0]" "0x11000"] demo_words_load [of 3 "[145, 7, 0, 0, 0, 0, 0]" "0x11000"]
      demo_words_load [of 4 "[145, 7, 0, 0, 0, 0, 0]" "0x11000"] demo_words_load [of 5 "[145, 7, 0, 0, 0, 0, 0]" "0x11000"]
      demo_words_load [of 6 "[145, 7, 0, 0, 0, 0, 0]" "0x11000"]
    by simp_all
  then have "(Call ''syscall'' [Num 145, Num 7, Num 0, Num 0, Num 0, Num 0, Num 0],
      \<lparr>ret = 0, err = 0, nums = [], payload = []\<rparr>) \<in> set (drop (length (trace (demo_host ?m))) (trace (snd ?run)))"
    by (simp add: service_raw_def px_raw_syscall_def raw_call_def memory_granted av peek_mem_def gets_def
        State_Monad.bind_def State_Monad.return_def demo_host_def native_syscall_number_def
        LINUX_BASH_SYSCALLS_def raw_check_def pass_def raw_args_def six calli_def call_def demo_os_def Let_def)
  from raw_syscalls_listed [OF surjective_pairing this] show ?thesis by simp
qed

text \<open>
  C38. A filter program of more than 4096 instructions is refused without an error: the request
  returns -1, makes no call and leaves \<^verbatim>\<open>errno\<close> as it was, which is 0 when a request starts,
  so the guest sees a failure that reports no error.
\<close>
theorem seccomp_refused_silently:
  fixes s :: "'k host" and a :: "nat \<Rightarrow> u64"
  defines "m \<equiv> gmem (world s)" and "p \<equiv> load64 (gmem (world s)) (a 0 + 24)"
  assumes "56 \<le> available h (a 0)" "load64 m (a 0) = 317" "load64 m (a 0 + 8) = 1"
    and "16 \<le> available h p" "load_struct fprog_layout m p ! 0 > 4096"
  shows "run_state (service_raw os h 1023 a) s = (-1, s)"
proof -
  define v where "v = (\<lambda>i. load64 m (a 0 + 8 + 8 * of_nat i))"
  have v: "v 0 = 1" "v 2 = p" using assms(5) by (simp_all add: v_def m_def p_def add.assoc)
  have av: "available h (a 0) \<noteq> 0" "available h p \<noteq> 0" using assms(3,6) by auto
  have "run_state (seccomp_check h v) s = (None, s)"
    using assms(6,7) av v by (intro seccomp_check_long) (simp_all add: m_def)
  then show ?thesis
    using assms(3,4) av
    by (simp add: service_raw_def px_raw_syscall_def raw_call_def memory_granted run_peek m_def [symmetric]
        native_syscall_number_def LINUX_BASH_SYSCALLS_def raw_check_def Let_def v_def [symmetric])
qed

theorem seccomp_refused_silently_witness:
  "run_state (service_raw demo_os demo_geometry 1023 (\<lambda>_. 0x11000))
     (demo_host (demo_words 0x11000 [317, 1, 0, 0x11020, 5000, 0])) =
   (-1, demo_host (demo_words 0x11000 [317, 1, 0, 0x11020, 5000, 0]))"
proof -
  let ?m = "demo_words 0x11000 [317, 1, 0, 0x11020, 5000, 0]"
  have "gmem (world (demo_host ?m)) = ?m" by (simp add: demo_host_def)
  moreover have "available demo_geometry 0x11000 = 0xf000" "available demo_geometry 0x11020 = 0xefe0"
    by code_simp+
  moreover have "load64 ?m 0x11000 = 317" "load64 ?m 0x11008 = 1" "load64 ?m 0x11018 = 0x11020"
    using demo_words_load [of 0 "[317, 1, 0, 0x11020, 5000, 0]" "0x11000"]
      demo_words_load [of 1 "[317, 1, 0, 0x11020, 5000, 0]" "0x11000"]
      demo_words_load [of 3 "[317, 1, 0, 0x11020, 5000, 0]" "0x11000"]
    by simp_all
  moreover have "load_struct fprog_layout ?m 0x11020 ! 0 = 5000"
    using read_write_bytes [of 32 16 "words_bytes [317, 1, 0, 0x11020, 5000, 0]" "\<lambda>_. 0" "0x11000"]
    by (simp add: load_struct_def fprog_layout_def demo_words_def words_bytes_def le64_def le_enc_numeral)
  ultimately show ?thesis
    using seccomp_refused_silently [of demo_geometry "\<lambda>_. 0x11000" "demo_host ?m" demo_os] by simp
qed

end
