(* ===== verification/Bridge_Exec.thy ===== *)
theory Bridge_Exec
  imports Bridge_Raw
begin

text \<open>
  Program execution (\<^verbatim>\<open>src/src/exec_host.h\<close>): the argument and environment vectors are
  checked one string at a time, the loader's private descriptors are marked close-on-exec, and only
  then \<^verbatim>\<open>execve\<close> is called. A successful \<^verbatim>\<open>execve\<close> does not return, so what follows
  it runs only when it failed.
\<close>

subsection \<open>The string vectors\<close>

definition EXEC_STRING_LIMIT :: u64 where "EXEC_STRING_LIMIT = 131072"

text \<open>
  The loop from the entry at \<open>p\<close> on, with \<open>n\<close> of the 4096 turns left; \<open>None\<close> is the result
  NULL. An entry that points outside the guest's memory fails without setting \<^verbatim>\<open>errno\<close>.
\<close>

primrec exec_loop :: "geometry \<Rightarrow> nat \<Rightarrow> u64 \<Rightarrow> ('k, string list option) hostm" where
  "exec_loop h 0 p = do { set_errno E2BIG; State_Monad.return None }"
| "exec_loop h (Suc n) p = do {
     item \<leftarrow> memory h p 8;
     if item = None then State_Monad.return None
     else do {
       m \<leftarrow> peek_mem;
       let x = load64 m p;
       if x = 0 then State_Monad.return (Some [])
       else
         let left = (if available h x > EXEC_STRING_LIMIT then EXEC_STRING_LIMIT else available h x) in
         if left = 0 then State_Monad.return None
         else
           case cstring_at m x (unat left) of
             None \<Rightarrow> do { set_errno E2BIG; State_Monad.return None }
           | Some str \<Rightarrow> do {
               rest \<leftarrow> exec_loop h n (p + 8);
               case rest of
                 None \<Rightarrow> State_Monad.return None
               | Some strs \<Rightarrow> State_Monad.return (Some (str # strs))
             }
     }
   }"

definition exec_strings :: "'k machine os \<Rightarrow> geometry \<Rightarrow> u64 \<Rightarrow> ('k, string list option) hostm" where
  "exec_strings os h vector = do {
     result \<leftarrow> calli os ''calloc'' [Num 4097, Num 8];
     if result = 0 then State_Monad.return None else exec_loop h 4096 vector
   }"

subsection \<open>The service\<close>

definition exec_failed :: "('k, int) hostm" where
  "exec_failed = do {
     e \<leftarrow> gets errno;
     set_errno (if e \<noteq> 0 then e else EIO);
     State_Monad.return (-1)
   }"

definition native_slots :: "int list \<Rightarrow> bool" where
  "native_slots t \<longleftrightarrow> list_all (\<lambda>i. \<not> (t ! i \<ge> 0 \<and> t ! i \<noteq> int i)) [0..<MAX_FDS]"

abbreviation (input) CLOSE_RANGE_CLOEXEC :: int where "CLOSE_RANGE_CLOEXEC \<equiv> 4"

definition close_private :: "arg list" where
  "close_private = [Num (int MAX_FDS), Num (2 ^ 32 - 1), Num CLOSE_RANGE_CLOEXEC]"

definition service_exec :: "'k machine os \<Rightarrow> geometry \<Rightarrow> u64 \<Rightarrow> u64 \<Rightarrow> u64 \<Rightarrow> ('k, int) hostm" where
  "service_exec os h path_address arguments_address environment_address = do {
     path \<leftarrow> string h path_address;
     case path of
       None \<Rightarrow> exec_failed
     | Some path \<Rightarrow> do {
         arguments \<leftarrow> exec_strings os h arguments_address;
         case arguments of
           None \<Rightarrow> exec_failed
         | Some arguments \<Rightarrow> do {
             environment \<leftarrow> exec_strings os h environment_address;
             case environment of
               None \<Rightarrow> exec_failed
             | Some environment \<Rightarrow> do {
                 table \<leftarrow> gets fds;
                 if \<not> native_slots table then do { set_errno EIO; exec_failed }
                 else do {
                   marked \<leftarrow> calli os ''close_range'' close_private;
                   if marked \<noteq> 0 then exec_failed
                   else do {
                     _ \<leftarrow> call os ''execve'' (Str path # map Str arguments @ map Str environment);
                     exec_failed
                   }
                 }
               }
           }
       }
   }"

subsection \<open>Confinement\<close>

lemma safe_exec_failed [safe_rules]: "Q (-1) \<Longrightarrow> safe g exec_failed Q"
  unfolding exec_failed_def by (intro safe_rules)

lemma safe_exec_loop: "geometry_ok g \<Longrightarrow> safe g (exec_loop g n p) (\<lambda>_. True)"
proof (induction n arbitrary: p)
  case (Suc n)
  then show ?case
    by (auto simp: Let_def intro!: safe_rules safe_bindI [OF Suc.IH] split: option.splits)
qed (auto intro: safe_rules)

lemma safe_exec_strings: "os_ok g os \<Longrightarrow> geometry_ok g \<Longrightarrow> safe g (exec_strings os g p) (\<lambda>_. True)"
  unfolding exec_strings_def by (intro safe_rules safe_exec_loop) auto

lemma safe_service_exec:
  "os_ok g os \<Longrightarrow> geometry_ok g \<Longrightarrow> safe g (service_exec os g p q r) (\<lambda>_. True)"
  unfolding service_exec_def
  by (intro safe_rules safe_bindI [OF safe_exec_strings]) (auto simp: close_private_def list_all_iff)

subsection \<open>Properties\<close>

lemma emits_exec_strings: "emits P (exec_loop h n p)" "P (Call ''calloc'' [Num 4097, Num 8]) \<Longrightarrow> emits P (exec_strings os h q)"
proof -
  show loop: "emits P (exec_loop h n p)" for n p
    by (induction n arbitrary: p) (auto simp: Let_def intro!: emits_rules split: option.splits)
  show "P (Call ''calloc'' [Num 4097, Num 8]) \<Longrightarrow> emits P (exec_strings os h q)"
    unfolding exec_strings_def by (intro emits_rules loop) auto
qed

text \<open>
  A successful mark of the private range directly before a program is executed.
\<close>

definition exec_guarded :: "(oscall \<times> osret) list \<Rightarrow> bool" where
  "exec_guarded calls \<longleftrightarrow> (\<forall>i < length calls. cname (fst (calls ! i)) = ''execve'' \<longrightarrow>
     0 < i \<and> fst (calls ! (i - 1)) = Call ''close_range'' close_private \<and> ret (snd (calls ! (i - 1))) = 0)"

lemma guarded_by_name: "list_all (\<lambda>e. cname (fst e) \<noteq> ''execve'') calls \<Longrightarrow> exec_guarded calls"
  by (auto simp: exec_guarded_def list_all_length)

lemma guarded_end:
  assumes "list_all (\<lambda>e. cname (fst e) \<noteq> ''execve'') calls" "ret r = 0"
  shows "exec_guarded (calls @ [(Call ''close_range'' close_private, r), (Call ''execve'' args, r')])"
  unfolding exec_guarded_def
proof (intro allI impI)
  fix i assume i: "i < length (calls @ [(Call ''close_range'' close_private, r), (Call ''execve'' args, r')])"
    "cname (fst ((calls @ [(Call ''close_range'' close_private, r), (Call ''execve'' args, r')]) ! i)) = ''execve''"
  then have "i = length calls + 1"
    using assms(1) by (auto simp: nth_append list_all_length nth_Cons' split: if_splits)
  with assms(2) show "0 < i \<and>
      fst ((calls @ [(Call ''close_range'' close_private, r), (Call ''execve'' args, r')]) ! (i - 1)) =
        Call ''close_range'' close_private \<and>
      ret (snd ((calls @ [(Call ''close_range'' close_private, r), (Call ''execve'' args, r')]) ! (i - 1))) = 0"
    by (simp add: nth_append)
qed

lemma exec_failed_trace: "wp exec_failed (\<lambda>r u. r = -1 \<and> errno u \<noteq> 0 \<and> trace u = trace t) t"
  by (simp add: exec_failed_def wp_simps)

lemma service_exec_wp:
  "wp (service_exec os h p q x) (\<lambda>r u. r = -1 \<and> errno u \<noteq> 0 \<and>
     (\<exists>new. trace u = trace s @ new \<and> exec_guarded new)) s"
  (is "wp _ ?Post s")
proof -
  let ?N = "since (\<lambda>c. cname c \<noteq> ''execve'') s"
  have failed: "wp exec_failed ?Post u" if "\<exists>new. trace u = trace s @ new \<and> exec_guarded new" for u
    by (rule wp_mono [OF exec_failed_trace]) (use that in auto)
  have early: "wp exec_failed ?Post u" if "?N u" for u
    by (rule failed) (use that in \<open>auto simp: since_def intro: guarded_by_name\<close>)
  have last: "wp (do {
      marked \<leftarrow> calli os ''close_range'' close_private;
      if marked \<noteq> 0 then exec_failed
      else do { _ \<leftarrow> call os ''execve'' args; exec_failed } }) ?Post u" if u: "?N u" for args u
  proof -
    from u obtain new where new: "trace u = trace s @ new" "list_all (\<lambda>e. cname (fst e) \<noteq> ''execve'') new"
      by (auto simp: since_def)
    show ?thesis
      unfolding calli_def State_Monad.bind_assoc State_Monad.bind_left_identity
    proof (rule wp_bindI [OF call_trace])
      fix r and t :: "'a host" assume t: "trace t = trace u @ [(Call ''close_range'' close_private, r)]"
      show "wp (if ret r \<noteq> 0 then exec_failed else do { _ \<leftarrow> call os ''execve'' args; exec_failed }) ?Post t"
      proof (cases "ret r = 0")
        case True
        have "wp (do { _ \<leftarrow> call os ''execve'' args; exec_failed }) ?Post t"
          by (rule wp_bindI [OF call_trace]) (use t new guarded_end [OF new(2) True] in \<open>auto intro!: failed\<close>)
        with True show ?thesis by simp
      next
        case False
        with t new show ?thesis by (auto intro!: early simp: since_def)
      qed
    qed
  qed
  have tail: "wp (do {
      table \<leftarrow> gets fds;
      if \<not> native_slots table then do { set_errno EIO; exec_failed }
      else do {
        marked \<leftarrow> calli os ''close_range'' close_private;
        if marked \<noteq> 0 then exec_failed
        else do { _ \<leftarrow> call os ''execve'' args; exec_failed } } }) ?Post u" if u: "?N u" for args u
  proof -
    have "?N (u\<lparr>errno := EIO\<rparr>)" using u by (simp add: since_def)
    then show ?thesis using last [OF u] early by (simp add: wp_bind [of "gets f" for f] wp_bind [of "set_errno e" for e] wp_simps)
  qed
  have strs: "wp (exec_strings os h v) (\<lambda>_. ?N) u" if "?N u" for v u
    by (rule emits_since [OF emits_exec_strings(2) that]) simp
  have path: "wp (string h p) (\<lambda>_. ?N) s"
    by (rule emits_since [OF emits_checks(2) since_refl])
  show ?thesis
    unfolding service_exec_def
    by (rule wp_bindI [OF path], rule wp_case_optionI, erule early,
        rule wp_bindI, erule strs, rule wp_case_optionI, erule early,
        rule wp_bindI, erule strs, rule wp_case_optionI, erule early, erule tail)
qed

text \<open>
  C25. No private descriptor of the loader survives into another program: whenever
  \<^verbatim>\<open>service_exec\<close> calls \<^verbatim>\<open>execve\<close>, the call directly before it was a successful
  \<^verbatim>\<open>close_range\<close> that marks everything from \<^verbatim>\<open>MAX_FDS\<close> on close-on-exec.
\<close>
theorem exec_closes_private:
  assumes "run_state (service_exec os h p q x) s = (r, t)"
  shows "exec_guarded (drop (length (trace s)) (trace t))"
  using wp_run [OF service_exec_wp assms] by auto

lemma native_slots_inv: "host_inv s \<Longrightarrow> native_slots (fds s)"
  by (auto simp: native_slots_def host_inv_def list_all_iff)

lemma string_found:
  assumes "available h a > 4096" "cstring_at (gmem (world s)) a 4096 = Some str"
  shows "run_state (string h a) s = (Some str, s)"
proof -
  have "available h a \<noteq> 0" "4096 \<le> available h a" using assms(1) by auto
  with assms show ?thesis by (simp add: string_def memory_granted run_peek Let_def)
qed

lemma exec_loop_none:
  assumes "8 \<le> available h v" "load64 (gmem (world s)) v = 0"
  shows "run_state (exec_loop h (Suc n) v) s = (Some [], s)"
proof -
  have "available h v \<noteq> 0" using assms(1) by auto
  with assms show ?thesis by (simp add: memory_granted run_peek Let_def)
qed

lemmas exec_strings_none = exec_loop_none [where n = 4095, simplified]

definition exec_os :: "unit machine os" where
  "exec_os c m = (\<lparr>ret = (if cname c = ''calloc'' then 1 else 0), err = 0, nums = [], payload = []\<rparr>, m)"

definition exec_demo :: "unit host" where
  "exec_demo = demo_host (demo_memory [(0x11000, ''/bin/ls'')])"

theorem exec_closes_private_witness:
  "let t = snd (run_state (service_exec exec_os demo_geometry 0x11000 0x12000 0x12000) exec_demo)
   in exec_guarded (drop (length (trace exec_demo)) (trace t)) \<and>
      list_ex (\<lambda>e. fst e = Call ''execve'' [Str ''/bin/ls'']) (trace t)"
proof -
  let ?m = "demo_memory [(0x11000, ''/bin/ls'')]"
  have "available demo_geometry 0x11000 = 0xf000" "available demo_geometry 0x12000 = 0xe000" by code_simp+
  moreover have "cstring_at ?m 0x11000 4096 = Some ''/bin/ls''" "load64 ?m 0x12000 = 0" by code_simp+
  moreover have "native_slots (fds exec_demo)" unfolding exec_demo_def by (rule native_slots_inv [OF demo_host_inv])
  ultimately have "list_ex (\<lambda>e. fst e = Call ''execve'' [Str ''/bin/ls''])
      (trace (snd (run_state (service_exec exec_os demo_geometry 0x11000 0x12000 0x12000) exec_demo)))"
    by (simp add: service_exec_def string_found exec_strings_def exec_strings_none exec_demo_def demo_host_def
        calli_def call_def exec_os_def gets_def exec_failed_def set_errno_def)
  then show ?thesis
    using exec_closes_private [of exec_os demo_geometry "0x11000" "0x12000" "0x12000" exec_demo, OF surjective_pairing]
    by (simp add: Let_def)
qed

text \<open>
  A program that could not be executed is always reported with an error: \<^verbatim>\<open>service_exec\<close>
  returns only with -1 and a nonzero \<^verbatim>\<open>errno\<close>.
\<close>
theorem exec_failure_reported:
  "case run_state (service_exec os h p q x) s of (r, t) \<Rightarrow> r = -1 \<and> errno t \<noteq> 0"
  using service_exec_wp [of os h p q x s] unfolding wp_def by (auto split: prod.splits)

end
