(* ===== verification/Bridge_Files.thy ===== *)
theory Bridge_Files
  imports Bridge_Exec
begin

text \<open>
  The file, descriptor and directory services of \<^verbatim>\<open>service\<close> in \<^verbatim>\<open>src/src/host.c\<close>.
  A \<^verbatim>\<open>case\<close> is one definition over the request's words \<open>a\<close>, \<open>b\<close>, \<open>n\<close>
  (\<^verbatim>\<open>args[0]\<close> to \<^verbatim>\<open>args[2]\<close>). Where the C code assigns the members of a structure in
  guest memory one by one, the stores leave the padding alone.
\<close>

type_synonym 'k br = "'k machine os \<Rightarrow> geometry \<Rightarrow> u64 \<Rightarrow> u64 \<Rightarrow> u64 \<Rightarrow> ('k, int) hostm"

subsection \<open>Descriptors\<close>

definition br_pipe :: "'k br" where
  "br_pipe os h a b n = do {
     out \<leftarrow> memory h a 8;
     if out = None then State_Monad.return (-1)
     else do {
       r \<leftarrow> call os ''pipe'' [];
       if ret r \<noteq> 0 then State_Monad.return (-1)
       else do {
         first \<leftarrow> save_fd os (nums r ! 0) 0;
         if first < 0 then do { _ \<leftarrow> call os ''close'' [New (nums r ! 1)]; State_Monad.return (-1) }
         else do {
           second \<leftarrow> save_fd os (nums r ! 1) 0;
           if second < 0 then do { drop_fd os (nat first); State_Monad.return (-1) }
           else do {
             poke a (encode_int 4 first);
             poke (a + 4) (encode_int 4 second);
             State_Monad.return 0
           }
         }
       }
     }
   }"

text \<open>\<^verbatim>\<open>BR_WRITE\<close> and \<^verbatim>\<open>BR_READ\<close>.\<close>

definition br_transfer :: "bool \<Rightarrow> 'k br" where
  "br_transfer writing os h a b n = do {
     actual \<leftarrow> fd (c_int a);
     buffer \<leftarrow> memory h b n;
     if actual < 0 \<or> buffer = None \<or> n > 2 ^ 63 - 1 then State_Monad.return (-1)
     else interruptible_transfer os actual b n writing
   }"

definition br_open :: "'k br" where
  "br_open os h a b n = with_path h a (\<not> bit b BO_NOFOLLOW) (\<lambda>path.
     adopt_call os ''open'' [Str path, Num (uint (open_flags (ucast b))), Num (c_uint n)])"

text \<open>The table is indexed with the request's whole word, not with the \<^verbatim>\<open>int\<close> that was checked.\<close>

definition br_close :: "'k br" where
  "br_close os h a b n = with_fd a (\<lambda>actual. do {
     rc \<leftarrow> calli os ''close'' [Fd actual];
     set_fd (unat a) (-1);
     State_Monad.return rc
   })"

definition br_lseek :: "'k br" where
  "br_lseek os h a b n = with_fd a (\<lambda>actual.
     calli os ''lseek'' [Fd actual, Num (sint b), Num (c_int n)])"

abbreviation (input) BF_GETFD :: u64 where "BF_GETFD \<equiv> 0"
abbreviation (input) BF_SETFD :: u64 where "BF_SETFD \<equiv> 1"
abbreviation (input) BF_GETFL :: u64 where "BF_GETFL \<equiv> 2"
abbreviation (input) BF_SETFL :: u64 where "BF_SETFL \<equiv> 3"
abbreviation (input) BF_DUPFD :: u64 where "BF_DUPFD \<equiv> 4"
abbreviation (input) BF_DUPFD_CLOEXEC :: u64 where "BF_DUPFD_CLOEXEC \<equiv> 5"
abbreviation (input) BF_GETLK :: u64 where "BF_GETLK \<equiv> 6"
abbreviation (input) BF_SETLK :: u64 where "BF_SETLK \<equiv> 7"
abbreviation (input) BF_SETLKW :: u64 where "BF_SETLKW \<equiv> 8"

definition lock_layout :: layout where "lock_layout = [I 4, I 4, I 4, Pad 4, I 8, I 8]"

definition c_short :: "int \<Rightarrow> int" where "c_short x = sint (word_of_int x :: u16)"

text \<open>The members of \<^verbatim>\<open>struct flock\<close> are type, whence, process, start and length.\<close>

definition fcntl_lock :: "'k machine os \<Rightarrow> geometry \<Rightarrow> int \<Rightarrow> u64 \<Rightarrow> u64 \<Rightarrow> ('k, int) hostm" where
  "fcntl_lock os h actual b n = do {
     wire \<leftarrow> memory h n 32;
     if wire = None then State_Monad.return (-1)
     else do {
       m \<leftarrow> peek_mem;
       let v = load_struct lock_layout m n;
       r \<leftarrow> call os ''fcntl'' [Fd actual, Num (if b = BF_GETLK then 5 else if b = BF_SETLK then 6 else 7),
         Nums [c_short (v ! 0), c_short (v ! 1), v ! 2, v ! 3, v ! 4]];
       if ret r = 0 \<and> b = BF_GETLK then do {
         poke n (encode_struct [I 4, I 4, I 4] (take 3 (nums r)));
         poke (n + 16) (encode_struct [I 8, I 8] (drop 3 (nums r)));
         State_Monad.return (ret r)
       } else State_Monad.return (ret r)
     }
   }"

definition br_fcntl :: "'k br" where
  "br_fcntl os h a b n = with_fd a (\<lambda>actual.
     if b = BF_GETLK \<or> b = BF_SETLK \<or> b = BF_SETLKW then fcntl_lock os h actual b n
     else if b = BF_GETFD then calli os ''fcntl'' [Fd actual, Num 1]
     else if b = BF_SETFD then calli os ''fcntl'' [Fd actual, Num 2, Num (c_int n)]
     else if b = BF_GETFL then do {
       rc \<leftarrow> calli os ''fcntl'' [Fd actual, Num 3];
       State_Monad.return (if rc < 0 then -1 else uint (pack_flags (word_of_int rc)))
     }
     else if b = BF_SETFL then calli os ''fcntl'' [Fd actual, Num 4, Num (uint (open_flags (ucast n)))]
     else if b = BF_DUPFD \<or> b = BF_DUPFD_CLOEXEC then
       if n \<ge> of_nat MAX_FDS then fail EINVAL
       else do {
         real \<leftarrow> calli os ''fcntl'' [Fd actual, Num (if b = BF_DUPFD then 0 else 1030), Num (c_int n)];
         save_fd os real (c_int n)
       }
     else fail EINVAL)"

definition br_dup2 :: "'k br" where
  "br_dup2 os h a b n = with_fd a (\<lambda>actual.
     if b \<ge> of_nat MAX_FDS then fail EBADF
     else if a = b then State_Monad.return (uint b)
     else do {
       rc \<leftarrow> calli os ''dup2'' [Fd actual, Fd (c_int b)];
       if rc < 0 then State_Monad.return (-1)
       else do { set_fd (unat b) rc; State_Monad.return (uint b) }
     })"

definition br_fd_call :: "string \<Rightarrow> (u64 \<Rightarrow> arg list) \<Rightarrow> 'k br" where
  "br_fd_call nm args os h a b n = with_fd a (\<lambda>actual. calli os nm (Fd actual # args b))"

definition br_fchmod :: "'k br" where "br_fchmod = br_fd_call ''fchmod'' (\<lambda>b. [Num (c_uint b)])"
definition br_fchdir :: "'k br" where "br_fchdir = br_fd_call ''fchdir'' (\<lambda>b. [])"
definition br_fsync :: "'k br" where "br_fsync = br_fd_call ''fsync'' (\<lambda>b. [])"

definition br_isatty :: "'k br" where
  "br_isatty os h a b n = do {
     actual \<leftarrow> fd (c_int a);
     if actual < 0 then State_Monad.return 0 else calli os ''isatty'' [Fd actual]
   }"

subsection \<open>Files\<close>

definition br_statx :: "u64 \<Rightarrow> u64 \<Rightarrow> 'k br" where
  "br_statx want out_at os h a b n = do {
     flags \<leftarrow> statx_flags n;
     if flags < 0 then State_Monad.return (-1)
     else do {
       out \<leftarrow> memory h out_at 256;
       path \<leftarrow> path_string_mode h b (\<not> int_flag flags AT_SYMLINK_NOFOLLOW);
       actual \<leftarrow> directory_fd a;
       if out = None \<or> path = None \<or> (actual < 0 \<and> actual \<noteq> AT_FDCWD) then State_Monad.return (-1)
       else calli os ''statx'' [directory_arg actual, Str (the path), Num flags, Num (c_uint want),
         mem_arg out 256]
     }
   }"

definition br_fstat :: "'k br" where
  "br_fstat os h a b n = do {
     out \<leftarrow> memory h b 128;
     if out = None then State_Monad.return (-1)
     else do {
       actual \<leftarrow> fd (c_int a);
       if actual < 0 then State_Monad.return (-1)
       else do {
         r \<leftarrow> call os ''fstat'' [Fd actual];
         if ret r < 0 then State_Monad.return (-1)
         else do { poke b (export_stat (nums r)); State_Monad.return 0 }
       }
     }
   }"

definition br_stat :: "bool \<Rightarrow> 'k br" where
  "br_stat follow os h a b n = do {
     out \<leftarrow> memory h b 128;
     if out = None then State_Monad.return (-1)
     else with_path h a follow (\<lambda>path. do {
       r \<leftarrow> call os (if follow then ''stat'' else ''lstat'') [Str path];
       if ret r < 0 then State_Monad.return (-1)
       else do { poke b (export_stat (nums r)); State_Monad.return 0 }
     })
   }"

definition br_path_call :: "string \<Rightarrow> bool \<Rightarrow> (u64 \<Rightarrow> arg list) \<Rightarrow> 'k br" where
  "br_path_call nm follow args os h a b n = with_path h a follow (\<lambda>path. calli os nm (Str path # args b))"

definition br_access :: "'k br" where "br_access = br_path_call ''access'' True (\<lambda>b. [Num (c_int b)])"
definition br_chdir :: "'k br" where "br_chdir = br_path_call ''chdir'' True (\<lambda>b. [])"
definition br_mkdir :: "'k br" where "br_mkdir = br_path_call ''mkdir'' False (\<lambda>b. [Num (c_uint b)])"
definition br_rmdir :: "'k br" where "br_rmdir = br_path_call ''rmdir'' False (\<lambda>b. [])"
definition br_unlink :: "'k br" where "br_unlink = br_path_call ''unlink'' False (\<lambda>b. [])"
definition br_chmod :: "'k br" where "br_chmod = br_path_call ''chmod'' True (\<lambda>b. [Num (c_uint b)])"
definition br_mkfifo :: "'k br" where "br_mkfifo = br_path_call ''mkfifo'' False (\<lambda>b. [Num (c_uint b)])"

definition br_getcwd :: "'k br" where
  "br_getcwd os h a b n = do {
     buffer \<leftarrow> memory h a b;
     if buffer = None then State_Monad.return (-1)
     else do {
       r \<leftarrow> calli os ''getcwd'' [mem_arg buffer b, Num (uint b)];
       State_Monad.return (if r < 0 then -1 else 0)
     }
   }"

definition br_link :: "'k br" where
  "br_link os h a b n = do {
     path \<leftarrow> path_string_nofollow h a;
     other \<leftarrow> path_string_nofollow h b;
     if path = None \<or> other = None then State_Monad.return (-1)
     else calli os ''link'' [Str (the path), Str (the other)]
   }"

definition br_symlink :: "'k br" where
  "br_symlink os h a b n = do {
     path \<leftarrow> string h a;
     other \<leftarrow> path_string_nofollow h b;
     if path = None \<or> other = None then State_Monad.return (-1)
     else calli os ''symlink'' [Str (the path), Str (the other)]
   }"

definition br_readlink :: "'k br" where
  "br_readlink os h a b n = do {
     path \<leftarrow> path_string_nofollow h a;
     buffer \<leftarrow> memory h b n;
     if path = None \<or> buffer = None then State_Monad.return (-1)
     else calli os ''readlink'' [Str (the path), mem_arg buffer n, Num (uint n)]
   }"

definition br_realpath :: "'k br" where
  "br_realpath os h a b n = do {
     path \<leftarrow> path_string h a;
     buffer \<leftarrow> memory h b n;
     if path = None \<or> buffer = None then State_Monad.return (-1)
     else bounded_realpath os (the path) b n
   }"

text \<open>\<^verbatim>\<open>mkdtemp\<close> replaces characters of the pattern where it stands.\<close>

definition br_mkdtemp :: "'k br" where
  "br_mkdtemp os h a b n = do {
     path \<leftarrow> string h a;
     case path of
       None \<Rightarrow> State_Monad.return (-1)
     | Some str \<Rightarrow> do {
         r \<leftarrow> calli os ''mkdtemp'' [Mem a (Suc (length str))];
         State_Monad.return (if r < 0 then -1 else 0)
       }
   }"

subsection \<open>Directory streams\<close>

definition br_opendir :: "'k br" where
  "br_opendir os h a b n = with_path h a True (\<lambda>path. do {
     table \<leftarrow> gets dirs;
     case free_dir table 0 of
       None \<Rightarrow> fail EMFILE
     | Some i \<Rightarrow> do {
         dir \<leftarrow> calli os ''opendir'' [Str path];
         if dir < 0 then State_Monad.return (-1)
         else do {
           number \<leftarrow> calli os ''dirfd'' [Num dir];
           if number \<ge> int MAX_FDS then do {
             _ \<leftarrow> call os ''closedir'' [Num dir];
             fail EMFILE
           } else do {
             set_dir i (Some dir) number;
             set_fd (nat number) number;
             State_Monad.return (int i)
           }
         }
       }
   })"

definition with_stream :: "u64 \<Rightarrow> (int \<Rightarrow> int \<Rightarrow> ('k, int) hostm) \<Rightarrow> ('k, int) hostm" where
  "with_stream a f = do {
     s \<leftarrow> State_Monad.get;
     if a \<ge> of_nat MAX_DIRS \<or> dirs s ! unat a = None then fail EBADF
     else f (the (dirs s ! unat a)) (dir_fds s ! unat a)
   }"

definition br_dirfd :: "'k br" where
  "br_dirfd os h a b n = with_stream a (\<lambda>dir number. State_Monad.return number)"

definition dirent_type :: "int \<Rightarrow> u32" where
  "dirent_type t =
     (if t = 6 then 1 else if t = 2 then 2 else if t = 4 then 3 else if t = 1 then 4
      else if t = 10 then 5 else if t = 8 then 6 else if t = 12 then 7 else 0)"

text \<open>An entry is its inode and type, and its name the payload; NULL is -1.\<close>

definition br_readdir :: "'k br" where
  "br_readdir os h a b n = with_stream a (\<lambda>dir number. do {
     out \<leftarrow> memory h b 272;
     if out = None then State_Monad.return (-1)
     else do {
       r \<leftarrow> call os ''readdir'' [Num dir];
       if ret r < 0 then State_Monad.return 0
       else do {
         poke b (encode_int 8 (nums r ! 0));
         poke (b + 8) (le32 (dirent_type (nums r ! 1)));
         poke (b + 12) (copy_string 256 (Some (payload r)));
         State_Monad.return 1
       }
     }
   })"

definition br_closedir :: "'k br" where
  "br_closedir os h a b n = with_stream a (\<lambda>dir actual. do {
     set_fd (nat actual) (-1);
     rc \<leftarrow> calli os ''closedir'' [Num dir];
     set_dir (unat a) None actual;
     State_Monad.return rc
   })"

subsection \<open>Confinement\<close>

lemma safe_with_stream [safe_rules]:
  assumes "\<And>dir number. unat a < MAX_DIRS \<Longrightarrow> 0 \<le> number \<Longrightarrow> number < int MAX_FDS \<Longrightarrow> safe g (f dir number) Q" "Q (-1)"
  shows "safe g (with_stream a f) Q"
  unfolding with_stream_def
  by (intro safe_rules assms) (auto simp: host_inv_def MAX_DIRS_def word_le_nat_alt not_le)

lemma file_layouts [simp]: "struct_size lock_layout = 32"
  by (simp add: lock_layout_def)

lemma safe_bind_calli_raw:
  assumes "os_ok g os" "list_all (arg_safe g) args"
    "\<And>r w. r = ret (fst (os (Call nm args) w)) \<Longrightarrow> safe g (f r) Q"
  shows "safe g (State_Monad.bind (calli os nm args) f) Q"
  unfolding calli_def by (intro safe_bind_bind safe_bind_call_raw safe_bind_return assms) auto

lemma os_fdsD:
  assumes "os_ok g os"
  shows "ret (fst (os (Call ''dup2'' [Fd x, Fd y]) w)) < 0 \<or> ret (fst (os (Call ''dup2'' [Fd x, Fd y]) w)) = y"
    and "0 \<le> ret (fst (os (Call ''dirfd'' [Num d]) w))"
  using assms by (simp_all add: os_ok_def os_fds_def Let_def)

lemma small_word:
  assumes "\<not> of_nat MAX_FDS \<le> (b :: u64)"
  shows "c_int b = int (unat b)" "unat b < MAX_FDS" "int (unat b) < int MAX_FDS"
proof -
  show b: "unat b < MAX_FDS" using assms by (simp add: MAX_FDS_def word_le_nat_alt)
  then show "int (unat b) < int MAX_FDS" by (simp only: of_nat_less_iff)
  have "signed_take_bit 31 (int k) = int k \<and> take_bit 32 (int k) = int k" if "k < MAX_FDS" for k
    using that by (simp add: MAX_FDS_def signed_take_bit_int_eq_self take_bit_int_eq_self)
  from this [OF b] show "c_int b = int (unat b)"
    by (simp add: c_int_def sint_uint unsigned_ucast_eq)
qed
lemma sign_extended:
  assumes "sint (a :: u64) = c_int a" "0 \<le> c_int a" "c_int a < int MAX_FDS"
  shows "unat a < MAX_FDS" "int (unat a) = c_int a"
proof -
  show "int (unat a) = c_int a"
    using assms by (simp add: uint_sint take_bit_int_eq_self MAX_FDS_def)
  with assms(3) show "unat a < MAX_FDS" by linarith
qed

lemma copy_string_range: "range_ok g p n \<Longrightarrow> range_ok g p (length (copy_string n src))"
  by (auto simp: copy_string_def intro: range_ok_mono)

lemma safe_br_opendir:
  assumes os: "os_ok g os" and g: "geometry_ok g"
  shows "safe g (br_opendir os g a b n) (\<lambda>_. True)"
  unfolding br_opendir_def
  by (intro safe_with safe_bind_gets safe_case_option safe_fail safe_bind_calli_raw [OF os] safe_if safe_return
      safe_bind_call safe_bind_set_dir safe_bind_set_fd TrueI os g)
    (auto simp: host_inv_def os_fdsD(2) [OF os] nat_less_iff dest: free_dir_bound)

lemma safe_br_dup2:
  assumes os: "os_ok g os"
  shows "safe g (br_dup2 os g a b n) (\<lambda>_. True)"
  unfolding br_dup2_def
  by (intro safe_with safe_if safe_fail safe_return safe_bind_calli_raw [OF os] safe_bind_set_fd TrueI)
    (use small_word [of b] os_fdsD(1) [OF os] in auto)

lemma safe_br_close:
  assumes os: "os_ok g os" and a: "sint a = c_int a"
  shows "safe g (br_close os g a b n) (\<lambda>_. True)"
  unfolding br_close_def with_fd_def
  by (intro safe_rules os)
    (use sign_extended [OF a] in auto)

lemma safe_pipe_second:
  assumes os: "os_ok g os" and r: "range_ok g p 8"
  shows "safe_from g (held [i]) (do {
      second \<leftarrow> save_fd os y 0;
      if second < 0 then do { drop_fd os i; State_Monad.return (-1) }
      else do { poke p (encode_int 4 first); poke (p + 4) (encode_int 4 second); State_Monad.return 0 }
    }) (\<lambda>_ _. True)"
proof (rule safe_from_bind [OF safe_from_save_fd [OF os]], rule safe_from_if)
  fix second :: int assume "second < 0"
  then show "safe_from g (\<lambda>s. if second < 0 then held [i] s else second = y \<and> second < int MAX_FDS \<and> held [nat second, i] s)
    (do { drop_fd os i; State_Monad.return (-1) }) (\<lambda>_ _. True)"
    by (simp, intro safe_from_bind [OF safe_from_drop_fd [OF os]] safe_from_return TrueI)
next
  fix second :: int
  have "range_ok g p 4" "range_ok g (p + 4) 4"
    using range_ok_mono [OF r, of 4] range_ok_offset [OF r, of 4 4] by simp_all
  then show "safe_from g P (do { poke p (encode_int 4 first); poke (p + 4) (encode_int 4 second); State_Monad.return 0 })
    (\<lambda>_ _. True)" for P
    by (auto intro!: safe_from_plain [where Q = "\<lambda>_. True"] safe_rules)
qed

lemma safe_br_pipe:
  assumes os: "os_ok g os" and g: "geometry_ok g"
  shows "safe g (br_pipe os g a b n) (\<lambda>_. True)"
proof -
  have "safe g (do {
      first \<leftarrow> save_fd os x 0;
      if first < 0 then do { _ \<leftarrow> call os ''close'' [New y]; State_Monad.return (-1) }
      else do {
        second \<leftarrow> save_fd os y 0;
        if second < 0 then do { drop_fd os (nat first); State_Monad.return (-1) }
        else do { poke a (encode_int 4 first); poke (a + 4) (encode_int 4 second); State_Monad.return 0 }
      } }) (\<lambda>_. True)" if r: "range_ok g a 8" for x y
  proof (rule safe_from_start [where Q = "\<lambda>_ _. True"], rule safe_from_bind)
    show "safe_from g (\<lambda>_. True) (save_fd os x 0) (\<lambda>r s. held (if r < 0 then [] else [nat r]) s)"
      by (rule safe_from_weaken [OF safe_from_save_fd [OF os, of "[]"]]) (auto simp: held_def split: if_splits)
    show "safe_from g (\<lambda>s. held (if r < 0 then [] else [nat r]) s)
      (if r < 0 then do { _ \<leftarrow> call os ''close'' [New y]; State_Monad.return (-1) }
      else do {
        second \<leftarrow> save_fd os y 0;
        if second < 0 then do { drop_fd os (nat r); State_Monad.return (-1) }
        else do { poke a (encode_int 4 r); poke (a + 4) (encode_int 4 second); State_Monad.return 0 }
      }) (\<lambda>_ _. True)" for r
      by (rule safe_from_if)
        (simp_all add: safe_pipe_second [OF os r], intro safe_from_plain safe_rules os, simp_all)
  qed simp
  then show ?thesis
    unfolding br_pipe_def by (intro safe_bind_memory safe_if safe_return safe_bind_call os g) auto
qed

lemma safe_files:
  assumes os: "os_ok g os" and g: "geometry_ok g"
  shows "safe g (br_transfer writing os g a b n) (\<lambda>_. True)" "safe g (br_open os g a b n) (\<lambda>_. True)"
    "safe g (br_lseek os g a b n) (\<lambda>_. True)" "safe g (br_fcntl os g a b n) (\<lambda>_. True)"
    "safe g (br_fchmod os g a b n) (\<lambda>_. True)" "safe g (br_fchdir os g a b n) (\<lambda>_. True)"
    "safe g (br_fsync os g a b n) (\<lambda>_. True)" "safe g (br_isatty os g a b n) (\<lambda>_. True)"
  unfolding br_transfer_def br_open_def br_lseek_def br_fcntl_def fcntl_lock_def br_fchmod_def br_fchdir_def
    br_fsync_def br_fd_call_def br_isatty_def Let_def
  by (intro safe_rules os g; auto split: option.splits intro: range_ok_mono range_ok_offset)+

lemma safe_paths:
  assumes os: "os_ok g os" and g: "geometry_ok g"
  shows "safe g (br_statx want out os g a b n) (\<lambda>_. True)" "safe g (br_fstat os g a b n) (\<lambda>_. True)"
    "safe g (br_stat follow os g a b n) (\<lambda>_. True)" "safe g (br_access os g a b n) (\<lambda>_. True)"
    "safe g (br_chdir os g a b n) (\<lambda>_. True)" "safe g (br_mkdir os g a b n) (\<lambda>_. True)"
    "safe g (br_rmdir os g a b n) (\<lambda>_. True)" "safe g (br_unlink os g a b n) (\<lambda>_. True)"
    "safe g (br_chmod os g a b n) (\<lambda>_. True)" "safe g (br_mkfifo os g a b n) (\<lambda>_. True)"
  unfolding br_statx_def br_fstat_def br_stat_def br_access_def br_chdir_def br_mkdir_def br_rmdir_def
    br_unlink_def br_chmod_def br_mkfifo_def br_path_call_def Let_def
  by (intro safe_rules os g; auto split: option.splits)+

lemma safe_links:
  assumes os: "os_ok g os" and g: "geometry_ok g"
  shows "safe g (br_getcwd os g a b n) (\<lambda>_. True)" "safe g (br_link os g a b n) (\<lambda>_. True)"
    "safe g (br_symlink os g a b n) (\<lambda>_. True)" "safe g (br_readlink os g a b n) (\<lambda>_. True)"
    "safe g (br_realpath os g a b n) (\<lambda>_. True)" "safe g (br_mkdtemp os g a b n) (\<lambda>_. True)"
    "safe g (br_dirfd os g a b n) (\<lambda>_. True)" "safe g (br_readdir os g a b n) (\<lambda>_. True)"
    "safe g (br_closedir os g a b n) (\<lambda>_. True)"
  unfolding br_getcwd_def br_link_def br_symlink_def br_readlink_def br_realpath_def br_mkdtemp_def
    br_dirfd_def br_readdir_def br_closedir_def Let_def
  by (intro safe_rules os g copy_string_range; auto split: option.splits intro: range_ok_mono range_ok_offset)+

subsection \<open>A pipe is given to the guest whole or not at all\<close>

lemma wp_save_fd:
  assumes "0 \<le> real"
  shows "wp (save_fd os real 0) Q s =
    (if real < int MAX_FDS \<and> fds s ! nat real < 0 then Q real (s\<lparr>fds := (fds s)[nat real := real]\<rparr>)
     else let (r, w) = os (Call ''close'' [New real]) (world s)
          in Q (-1) (s\<lparr>world := w, trace := trace s @ [(Call ''close'' [New real], r)], errno := EMFILE\<rparr>))"
  using assms
  by (auto simp: save_fd_def adopt_descriptor_def wp_simps set_fd_def nat_less_iff split: prod.splits)

text \<open>\<^verbatim>\<open>pipe\<close> returns two descriptors when it succeeds.\<close>

definition pipe_works :: "'k machine os \<Rightarrow> bool" where
  "pipe_works os \<longleftrightarrow> (\<forall>w. let r = fst (os (Call ''pipe'' []) w) in
     ret r = 0 \<longrightarrow> (\<exists>x y. nums r = [x, y] \<and> 0 \<le> x \<and> 0 \<le> y \<and> x \<noteq> y))"

definition closed_in :: "(oscall \<times> osret) list \<Rightarrow> int set" where
  "closed_in cs = {d. Call ''close'' [New d] \<in> fst ` set cs \<or> Call ''close'' [Fd d] \<in> fst ` set cs}"

definition pipe_outcome :: "'k host \<Rightarrow> int \<Rightarrow> 'k host \<Rightarrow> bool" where
  "pipe_outcome s rc t \<longleftrightarrow>
     rc = 0 \<and> (\<exists>x y. x < MAX_FDS \<and> y < MAX_FDS \<and> x \<noteq> y \<and> fds s ! x = -1 \<and> fds s ! y = -1 \<and>
       fds t = (fds s)[x := int x, y := int y]) \<or>
     rc = -1 \<and> fds t = fds s \<and>
       (\<forall>r. (Call ''pipe'' [], r) \<in> set (drop (length (trace s)) (trace t)) \<and> ret r = 0 \<longrightarrow>
          set (nums r) \<subseteq> closed_in (drop (length (trace s)) (trace t)))"

lemma pipe_call:
  assumes "os (Call ''pipe'' []) (world s) = (r, w)" "pipe_works os" "ret r = 0"
  obtains x y where "nums r = [x, y]" "0 \<le> x" "0 \<le> y" "x \<noteq> y"
  using assms unfolding pipe_works_def Let_def by (metis fst_conv)

lemma slot_free: "host_inv s \<Longrightarrow> i < MAX_FDS \<Longrightarrow> fds s ! i < 0 \<Longrightarrow> fds s ! i = -1"
  unfolding host_inv_def by force

lemma wp_memory_cases:
  "(\<And>e. Q None (s\<lparr>errno := e\<rparr>)) \<Longrightarrow> Q (Some a) s \<Longrightarrow> wp (memory h a n) Q s"
  by (simp add: memory_def wp_simps Let_def)

lemma pipe_outcome_run:
  assumes works: "pipe_works os" and inv: "host_inv s"
  shows "wp (br_pipe os h a b n) (pipe_outcome s) s"
  unfolding br_pipe_def wp_bind
proof (rule wp_memory_cases, goal_cases)
  case (1 e)
  show ?case by (simp add: wp_simps pipe_outcome_def)
next
  case 2
  obtain r w where rw: "os (Call ''pipe'' []) (world s) = (r, w)" by fastforce
  show ?case
  proof (cases "ret r = 0")
    case False
    with rw show ?thesis by (simp add: wp_simps pipe_outcome_def)
  next
    case True
    from pipe_call [OF rw works True] obtain x y where xy: "nums r = [x, y]" "0 \<le> x" "0 \<le> y" "x \<noteq> y" .
    define ok where "ok z \<longleftrightarrow> z < int MAX_FDS \<and> fds s ! nat z < 0" for z
    have free: "fds s ! nat z = -1" "nat z < MAX_FDS" if "0 \<le> z" "ok z" for z
      using slot_free [OF inv, of "nat z"] that by (simp_all add: ok_def nat_less_iff)
    have len: "length (fds s) = MAX_FDS" using inv by (simp add: host_inv_def)
    note run = rw True xy(1) wp_bind wp_call wp_return wp_save_fd drop_fd_def wp_gets poke_def wp_update
    consider "\<not> ok x" | "ok x" "\<not> ok y" | "ok x" "ok y" by blast
    then show ?thesis
    proof cases
      case 1
      then show ?thesis
        using xy(2-4) by (auto simp: run ok_def pipe_outcome_def closed_in_def split: prod.splits)
    next
      case 2
      have "(fds s)[nat x := - 1] = fds s"
        using free [OF xy(2) 2(1)] by (metis list_update_id)
      with 2 free [OF xy(2) 2(1)] len xy(2-4) show ?thesis
        by (auto simp: run ok_def set_fd_def pipe_outcome_def closed_in_def nth_list_update nat_eq_iff2 split: prod.splits)
    next
      case 3
      then show ?thesis
        using free [OF xy(2) 3(1)] free [OF xy(3) 3(2)] xy(2-4) len
        by (simp add: run ok_def pipe_outcome_def nth_list_update nat_eq_iff2)
          (rule exI [of _ "nat x"], simp, rule exI [of _ "nat y"], simp add: eq_nat_nat_iff)
    qed
  qed
qed


definition pipe_os :: "int \<Rightarrow> int \<Rightarrow> unit machine os" where
  "pipe_os x y c m = (\<lparr>ret = 0, err = 0, nums = [x, y], payload = []\<rparr>, m)"


end
