(* ===== verification/Bridge_Session.thy ===== *)
theory Bridge_Session
  imports Bridge_Files
begin

text \<open>
  The process, signal, terminal, clock, identity and limit services of \<^verbatim>\<open>service\<close> in
  \<^verbatim>\<open>src/src/host.c\<close>, in the form of \<open>Bridge_Files\<close>.
\<close>

subsection \<open>Processes and waiting\<close>

definition br_poll :: "u64 \<Rightarrow> 'k br" where
  "br_poll mask_at os h a b n =
     (if b > of_nat MAX_FDS then fail EINVAL
      else do {
        entries \<leftarrow> (if b \<noteq> 0 then memory h a (b * 8) else State_Monad.return None);
        msk \<leftarrow> (if mask_at \<noteq> 0 then memory h mask_at 8 else State_Monad.return None);
        if b \<noteq> 0 \<and> entries = None \<or> mask_at \<noteq> 0 \<and> msk = None then State_Monad.return (-1)
        else poll_descriptors os h a b
          (if sint n < 0 then None else Some (sint n div 1000000000, sint n mod 1000000000)) msk
      })"

definition br_getpgid :: "'k br" where
  "br_getpgid os h a b n = calli os ''getpgid'' [Num (c_int a)]"

definition br_setpgid :: "'k br" where
  "br_setpgid os h a b n = calli os ''setpgid'' [Num (c_int a), Num (c_int b)]"

definition br_setsid :: "'k br" where
  "br_setsid os h a b n = calli os ''setsid'' []"

text \<open>The guest's \<^verbatim>\<open>WCONTINUED\<close> is 4 and Linux's is 8.\<close>

definition wait_options :: "u64 \<Rightarrow> u32" where
  "wait_options n = (ucast n AND NOT 4) OR (if bit n 2 then 8 else 0)"

definition br_waitpid :: "'k br" where
  "br_waitpid os h a b n = do {
     out \<leftarrow> (if b \<noteq> 0 then memory h b 4 else State_Monad.return None);
     if b \<noteq> 0 \<and> out = None then State_Monad.return (-1)
     else do {
       r \<leftarrow> call os ''waitpid'' [Num (c_int a), Num (sint (wait_options n))];
       if ret r > 0 \<and> out \<noteq> None then do {
         poke b (le32 (guest_wait_status (word_of_int (nums r ! 0))));
         State_Monad.return (ret r)
       } else State_Monad.return (ret r)
     }
   }"

definition br_kill :: "'k br" where
  "br_kill os h a b n = (let number = native_signal (c_int b) in
     if number < 0 then fail EINVAL else calli os ''kill'' [Num (c_int a), Num number])"

definition br_alarm :: "'k br" where
  "br_alarm os h a b n = calli os ''alarm'' [Num (c_uint a)]"

subsection \<open>Signals\<close>

definition action_layout :: layout where "action_layout = [U 8, I 4, I 4]"

text \<open>
  A handler is \<^verbatim>\<open>SIG_DFL\<close> (0), \<^verbatim>\<open>SIG_IGN\<close> (1), \<^verbatim>\<open>record_signal\<close> (2) or some other
  function. An action is the handler, the flags and the members of the mask; \<^verbatim>\<open>sigaction\<close>
  stores the previous one in the same form.
\<close>

definition SA_SIGINFO :: u32 where "SA_SIGINFO = 4"

definition import_action :: "geometry \<Rightarrow> int list \<Rightarrow> arg list" where
  "import_action h v =
     (let flags = native_action_flags (word_of_int (v ! 2)) in
      [Nums (if v ! 1 = 0 then [0, uint flags] else if v ! 1 = 1 then [1, uint flags]
             else [2, uint (flags OR SA_SIGINFO)]),
       sigset_arg (unpack_signal_mask (libc_signals h) (word_of_int (v ! 0)))])"

definition export_action :: "int \<Rightarrow> int list \<Rightarrow> byte list" where
  "export_action installed old = encode_struct action_layout
     [uint (pack_signal_mask (set (map nat (drop 2 old)))),
      if old ! 0 = 0 then 0 else if old ! 0 = 1 then 1 else 2,
      if old ! 0 = 2 then installed else sint (guest_action_flags (word_of_int (old ! 1)))]"

definition set_installed :: "nat \<Rightarrow> int \<Rightarrow> ('k, unit) hostm" where
  "set_installed i v = State_Monad.update (\<lambda>s. s\<lparr>installed_flags := (installed_flags s)[i := v],
     oob := (oob s \<or> i \<ge> length (installed_flags s))\<rparr>)"

text \<open>The new flags are read from the guest's structure again after the old action was stored.\<close>

definition br_sigaction :: "'k br" where
  "br_sigaction os h a b n = do {
     let number = bridge_signal_number a;
     action \<leftarrow> (if b \<noteq> 0 then memory h b 16 else State_Monad.return None);
     out \<leftarrow> (if n \<noteq> 0 then memory h n 16 else State_Monad.return None);
     if number \<le> 0 \<or> b \<noteq> 0 \<and> action = None \<or> n \<noteq> 0 \<and> out = None then fail EINVAL
     else do {
       m \<leftarrow> peek_mem;
       r \<leftarrow> call os ''sigaction'' (Num number #
              (if b = 0 then [Num 0] else import_action h (load_struct action_layout m b)));
       installed \<leftarrow> gets (\<lambda>s. installed_flags s ! nat number);
       if ret r \<noteq> 0 then State_Monad.return (-1)
       else do {
         (if n \<noteq> 0 then poke n (export_action installed (nums r)) else State_Monad.return ());
         m \<leftarrow> peek_mem;
         (if b \<noteq> 0 then set_installed (nat number) (load_struct action_layout m b ! 2)
          else State_Monad.return ());
         State_Monad.return 0
       }
     }
   }"

definition br_sigmask :: "'k br" where
  "br_sigmask os h a b n = do {
     msk \<leftarrow> (if b \<noteq> 0 then memory h b 8 else State_Monad.return None);
     out \<leftarrow> (if n \<noteq> 0 then memory h n 8 else State_Monad.return None);
     if b \<noteq> 0 \<and> msk = None \<or> n \<noteq> 0 \<and> out = None then State_Monad.return (-1)
     else do {
       m \<leftarrow> peek_mem;
       let how = (if a = 0 then SIG_SETMASK else if a = 1 then SIG_BLOCK
                  else if a = 2 then SIG_UNBLOCK else -1);
       r \<leftarrow> call os ''sigprocmask'' [Num how,
              if b = 0 then Num 0 else sigset_arg (unpack_signal_mask (libc_signals h) (load64 m b))];
       if ret r \<noteq> 0 then State_Monad.return (-1)
       else do {
         (if n \<noteq> 0 then poke n (le64 (pack_signal_mask (sigset_of r))) else State_Monad.return ());
         State_Monad.return 0
       }
     }
   }"

definition br_sigsuspend :: "'k br" where
  "br_sigsuspend os h a b n = suspend_signals os h a"

subsection \<open>Terminals\<close>

definition br_tcgetpgrp :: "'k br" where
  "br_tcgetpgrp = br_fd_call ''tcgetpgrp'' (\<lambda>b. [])"

definition br_tcsetpgrp :: "'k br" where
  "br_tcsetpgrp = br_fd_call ''tcsetpgrp'' (\<lambda>b. [Num (c_int b)])"

text \<open>The modes, the line discipline and the 32 control characters; then, aligned, the speeds.\<close>

definition termios_head :: layout where
  "termios_head = replicate 4 (U 4) @ replicate 33 (U 1)"

definition termios_layout :: layout where
  "termios_layout = termios_head @ [Pad 3, U 4, U 4]"

text \<open>\<^verbatim>\<open>struct termios\<close> as the members of the head and the output and input speeds.\<close>

definition br_tcsetattr :: "'k br" where
  "br_tcsetattr os h a b n = do {
     wire \<leftarrow> memory h b 60;
     actual \<leftarrow> fd (c_int a);
     if wire = None \<or> actual < 0 then State_Monad.return (-1)
     else do {
       m \<leftarrow> peek_mem;
       let v = load_struct termios_layout m b;
       out_speed \<leftarrow> calli os ''cfsetospeed'' [Num (v ! 38)];
       if out_speed \<noteq> 0 then State_Monad.return (-1)
       else do {
         in_speed \<leftarrow> calli os ''cfsetispeed'' [Num (v ! 37)];
         if in_speed \<noteq> 0 then State_Monad.return (-1)
         else calli os ''tcsetattr'' [Fd actual, Num (c_int n), Nums (take 37 v @ [v ! 38, v ! 37])]
       }
     }
   }"

definition br_tcgetattr :: "'k br" where
  "br_tcgetattr os h a b n = do {
     out \<leftarrow> memory h b 60;
     actual \<leftarrow> fd (c_int a);
     if out = None \<or> actual < 0 then State_Monad.return (-1)
     else do {
       r \<leftarrow> call os ''tcgetattr'' [Fd actual];
       if ret r \<noteq> 0 then State_Monad.return (-1)
       else do {
         poke b (encode_struct termios_head (take 37 (nums r)));
         poke (b + 52) (encode_struct [U 4, U 4] [nums r ! 38, nums r ! 37]);
         State_Monad.return 0
       }
     }
   }"

definition br_ttyname :: "'k br" where
  "br_ttyname os h a b n = do {
     actual \<leftarrow> fd (c_int a);
     buffer \<leftarrow> memory h b n;
     if actual < 0 \<or> buffer = None then State_Monad.return (-1)
     else error_call os ''ttyname_r'' [Fd actual, mem_arg buffer n, Num (uint n)]
   }"

abbreviation (input) SIOCGIFNAME :: u64 where "SIOCGIFNAME \<equiv> 0x8910"
abbreviation (input) SIOCGIFCONF :: u64 where "SIOCGIFCONF \<equiv> 0x8912"
abbreviation (input) SIOCETHTOOL :: u64 where "SIOCETHTOOL \<equiv> 0x8946"
abbreviation (input) SIOCSIFMAP :: u64 where "SIOCSIFMAP \<equiv> 0x8971"

text \<open>
  The requests listed are \<^verbatim>\<open>TIOCGWINSZ\<close>, \<^verbatim>\<open>TIOCSWINSZ\<close>; \<^verbatim>\<open>FIONREAD\<close>,
  \<^verbatim>\<open>FIONBIO\<close>, \<^verbatim>\<open>TIOCGPTN\<close>, \<^verbatim>\<open>TIOCSPTLCK\<close>; and \<^verbatim>\<open>TIOCSCTTY\<close>,
  \<^verbatim>\<open>TIOCNOTTY\<close>, \<^verbatim>\<open>TIOCCONS\<close>. The size of any other one is bits 16 to 29 of its number.
\<close>

definition ioctl_size :: "u64 \<Rightarrow> u64" where
  "ioctl_size b =
     (if b \<in> {0x5413, 0x5414} then 8
      else if b \<in> {0x541B, 0x5421, 0x80045430, 0x40045431} then 4
      else if SIOCGIFNAME \<le> b \<and> b \<le> SIOCSIFMAP then 40
      else take_bit 14 (drop_bit 16 b))"

definition br_ioctl :: "'k br" where
  "br_ioctl os h a b n = with_fd a (\<lambda>actual.
     if b \<in> {0x540E, 0x5422, 0x541D} then calli os ''ioctl'' [Fd actual, Num (uint b), Num (uint n)]
     else if ioctl_size b = 0 \<or> b = SIOCGIFCONF \<or> b = SIOCETHTOOL then fail ENOTSUP
     else do {
       buffer \<leftarrow> memory h n (ioctl_size b);
       if buffer = None then State_Monad.return (-1)
       else calli os ''ioctl'' [Fd actual, Num (uint b), mem_arg buffer (ioctl_size b)]
     })"

subsection \<open>Clocks, identities and limits\<close>

definition br_umask :: "'k br" where
  "br_umask os h a b n = calli os ''umask'' [Num (c_uint a)]"

definition br_uname :: "'k br" where
  "br_uname os h a b n = do {
     buffer \<leftarrow> memory h a 390;
     if buffer = None then State_Monad.return (-1) else calli os ''uname'' [mem_arg buffer 390]
   }"

definition br_gettime :: "'k br" where
  "br_gettime os h a b n = do {
     r \<leftarrow> call os ''clock_gettime'' [Num (native_clock (c_uint a))];
     State_Monad.return (if ret r \<noteq> 0 then -1 else nums r ! 0 * 1000000000 + nums r ! 1)
   }"

text \<open>\<^verbatim>\<open>remaining\<close> starts as zero and the call need not store it.\<close>

definition br_sleep :: "'k br" where
  "br_sleep os h a b n = do {
     out \<leftarrow> (if n \<noteq> 0 then memory h n 16 else State_Monad.return None);
     if n \<noteq> 0 \<and> out = None then State_Monad.return (-1)
     else do {
       r \<leftarrow> call os ''nanosleep'' [Nums [sint a, sint b]];
       let remaining = (case nums r of [sec, nsec] \<Rightarrow> [sec, nsec] | _ \<Rightarrow> [0, 0]);
       (if n \<noteq> 0 then poke n (encode_struct [I 8, I 8] remaining) else State_Monad.return ());
       State_Monad.return (ret r)
     }
   }"

text \<open>
  A password or group entry: the numbers, then the length of each string, -1 for NULL, with the
  strings one after the other in the payload.
\<close>

fun cut_strings :: "int list \<Rightarrow> byte list \<Rightarrow> byte list option list" where
  "cut_strings [] bs = []"
| "cut_strings (k # ks) bs = (if k < 0 then None # cut_strings ks bs
     else Some (take (nat k) bs) # cut_strings ks (drop (nat k) bs))"

text \<open>\<^verbatim>\<open>getpwnam\<close> and \<^verbatim>\<open>getgrnam\<close> read the name after the result was cleared.\<close>

definition identity_key :: "bool \<Rightarrow> geometry \<Rightarrow> u64 \<Rightarrow> (arg \<Rightarrow> ('k, int) hostm) \<Rightarrow> ('k, int) hostm" where
  "identity_key by_number h a f =
     (if by_number then f (Num (c_uint a)) else with_string h a (\<lambda>name. f (Str name)))"

definition identity_fields :: "(u64 \<times> nat) list" where
  "identity_fields = [(8, 256), (264, 128), (392, 512), (904, 4096), (5000, 256)]"

primrec store_fields :: "u64 \<Rightarrow> ((u64 \<times> nat) \<times> byte list option) list \<Rightarrow> ('k, unit) hostm" where
  "store_fields out [] = State_Monad.return ()"
| "store_fields out (f # fs) = do {
     poke (out + fst (fst f)) (copy_string (snd (fst f)) (snd f));
     store_fields out fs
   }"

definition br_getpw :: "bool \<Rightarrow> 'k br" where
  "br_getpw by_number os h a b n = do {
     out \<leftarrow> memory h b 5256;
     if out = None then State_Monad.return (-1)
     else do {
       poke b (replicate 5256 0);
       identity_key by_number h a (\<lambda>key. do {
         p \<leftarrow> call os (if by_number then ''getpwuid'' else ''getpwnam'') [key];
         if ret p < 0 then State_Monad.return 0
         else do {
           poke b (encode_struct [U 4, U 4] (take 2 (nums p)));
           store_fields b (zip identity_fields (cut_strings (drop 2 (nums p)) (payload p)));
           State_Monad.return 1
         }
       })
     }
   }"

definition br_getgr :: "bool \<Rightarrow> 'k br" where
  "br_getgr by_number os h a b n = do {
     out \<leftarrow> memory h b 5256;
     if out = None then State_Monad.return (-1)
     else do {
       poke b (replicate 5256 0);
       identity_key by_number h a (\<lambda>key. do {
         p \<leftarrow> call os (if by_number then ''getgrgid'' else ''getgrnam'') [key];
         if ret p < 0 then State_Monad.return 0
         else do {
           poke (b + 4) (encode_int 4 (nums p ! 0));
           store_fields b (zip (take 1 identity_fields) (cut_strings (drop 1 (nums p)) (payload p)));
           State_Monad.return 1
         }
       })
     }
   }"

definition br_getgroups :: "'k br" where
  "br_getgroups os h a b n =
     (if a > of_nat MAX_FDS then fail EINVAL
      else do {
        buffer \<leftarrow> (if a \<noteq> 0 then memory h b (a * 4) else State_Monad.return None);
        if a \<noteq> 0 \<and> buffer = None then State_Monad.return (-1)
        else calli os ''getgroups'' [Num (c_int a), mem_arg buffer (a * 4)]
      })"

text \<open>The guest's numbers of the resource limits are indices of this table.\<close>

definition limits :: "int list" where "limits = [0, 1, 2, 3, 4, 7, 9, 6, 8]"

definition br_getrlimit :: "'k br" where
  "br_getrlimit os h a b n = do {
     pair \<leftarrow> memory h b 16;
     if pair = None then State_Monad.return (-1)
     else if a \<ge> of_nat (length limits) then fail EINVAL
     else do {
       r \<leftarrow> call os ''getrlimit'' [Num (limits ! unat a)];
       if ret r \<noteq> 0 then State_Monad.return (-1)
       else do {
         poke b (encode_int 8 (if a = 5 then int MAX_FDS else nums r ! 0));
         poke (b + 8) (encode_int 8 (if a = 5 then int MAX_FDS else nums r ! 1));
         State_Monad.return 0
       }
     }
   }"

definition br_setrlimit :: "'k br" where
  "br_setrlimit os h a b n = do {
     pair \<leftarrow> memory h b 16;
     if pair = None then State_Monad.return (-1)
     else if a \<ge> of_nat (length limits) then fail EINVAL
     else do {
       m \<leftarrow> peek_mem;
       calli os ''setrlimit'' [Num (limits ! unat a), Nums [uint (load64 m b), uint (load64 m (b + 8))]]
     }
   }"

definition br_sync :: "'k br" where
  "br_sync os h a b n = do { _ \<leftarrow> call os ''sync'' []; State_Monad.return 0 }"

subsection \<open>Confinement\<close>

lemma session_layouts [simp]:
  "struct_size action_layout = 16" "struct_size termios_layout = 60" "struct_size termios_head = 49"
  "length (export_action installed old) = 16"
  by (simp_all add: action_layout_def termios_layout_def termios_head_def export_action_def numeral_eq_Suc)

lemma safe_bind_opt_memory [safe_rules]:
  "geometry_ok g \<Longrightarrow> (\<And>r. r = None \<or> (c \<and> r = Some a \<and> range_ok g a (unat n)) \<Longrightarrow> safe g (f r) Q) \<Longrightarrow>
     safe g (State_Monad.bind (if c then memory g a n else State_Monad.return None) f) Q"
  by (rule safe_bindI [where P = "\<lambda>r. r = None \<or> (c \<and> r = Some a \<and> range_ok g a (unat n))"])
    (auto intro!: safe_rules safe_mono [OF safe_memory])

lemma safe_bind_set_installed [safe_rules]:
  "i < 65 \<Longrightarrow> safe g (f ()) Q \<Longrightarrow> safe g (State_Monad.bind (set_installed i v) f) Q"
  by (rule safe_bindI [where P = "\<lambda>_. True"], rule safeI)
    (auto simp: set_installed_def wp_update confined_def host_inv_def pending_signal_def)

lemma bridge_signal_range: "\<not> bridge_signal_number a \<le> 0 \<Longrightarrow> nat (bridge_signal_number a) < 65"
  by (auto simp: bridge_signal_number_def native_signal_def split: if_splits)

lemma safe_store_fields:
  assumes "\<And>f. f \<in> set fs \<Longrightarrow> range_ok g (out + fst (fst f)) (snd (fst f))"
  shows "safe g (store_fields out fs) (\<lambda>_. True)"
  using assms by (induction fs) (auto intro!: safe_rules copy_string_range)

lemma identity_ranges:
  assumes "range_ok g b 5256" "((k, n), v) \<in> set (zip fs ss)" "set fs \<subseteq> set identity_fields"
  shows "range_ok g (b + k) n"
proof -
  have "(k, n) \<in> set identity_fields" using assms(2,3) by (auto dest: set_zip_leftD)
  then show ?thesis using range_ok_offset [OF assms(1)] by (auto simp: identity_fields_def)
qed

lemma poll_bytes: "\<not> of_nat MAX_FDS < (b :: u64) \<Longrightarrow> unat (b * 8) = 8 * unat b"
  by (simp add: MAX_FDS_def word_less_nat_alt unat_word_ariths)

lemma safe_identity_key [safe_rules]:
  "geometry_ok g \<Longrightarrow> (\<And>key. arg_safe g key \<Longrightarrow> safe g (f key) Q) \<Longrightarrow> Q (-1) \<Longrightarrow> safe g (identity_key by_number g a f) Q"
  unfolding identity_key_def by (intro safe_rules) auto

lemma safe_processes:
  assumes os: "os_ok g os" and g: "geometry_ok g"
  shows "safe g (br_getpgid os g a b n) (\<lambda>_. True)" "safe g (br_setpgid os g a b n) (\<lambda>_. True)"
    "safe g (br_setsid os g a b n) (\<lambda>_. True)" "safe g (br_waitpid os g a b n) (\<lambda>_. True)"
    "safe g (br_kill os g a b n) (\<lambda>_. True)" "safe g (br_alarm os g a b n) (\<lambda>_. True)"
    "safe g (br_sigsuspend os g a b n) (\<lambda>_. True)" "safe g (br_sigmask os g a b n) (\<lambda>_. True)"
    "safe g (br_umask os g a b n) (\<lambda>_. True)" "safe g (br_uname os g a b n) (\<lambda>_. True)"
    "safe g (br_gettime os g a b n) (\<lambda>_. True)" "safe g (br_sleep os g a b n) (\<lambda>_. True)"
    "safe g (br_sync os g a b n) (\<lambda>_. True)"
  unfolding br_getpgid_def br_setpgid_def br_setsid_def br_waitpid_def br_kill_def br_alarm_def
    br_sigsuspend_def br_sigmask_def br_umask_def br_uname_def br_gettime_def br_sleep_def br_sync_def Let_def
  by (intro safe_rules os g; auto simp: sigset_arg_def split: option.splits)+

lemma safe_terminals:
  assumes os: "os_ok g os" and g: "geometry_ok g"
  shows "safe g (br_tcgetpgrp os g a b n) (\<lambda>_. True)" "safe g (br_tcsetpgrp os g a b n) (\<lambda>_. True)"
    "safe g (br_tcsetattr os g a b n) (\<lambda>_. True)" "safe g (br_tcgetattr os g a b n) (\<lambda>_. True)"
    "safe g (br_ttyname os g a b n) (\<lambda>_. True)" "safe g (br_ioctl os g a b n) (\<lambda>_. True)"
    "safe g (br_getrlimit os g a b n) (\<lambda>_. True)" "safe g (br_setrlimit os g a b n) (\<lambda>_. True)"
    "safe g (br_getgroups os g a b n) (\<lambda>_. True)"
  unfolding br_tcgetpgrp_def br_tcsetpgrp_def br_fd_call_def br_tcsetattr_def br_tcgetattr_def br_ttyname_def
    br_ioctl_def br_getrlimit_def br_setrlimit_def br_getgroups_def Let_def
  by (intro safe_rules os g; auto split: option.splits intro: range_ok_mono range_ok_offset)+

lemma safe_br_sigaction:
  assumes os: "os_ok g os" and g: "geometry_ok g"
  shows "safe g (br_sigaction os g a b n) (\<lambda>_. True)"
  unfolding br_sigaction_def Let_def
  by (intro safe_rules os g)
    (auto simp: import_action_def sigset_arg_def Let_def intro: bridge_signal_range)

lemma safe_identity:
  assumes os: "os_ok g os" and g: "geometry_ok g"
  shows "safe g (br_getpw k os g a b n) (\<lambda>_. True)" "safe g (br_getgr k os g a b n) (\<lambda>_. True)"
  unfolding br_getpw_def br_getgr_def
  by (intro safe_rules os g safe_bindI [OF safe_store_fields]; auto intro: range_ok_mono range_ok_offset identity_ranges dest: in_set_takeD)+

lemma safe_br_poll:
  assumes os: "os_ok g os" and g: "geometry_ok g"
  shows "safe g (br_poll mask_at os g a b n) (\<lambda>_. True)"
  unfolding br_poll_def
  by (intro safe_rules os g) (auto simp: poll_bytes range_ok_def)

end
