(* ===== verification/Bridge_Service.thy ===== *)
theory Bridge_Service
  imports Bridge_Session
begin

text \<open>
  The dispatch of \<^verbatim>\<open>service\<close> in \<^verbatim>\<open>src/src/host.c\<close> over the operations of
  \<^verbatim>\<open>src/include/kernel_control.h\<close>, the two functions that inspect a request before it is
  serviced (\<^verbatim>\<open>namespace_clone_request\<close>, \<^verbatim>\<open>changes_credentials\<close>), and the confinement
  of every request.
\<close>

text \<open>
  The mailbox names an operation by its number in \<^verbatim>\<open>enum bridge_operation\<close>. \<^verbatim>\<open>BR_NONE\<close>,
  \<^verbatim>\<open>BR_FORK\<close> and \<^verbatim>\<open>BR_EXIT\<close> have no \<^verbatim>\<open>case\<close> in \<^verbatim>\<open>service\<close>.
\<close>

abbreviation (input) BR_NONE :: u32 where "BR_NONE \<equiv> 0"
abbreviation (input) BR_CLOSE :: u32 where "BR_CLOSE \<equiv> 4"
abbreviation (input) BR_FORK :: u32 where "BR_FORK \<equiv> 45"
abbreviation (input) BR_EXIT :: u32 where "BR_EXIT \<equiv> 48"
abbreviation (input) BR_POSIX :: u32 where "BR_POSIX \<equiv> 64"

text \<open>
  \<^verbatim>\<open>struct posix_request\<close>: the operation and six arguments. The C handlers read the arguments
  where they lie; none reads one after it has stored into guest memory, so they are read once.
\<close>

definition br_posix :: "'k br" where
  "br_posix os h a b n = do {
     request \<leftarrow> memory h a 56;
     if request = None then State_Monad.return (-1)
     else do {
       m \<leftarrow> peek_mem;
       service_posix os h (load64 m a) (\<lambda>i. load64 m (a + 8 + of_nat (8 * i)))
     }
   }"

definition service_table :: "(nat \<Rightarrow> u64) \<Rightarrow> (u32 \<times> 'k br) list" where
  "service_table v =
     [(1, br_transfer True), (2, br_transfer False), (3, br_open), (4, br_close), (5, br_lseek), (6,
      br_fcntl), (7, br_dup2), (8, br_stat True), (9, br_stat False), (10, br_fstat), (11,
      br_access), (12, br_chdir), (13, br_getcwd), (14, br_mkdir), (15, br_rmdir), (16,
      br_unlink), (17, br_link), (18, br_symlink), (19, br_readlink), (20, br_chmod), (21,
      br_fchmod), (22, br_fsync), (23, br_isatty), (24, br_uname), (25, br_sleep), (26,
      br_gettime), (27, br_getpw True), (28, br_getpw False), (29, br_getgr True), (30, br_getgr
      False), (31, br_getgroups), (32, br_opendir), (33, br_readdir), (34, br_closedir), (35,
      br_ioctl), (36, br_umask), (37, br_fchdir), (38, br_mkfifo), (39, br_getrlimit), (40,
      br_setrlimit), (41, br_realpath), (42, br_sync), (43, br_dirfd), (44, br_mkdtemp), (46,
      br_pipe), (47, br_waitpid), (49, br_getpgid), (50, br_setpgid), (51, br_setsid), (52,
      br_tcgetpgrp), (53, br_tcsetpgrp), (54, br_tcgetattr), (55, br_tcsetattr), (56, br_ttyname),
      (57, br_kill), (58, br_sigaction), (59, br_sigmask), (60, br_sigsuspend), (61, br_alarm),
      (62, br_statx (v 3) (v 4)), (63, br_poll (v 3)), (64, br_posix), (65, service_exec)]"

definition service :: "'k machine os \<Rightarrow> geometry \<Rightarrow> u32 \<Rightarrow> (nat \<Rightarrow> u64) \<Rightarrow> ('k, int) hostm" where
  "service os h operation v =
     (case map_of (service_table v) operation of
        Some f \<Rightarrow> f os h (v 0) (v 1) (v 2)
      | None \<Rightarrow> fail ENOSYS)"

abbreviation (input) PX_RAW_SYSCALL :: u64 where "PX_RAW_SYSCALL \<equiv> 1023"
abbreviation (input) LASH_SYS_clone :: u64 where "LASH_SYS_clone \<equiv> 56"
abbreviation (input) SIGCHLD :: u64 where "SIGCHLD \<equiv> 17"

text \<open>The seven \<^verbatim>\<open>CLONE_NEW\<close> flags.\<close>

definition clone_allowed :: u64 where
  "clone_allowed = 0x02000000 OR 0x08000000 OR 0x40000000 OR 0x00020000 OR 0x20000000 OR 0x10000000 OR
     0x04000000"

definition namespace_clone_request :: "geometry \<Rightarrow> u32 \<Rightarrow> (nat \<Rightarrow> u64) \<Rightarrow> ('k, u64) hostm" where
  "namespace_clone_request h operation args =
     (if operation \<noteq> BR_POSIX then State_Monad.return 0
      else do {
        r \<leftarrow> memory h (args 0) 56;
        m \<leftarrow> peek_mem;
        if r = None \<or> load64 m (args 0) \<noteq> PX_RAW_SYSCALL then State_Monad.return 0
        else do {
          let p = load64 m (args 0 + 8);
          words \<leftarrow> memory h p 56;
          let v = (\<lambda>i. load64 m (p + of_nat (8 * i)));
          if words = None \<or> v 0 \<noteq> LASH_SYS_clone then State_Monad.return 0
          else if v 1 AND 255 \<noteq> SIGCHLD \<or> v 1 AND NOT (clone_allowed OR 255) \<noteq> 0 \<or>
               v 2 \<noteq> 0 \<or> v 3 \<noteq> 0 \<or> v 4 \<noteq> 0 \<or> v 5 \<noteq> 0 \<or> v 6 \<noteq> 0 then State_Monad.return 0
          else State_Monad.return (v 1)
        }
      })"

definition changes_credentials :: "geometry \<Rightarrow> u32 \<Rightarrow> (nat \<Rightarrow> u64) \<Rightarrow> ('k, bool) hostm" where
  "changes_credentials h operation args =
     (if operation \<noteq> BR_POSIX then State_Monad.return False
      else do {
        r \<leftarrow> memory h (args 0) 56;
        m \<leftarrow> peek_mem;
        State_Monad.return (r \<noteq> None \<and> load64 m (args 0) \<in> {58, 59, 60, 61})
      })"

subsection \<open>Confinement of every request\<close>

lemma safe_br_posix: "os_ok g os \<Longrightarrow> geometry_ok g \<Longrightarrow> safe g (br_posix os g a b n) (\<lambda>_. True)"
  unfolding br_posix_def by (intro safe_rules safe_service_posix TrueI)

lemma service_table_safe:
  assumes "os_ok g os" "geometry_ok g"
  shows "list_all (\<lambda>e. fst e \<noteq> BR_CLOSE \<longrightarrow> safe g (snd e os g a b n) (\<lambda>_. True)) (service_table v)"
  using safe_files [OF assms] safe_paths [OF assms] safe_links [OF assms] safe_processes [OF assms]
    safe_terminals [OF assms] safe_identity [OF assms] safe_br_sigaction [OF assms] safe_br_poll [OF assms]
    safe_br_pipe [OF assms] safe_br_opendir [OF assms] safe_br_posix [OF assms]
    safe_service_exec [OF assms] safe_br_dup2 [OF assms(1)]
  by (simp add: service_table_def)

lemma service_close: "map_of (service_table v) BR_CLOSE = Some br_close"
  by (simp add: service_table_def)

lemma safe_service:
  assumes "os_ok g os" "geometry_ok g" "operation = BR_CLOSE \<Longrightarrow> sint (v 0) = c_int (v 0)"
  shows "safe g (service os g operation v) (\<lambda>_. True)"
proof (cases "operation = BR_CLOSE")
  case True
  then show ?thesis
    using safe_br_close [OF assms(1,3)] by (simp add: service_def service_close)
next
  case False
  then show ?thesis
    using service_table_safe [OF assms(1,2), of "v 0" "v 1" "v 2" v] unfolding service_def
    by (intro safe_case_option safe_fail TrueI) (force dest!: map_of_SomeD simp: list_all_iff)
qed



lemma wide_word:
  assumes "i < MAX_FDS"
  shows "c_int (2 ^ 32 + of_nat i) = int i" "\<not> unat (2 ^ 32 + of_nat i :: u64) < MAX_FDS"
proof -
  have u: "uint (2 ^ 32 + of_nat i :: u64) = 2 ^ 32 + int i"
    using assms by (simp add: uint_word_ariths take_bit_nat_eq_self unsigned_of_nat MAX_FDS_def)
  then show "\<not> unat (2 ^ 32 + of_nat i :: u64) < MAX_FDS" by (simp add: MAX_FDS_def flip: nat_uint_eq)
  have "take_bit 32 (2 ^ 32 + int i) = int i" "signed_take_bit 31 (int i) = int i"
    using assms by (simp_all add: MAX_FDS_def take_bit_eq_mod signed_take_bit_int_eq_self)
  with u show "c_int (2 ^ 32 + of_nat i) = int i"
    by (simp add: c_int_def sint_uint unsigned_ucast_eq)
qed

text \<open>
  C29. The condition on \<^verbatim>\<open>BR_CLOSE\<close> is needed: the descriptor is checked as an \<^verbatim>\<open>int\<close> but the table
  is indexed with the whole word, so the word \<open>2 ^ 32 + i\<close> for an open descriptor \<open>i\<close> makes the
  loader write outside \<^verbatim>\<open>fds\<close>.
\<close>
theorem close_index_unchecked:
  assumes "i < MAX_FDS" "fds s ! i = int i"
  shows "oob (snd (run_state (service os h BR_CLOSE (\<lambda>_. 2 ^ 32 + of_nat i)) s))"
proof -
  have "wp (service os h BR_CLOSE (\<lambda>_. 2 ^ 32 + of_nat i)) (\<lambda>_ t. oob t) s"
    using assms wide_word [OF assms(1)]
    by (simp add: service_def service_close br_close_def with_fd_def fd_def calli_def set_fd_def wp_simps
        split: prod.splits)
  then show ?thesis by (simp add: wp_def split: prod.splits)
qed

theorem close_index_unchecked_witness:
  "oob (snd (run_state (service demo_os demo_geometry BR_CLOSE (\<lambda>_. 2 ^ 32 + of_nat 2)) (demo_host (\<lambda>_. 0))))"
  by (rule close_index_unchecked) (simp_all add: MAX_FDS_def demo_host_def)

end
