(* ===== verification/Bridge_Fds.thy ===== *)
theory Bridge_Fds
  imports Bridge_Service
begin

text \<open>
  The loader's own descriptors, \<^verbatim>\<open>src/src/fds_host.h\<close>: taking over the descriptors the
  process was started with, and reserving the vacant slots of the guest range while the loader opens
  private descriptors, so that these get numbers above the range. What the kernel does with its
  descriptor table is a parameter; \<open>fd_kernel\<close> states the documented behaviour of the five calls
  used here.
\<close>

abbreviation (input) F_GETFD :: int where "F_GETFD \<equiv> 1"
abbreviation (input) F_DUPFD_CLOEXEC :: int where "F_DUPFD_CLOEXEC \<equiv> 1030"
abbreviation (input) RLIMIT_NOFILE :: int where "RLIMIT_NOFILE \<equiv> 7"

subsection \<open>Inherited descriptors\<close>

text \<open>
  The inner loop repeats the query while it is interrupted; \<open>fuel\<close> bounds the repetitions of the
  model and \<open>None\<close> says that they were not enough.
\<close>

primrec query_descriptor :: "nat \<Rightarrow> 'k machine os \<Rightarrow> nat \<Rightarrow> ('k, int option) hostm" where
  "query_descriptor 0 os i = State_Monad.return None"
| "query_descriptor (Suc fuel) os i = do {
     flags \<leftarrow> calli os ''fcntl'' [Fd (int i), Num F_GETFD];
     e \<leftarrow> gets errno;
     if flags < 0 \<and> e = EINTR then query_descriptor fuel os i
     else State_Monad.return (Some flags)
   }"

primrec inherit_loop :: "nat \<Rightarrow> 'k machine os \<Rightarrow> nat list \<Rightarrow> ('k, int option) hostm" where
  "inherit_loop fuel os [] = State_Monad.return (Some 0)"
| "inherit_loop fuel os (i # is) = do {
     flags \<leftarrow> query_descriptor fuel os i;
     case flags of
       None \<Rightarrow> State_Monad.return None
     | Some f \<Rightarrow>
         if f \<ge> 0 then do { set_fd i (int i); inherit_loop fuel os is }
         else do {
           e \<leftarrow> gets errno;
           if e \<noteq> EBADF then State_Monad.return (Some (-1)) else inherit_loop fuel os is
         }
   }"

definition clear_descriptors :: "('k, unit) hostm" where
  "clear_descriptors = State_Monad.update (\<lambda>s. s\<lparr>fds := replicate MAX_FDS (-1)\<rparr>)"

definition inherit_descriptors :: "nat \<Rightarrow> 'k machine os \<Rightarrow> ('k, int option) hostm" where
  "inherit_descriptors fuel os = do {
     saved_errno \<leftarrow> gets errno;
     clear_descriptors;
     rc \<leftarrow> inherit_loop fuel os [0..<MAX_FDS];
     if rc = Some 0 then do { set_errno saved_errno; State_Monad.return (Some 0) }
     else State_Monad.return rc
   }"

subsection \<open>Reserved slots\<close>

record descriptor_reservation =
  slots :: "bool list"
  raised_limit :: bool
  limit :: "u64 \<times> u64"

primrec release_slots :: "'k machine os \<Rightarrow> bool list \<Rightarrow> nat list \<Rightarrow> ('k, unit) hostm" where
  "release_slots os marks [] = State_Monad.return ()"
| "release_slots os marks (i # is) = do {
     (if marks ! i then do { _ \<leftarrow> call os ''close'' [New (int i)]; State_Monad.return () }
      else State_Monad.return ());
     release_slots os marks is
   }"

definition release_descriptor_slots ::
  "'k machine os \<Rightarrow> descriptor_reservation \<Rightarrow> ('k, int \<times> descriptor_reservation) hostm" where
  "release_descriptor_slots os reserved = do {
     saved_errno \<leftarrow> gets errno;
     release_slots os (slots reserved) [0..<MAX_FDS];
     let reserved = reserved\<lparr>slots := replicate MAX_FDS False\<rparr>;
     if raised_limit reserved then do {
       rc \<leftarrow> calli os ''setrlimit'' [Num RLIMIT_NOFILE,
               Nums [uint (fst (limit reserved)), uint (snd (limit reserved))]];
       if rc \<noteq> 0 then State_Monad.return (-1, reserved)
       else do {
         set_errno saved_errno;
         State_Monad.return (0, reserved\<lparr>raised_limit := False\<rparr>)
       }
     } else do {
       set_errno saved_errno;
       State_Monad.return (0, reserved)
     }
   }"

text \<open>The soft limit is raised by at most the size of the guest range.\<close>

definition extra_descriptors :: "u64 \<Rightarrow> u64 \<Rightarrow> u64" where
  "extra_descriptors cur mx = (let extra = mx - cur in if extra > of_nat MAX_FDS then of_nat MAX_FDS else extra)"

text \<open>\<open>None\<close> is the jump to the failure exit, with \<^verbatim>\<open>errno\<close> set and the placeholder closed.\<close>

primrec reserve_loop ::
  "'k machine os \<Rightarrow> int \<Rightarrow> bool list \<Rightarrow> nat list \<Rightarrow> ('k, bool \<times> bool list) hostm" where
  "reserve_loop os placeholder marks [] = State_Monad.return (True, marks)"
| "reserve_loop os placeholder marks (i # is) = do {
     flags \<leftarrow> calli os ''fcntl'' [Fd (int i), Num F_GETFD];
     if flags \<ge> 0 then reserve_loop os placeholder marks is
     else do {
       e \<leftarrow> gets errno;
       copy \<leftarrow> (if e \<noteq> EBADF then State_Monad.return (-1)
               else calli os ''fcntl'' [New placeholder, Num F_DUPFD_CLOEXEC, Num (int i)]);
       if copy < 0 then do {
         error \<leftarrow> gets errno;
         (if placeholder \<ge> int MAX_FDS
          then do { _ \<leftarrow> call os ''close'' [New placeholder]; State_Monad.return () }
          else State_Monad.return ());
         set_errno error;
         State_Monad.return (False, marks)
       }
       else reserve_loop os placeholder (marks[i := True]) is
     }
   }"

definition reservation_failed ::
  "'k machine os \<Rightarrow> descriptor_reservation \<Rightarrow> ('k, int \<times> descriptor_reservation) hostm" where
  "reservation_failed os reserved = do {
     r \<leftarrow> release_descriptor_slots os reserved;
     State_Monad.return (-1, snd r)
   }"

definition fill_slots ::
  "'k machine os \<Rightarrow> descriptor_reservation \<Rightarrow> ('k, int \<times> descriptor_reservation) hostm" where
  "fill_slots os reserved = do {
     placeholder \<leftarrow> calli os ''memfd_create'' [Str ''lashos-fd-slots'', Num 1];
     if placeholder < 0 then reservation_failed os reserved
     else do {
       let marks = (if placeholder < int MAX_FDS then (slots reserved)[nat placeholder := True]
                    else slots reserved);
       r \<leftarrow> reserve_loop os placeholder marks [0..<MAX_FDS];
       let reserved = reserved\<lparr>slots := snd r\<rparr>;
       if fst r then do {
         (if placeholder \<ge> int MAX_FDS
          then do { _ \<leftarrow> call os ''close'' [New placeholder]; State_Monad.return () }
          else State_Monad.return ());
         State_Monad.return (0, reserved)
       } else reservation_failed os reserved
     }
   }"

definition reserve_descriptor_slots :: "'k machine os \<Rightarrow> ('k, int \<times> descriptor_reservation) hostm" where
  "reserve_descriptor_slots os = do {
     let reserved = \<lparr>slots = replicate MAX_FDS False, raised_limit = False, limit = (0, 0)\<rparr>;
     r \<leftarrow> call os ''getrlimit'' [Num RLIMIT_NOFILE];
     if ret r \<noteq> 0 then State_Monad.return (-1, reserved)
     else do {
       let cur = (word_of_int (nums r ! 0) :: u64);
       let mx = (word_of_int (nums r ! 1) :: u64);
       let reserved = reserved\<lparr>limit := (cur, mx)\<rparr>;
       let extra = extra_descriptors cur mx;
       if extra = 0 then fill_slots os reserved
       else do {
         rc \<leftarrow> calli os ''setrlimit'' [Num RLIMIT_NOFILE, Nums [uint (cur + extra), uint mx]];
         if rc \<noteq> 0 then State_Monad.return (-1, reserved)
         else fill_slots os (reserved\<lparr>raised_limit := True\<rparr>)
       }
     }
   }"

subsection \<open>The kernel's descriptor table\<close>

text \<open>
  \<open>opened w\<close> are the open descriptors of the process. A new descriptor is the lowest free one from
  the requested number on.
\<close>

definition lowest_free :: "nat set \<Rightarrow> nat \<Rightarrow> nat \<Rightarrow> bool" where
  "lowest_free ds m d \<longleftrightarrow> m \<le> d \<and> d \<notin> ds \<and> (\<forall>e. m \<le> e \<and> e < d \<longrightarrow> e \<in> ds)"

definition opens :: "('k machine \<Rightarrow> nat set) \<Rightarrow> nat \<Rightarrow> 'k machine \<Rightarrow> osret \<times> 'k machine \<Rightarrow> bool" where
  "opens opened m w rw \<longleftrightarrow>
     ret (fst rw) < 0 \<and> opened (snd rw) = opened w \<or>
     (\<exists>d. ret (fst rw) = int d \<and> lowest_free (opened w) m d \<and> opened (snd rw) = insert d (opened w))"

definition fd_kernel :: "'k machine os \<Rightarrow> ('k machine \<Rightarrow> nat set) \<Rightarrow> bool" where
  "fd_kernel os opened \<longleftrightarrow>
     (\<forall>w i. let rw = os (Call ''fcntl'' [Fd (int i), Num F_GETFD]) w in
        opened (snd rw) = opened w \<and>
        (if i \<in> opened w then ret (fst rw) \<ge> 0 else ret (fst rw) = -1 \<and> err (fst rw) = EBADF)) \<and>
     (\<forall>w nm fl. opens opened 0 w (os (Call ''memfd_create'' [Str nm, Num fl]) w)) \<and>
     (\<forall>w p i. opens opened i w (os (Call ''fcntl'' [New p, Num F_DUPFD_CLOEXEC, Num (int i)]) w)) \<and>
     (\<forall>w d. opened (snd (os (Call ''close'' [New (int d)]) w)) = opened w - {d}) \<and>
     (\<forall>w args. opened (snd (os (Call ''getrlimit'' args) w)) = opened w) \<and>
     (\<forall>w args. opened (snd (os (Call ''setrlimit'' args) w)) = opened w)"


lemma fd_kernelD:
  assumes "fd_kernel os opened"
  shows "opened (snd (os (Call ''fcntl'' [Fd (int i), Num F_GETFD]) w)) = opened w"
    and "i \<in> opened w \<Longrightarrow> 0 \<le> ret (fst (os (Call ''fcntl'' [Fd (int i), Num F_GETFD]) w))"
    and "i \<notin> opened w \<Longrightarrow> ret (fst (os (Call ''fcntl'' [Fd (int i), Num F_GETFD]) w)) = -1"
    and "i \<notin> opened w \<Longrightarrow> err (fst (os (Call ''fcntl'' [Fd (int i), Num F_GETFD]) w)) = EBADF"
    and "opens opened 0 w (os (Call ''memfd_create'' [Str nm, Num fl]) w)"
    and "opens opened i w (os (Call ''fcntl'' [New p, Num F_DUPFD_CLOEXEC, Num (int i)]) w)"
    and "opened (snd (os (Call ''close'' [New (int d)]) w)) = opened w - {d}"
    and "opened (snd (os (Call ''getrlimit'' args) w)) = opened w"
    and "opened (snd (os (Call ''setrlimit'' args) w)) = opened w"
  using assms unfolding fd_kernel_def Let_def by (auto split: if_splits)

lemma wp_calli: "wp (calli os nm args) Q s =
  (let rw = os (Call nm args) (world s)
   in Q (ret (fst rw)) (s\<lparr>world := snd rw, errno := (if err (fst rw) = 0 then errno s else err (fst rw)),
        trace := trace s @ [(Call nm args, fst rw)]\<rparr>))"
  by (simp add: calli_def wp_simps split: prod.splits)

subsection \<open>Inheriting takes over exactly the open descriptors\<close>

text \<open>The loader's tables as \<^verbatim>\<open>main\<close> declares them: \<^verbatim>\<open>struct bridge_host host = {...}\<close>.\<close>

definition initial_host :: "'k machine \<Rightarrow> 'k host" where
  "initial_host w = \<lparr>world = w, errno = 0, trace = [], fds = replicate MAX_FDS 0,
     dirs = replicate MAX_DIRS None, dir_fds = replicate MAX_DIRS 0,
     sem_objects = replicate MAX_NAMED_SEMAPHORES None, sem_refs = replicate MAX_NAMED_SEMAPHORES 0,
     mailbox_pending = 0, installed_flags = replicate 65 0, oob = False\<rparr>"

definition same_tables :: "'k host \<Rightarrow> 'k host \<Rightarrow> bool" where
  "same_tables s t \<longleftrightarrow> dirs t = dirs s \<and> dir_fds t = dir_fds s \<and> sem_objects t = sem_objects s \<and>
     sem_refs t = sem_refs s \<and> installed_flags t = installed_flags s \<and> oob t = oob s"

lemma query_exact:
  assumes k: "fd_kernel os opened"
  shows "wp (query_descriptor (Suc fuel) os i) (\<lambda>r t.
    opened (world t) = opened (world s) \<and> fds t = fds s \<and> same_tables s t \<and>
    (if i \<in> opened (world s) then \<exists>f \<ge> 0. r = Some f else r = Some (-1) \<and> errno t = EBADF)) s"
  using fd_kernelD(1-4) [OF k, of i "world s"]
  by (auto simp: wp_simps wp_calli Let_def same_tables_def)

lemma inherit_loop_exact:
  assumes k: "fd_kernel os opened"
  shows "\<forall>i \<in> set is. i < MAX_FDS \<Longrightarrow> wp (inherit_loop (Suc fuel) os is) (\<lambda>r t. r = Some 0 \<and>
    opened (world t) = opened (world s) \<and> same_tables s t \<and>
    fds t = fold (\<lambda>i l. if i \<in> opened (world s) then l[i := int i] else l) is (fds s)) s"
proof (induction "is" arbitrary: s)
  case Nil
  then show ?case by (simp add: wp_simps same_tables_def)
next
  case (Cons i "is")
  have i: "i < MAX_FDS" and is': "\<forall>i \<in> set is. i < MAX_FDS" using Cons.prems by auto
  show ?case unfolding inherit_loop.simps
  proof (rule wp_bindI [OF query_exact [OF k]])
    fix r :: "int option" and t
    assume t: "opened (world t) = opened (world s) \<and> fds t = fds s \<and> same_tables s t \<and>
      (if i \<in> opened (world s) then \<exists>f \<ge> 0. r = Some f else r = Some (-1) \<and> errno t = EBADF)"
    have next_i: "wp (inherit_loop (Suc fuel) os is) (\<lambda>r u. r = Some 0 \<and>
        opened (world u) = opened (world s) \<and> same_tables s u \<and>
        fds u = fold (\<lambda>i l. if i \<in> opened (world s) then l[i := int i] else l) is (fds v)) v"
      if "opened (world v) = opened (world s)" "same_tables s v" for v
      by (rule wp_mono [OF Cons.IH [OF is', of v]]) (use that in \<open>auto simp: same_tables_def\<close>)
    show "wp (case r of None \<Rightarrow> State_Monad.return None
         | Some f \<Rightarrow> if 0 \<le> f then do { set_fd i (int i); inherit_loop (Suc fuel) os is }
             else do { e \<leftarrow> gets errno; if e \<noteq> EBADF then State_Monad.return (Some (- 1))
                       else inherit_loop (Suc fuel) os is })
        (\<lambda>r u. r = Some 0 \<and> opened (world u) = opened (world s) \<and> same_tables s u \<and>
           fds u = fold (\<lambda>i l. if i \<in> opened (world s) then l[i := int i] else l) (i # is) (fds s)) t"
    proof (cases "i \<in> opened (world s)")
      case True
      then obtain f where "r = Some f" "0 \<le> f" using t by auto
      then show ?thesis
        using next_i [of "t\<lparr>fds := (fds t)[i := int i]\<rparr>"] t i True
        by (simp add: wp_simps set_fd_def same_tables_def)
    next
      case False
      then show ?thesis using next_i [of t] t by (auto simp: wp_simps)
    qed
  qed
qed

lemma fold_marks:
  "length (fold (\<lambda>i l. if P i then l[i := f i] else l) is l) = length l"
  "j < length l \<Longrightarrow> fold (\<lambda>i l. if P i then l[i := f i] else l) is l ! j = (if j \<in> set is \<and> P j then f j else l ! j)"
proof (induction "is" arbitrary: l)
  case (Cons a "is")
  { case 1 show ?case using Cons.IH(1) by simp }
  { case 2 then show ?case using Cons.IH(2) by (cases "a = j") auto }
qed simp_all

lemma inherit_exact:
  assumes k: "fd_kernel os opened" and f: "0 < fuel"
  shows "wp (inherit_descriptors fuel os) (\<lambda>r t. r = Some 0 \<and> errno t = errno s \<and> same_tables s t \<and>
    opened (world t) = opened (world s) \<and>
    fds t = map (\<lambda>i. if i \<in> opened (world s) then int i else -1) [0..<MAX_FDS]) s"
proof -
  obtain n where n: "fuel = Suc n" using f gr0_implies_Suc by blast
  have table: "fold (\<lambda>i l. if i \<in> ds then l[i := int i] else l) [0..<MAX_FDS] (replicate MAX_FDS (-1)) =
      map (\<lambda>i. if i \<in> ds then int i else -1) [0..<MAX_FDS]" for ds
    by (rule nth_equalityI) (simp_all add: fold_marks)
  have "wp (inherit_loop fuel os [0..<MAX_FDS]) (\<lambda>r t. r = Some 0 \<and>
      opened (world t) = opened (world s) \<and> same_tables s t \<and>
      fds t = map (\<lambda>i. if i \<in> opened (world s) then int i else -1) [0..<MAX_FDS])
      (s\<lparr>fds := replicate MAX_FDS (-1)\<rparr>)"
    unfolding n by (rule wp_mono [OF inherit_loop_exact [OF k]]) (auto simp: table same_tables_def)
  then show ?thesis
    unfolding inherit_descriptors_def clear_descriptors_def wp_bind wp_gets wp_update
    by (rule wp_mono) (auto simp: wp_simps same_tables_def)
qed

text \<open>
  C26. The guest starts with exactly the descriptors of the process that launched the loader: on
  Linux's descriptor semantics \<^verbatim>\<open>inherit_descriptors\<close> succeeds, a slot is open under its own number
  if and only if the descriptor was open, and the loader's tables satisfy the invariant on which the
  confinement of every later request rests.
\<close>
theorem inherit_establishes:
  assumes "fd_kernel os opened" "0 < fuel" "run_state (inherit_descriptors fuel os) (initial_host w) = (rc, t)"
  shows "rc = Some 0 \<and> host_inv t \<and> (\<forall>i < MAX_FDS. fds t ! i = (if i \<in> opened w then int i else -1))"
  using wp_run [OF inherit_exact [OF assms(1,2)] assms(3)]
  by (auto simp: host_inv_def same_tables_def initial_host_def)

subsection \<open>Reserving and releasing leaves the guest's descriptors alone\<close>

lemma release_slots_closes:
  assumes k: "fd_kernel os opened"
  shows "wp (release_slots os marks is) (\<lambda>_ t. opened (world t) = opened (world s) - {i \<in> set is. marks ! i}) s"
proof (induction "is" arbitrary: s)
  case Nil
  then show ?case by (simp add: wp_simps)
next
  case (Cons i "is")
  obtain cr cw where c: "os (Call ''close'' [New (int i)]) (world s) = (cr, cw)" by fastforce
  show ?case unfolding release_slots.simps
  proof (rule wp_bindI)
    show "wp (if marks ! i then do { _ \<leftarrow> call os ''close'' [New (int i)]; State_Monad.return () }
        else State_Monad.return ()) (\<lambda>_ t. opened (world t) = opened (world s) - (if marks ! i then {i} else {})) s"
      using fd_kernelD(7) [OF k, of i "world s"] c by (simp add: wp_simps)
    fix t :: "'a host" assume "opened (world t) = opened (world s) - (if marks ! i then {i} else {})"
    then show "wp (release_slots os marks is) (\<lambda>_ u. opened (world u) = opened (world s) - {j \<in> set (i # is). marks ! j}) t"
      by - (rule wp_mono [OF Cons.IH], auto)
  qed
qed

lemma release_closes:
  assumes k: "fd_kernel os opened"
  shows "wp (release_descriptor_slots os r) (\<lambda>_ t. opened (world t) = opened (world s) - {i. i < MAX_FDS \<and> slots r ! i}) s"
proof -
  have eq: "{i \<in> set [0..<MAX_FDS]. slots r ! i} = {i. i < MAX_FDS \<and> slots r ! i}" by auto
  show ?thesis
    unfolding release_descriptor_slots_def wp_bind wp_gets
    by (rule wp_mono [OF release_slots_closes [OF k]])
      (simp add: wp_simps wp_calli Let_def fd_kernelD(9) [OF k] eq)
qed

definition marked :: "int \<Rightarrow> nat set \<Rightarrow> nat list \<Rightarrow> nat set \<Rightarrow> bool list \<Rightarrow> bool \<Rightarrow> bool list \<Rightarrow> nat set \<Rightarrow> bool" where
  "marked p before is N marks ok marks' after \<longleftrightarrow>
     length marks' = length marks \<and> N \<subseteq> set is - before \<and>
     (\<forall>j < length marks. marks' ! j = (marks ! j \<or> j \<in> N)) \<and>
     (if ok then N = set is - before \<and> after = before \<union> N
      else after = (before \<union> N) - (if p \<ge> int MAX_FDS then {nat p} else {}))"

lemma reserve_loop_marks:
  assumes k: "fd_kernel os opened"
  shows "\<forall>i \<in> set is. i < length marks \<Longrightarrow> wp (reserve_loop os p marks is)
    (\<lambda>r t. \<exists>N. marked p (opened (world s)) is N marks (fst r) (snd r) (opened (world t))) s"
proof (induction "is" arbitrary: s marks)
  case Nil
  then show ?case by (auto simp: wp_simps marked_def)
next
  case (Cons i "is")
  have i: "i < length marks" and is': "\<forall>i \<in> set is. i < length marks" using Cons.prems by auto
  let ?rw = "os (Call ''fcntl'' [Fd (int i), Num F_GETFD]) (world s)"
  show ?case
  proof (cases "i \<in> opened (world s)")
    case True
    have "marked p (opened (world s)) is N marks ok m' a \<Longrightarrow> marked p (opened (world s)) (i # is) N marks ok m' a"
      for N ok m' a using True by (auto simp: marked_def split: if_splits)
    then have "wp (reserve_loop os p marks is) (\<lambda>r t. \<exists>N. marked p (opened (world s)) (i # is) N marks (fst r) (snd r) (opened (world t))) u"
      if "opened (world u) = opened (world s)" for u
      by (intro wp_mono [OF Cons.IH [OF is']]) (metis that)
    then show ?thesis
      using True fd_kernelD(1,2) [OF k, of i "world s"] by (simp add: wp_simps wp_calli Let_def)
  next
    case False
    let ?dup = "os (Call ''fcntl'' [New p, Num F_DUPFD_CLOEXEC, Num (int i)]) (snd ?rw)"
    have dup: "ret (fst ?dup) < 0 \<and> opened (snd ?dup) = opened (world s) \<or>
        0 \<le> ret (fst ?dup) \<and> opened (snd ?dup) = insert i (opened (world s))"
      using fd_kernelD(6) [OF k, of i "snd ?rw" p] fd_kernelD(1) [OF k, of i "world s"] False
      unfolding opens_def lowest_free_def by force
    have more: "marked p (insert i (opened (world s))) is N (marks[i := True]) ok m' a \<Longrightarrow>
        marked p (opened (world s)) (i # is) (insert i N) marks ok m' a" for N ok m' a
      using False i by (auto simp: marked_def nth_list_update split: if_splits)
    have fail: "marked p (opened (world s)) (i # is) {} marks False marks (opened (world s) - (if p \<ge> int MAX_FDS then {nat p} else {}))"
      by (simp add: marked_def)
    have "wp (reserve_loop os p (marks[i := True]) is) (\<lambda>r t. \<exists>N. marked p (opened (world s)) (i # is) N marks (fst r) (snd r) (opened (world t))) u"
      if "opened (world u) = insert i (opened (world s))" for u
      using is' by (intro wp_mono [OF Cons.IH]) (simp, metis more that)
    note step = this
    have close: "opened (snd (os (Call ''close'' [New p]) w)) = opened w - {nat p}" if "p \<ge> int MAX_FDS" for w
      using fd_kernelD(7) [OF k, of "nat p" w] that by simp
    from dup show ?thesis
    proof
      assume neg: "ret (fst ?dup) < 0 \<and> opened (snd ?dup) = opened (world s)"
      obtain cr cw where c: "os (Call ''close'' [New p]) (snd ?dup) = (cr, cw)" by fastforce
      show ?thesis
      proof (cases "p \<ge> int MAX_FDS")
        case True
        then have "opened cw = opened (world s) - {nat p}" using close [of "snd ?dup"] c neg by simp
        then show ?thesis
          using True neg False fail fd_kernelD(3,4) [OF k, of i "world s"]
          by (simp add: wp_simps wp_calli Let_def c) blast
      next
        case le: False
        then show ?thesis
          using neg False fail fd_kernelD(3,4) [OF k, of i "world s"]
          by (simp add: wp_simps wp_calli Let_def) blast
      qed
    next
      assume "0 \<le> ret (fst ?dup) \<and> opened (snd ?dup) = insert i (opened (world s))"
      then show ?thesis
        using False step fd_kernelD(3,4) [OF k, of i "world s"]
        by (simp add: wp_simps wp_calli Let_def)
    qed
  qed
qed

text \<open>What a reservation attempt leaves behind.\<close>

definition reserved_or_restored :: "nat set \<Rightarrow> int \<Rightarrow> descriptor_reservation \<Rightarrow> nat set \<Rightarrow> bool" where
  "reserved_or_restored before rc r after \<longleftrightarrow>
     (if rc = 0 then after = before \<union> {0..<MAX_FDS} \<and> {i. i < MAX_FDS \<and> slots r ! i} = {0..<MAX_FDS} - before
      else after = before)"

lemma reservation_failed_restores:
  assumes "fd_kernel os opened" "opened (world s) - {i. i < MAX_FDS \<and> slots r ! i} = before"
  shows "wp (reservation_failed os r) (\<lambda>x t. reserved_or_restored before (fst x) (snd x) (opened (world t))) s"
  unfolding reservation_failed_def wp_bind
  by (rule wp_mono [OF release_closes [OF assms(1)]]) (simp add: wp_return reserved_or_restored_def assms(2))

lemma fill_slots_reserves:
  assumes k: "fd_kernel os opened" and r: "slots r = replicate MAX_FDS False"
  shows "wp (fill_slots os r) (\<lambda>x t. reserved_or_restored (opened (world s)) (fst x) (snd x) (opened (world t))) s"
proof -
  let ?before = "opened (world s)"
  obtain m w where mw: "os (Call ''memfd_create'' [Str ''lashos-fd-slots'', Num 1]) (world s) = (m, w)" by fastforce
  have open1: "ret m < 0 \<and> opened w = ?before \<or>
      (\<exists>d. ret m = int d \<and> d \<notin> ?before \<and> opened w = insert d ?before)"
    using fd_kernelD(5) [OF k, of "world s" "''lashos-fd-slots''" 1] mw
    unfolding opens_def lowest_free_def by auto
  have unmarked: "{i. i < MAX_FDS \<and> slots r ! i} = {}" using r by auto
  show ?thesis
  proof (cases "ret m < 0")
    case True
    then show ?thesis
      using open1 mw unmarked
      by (simp add: fill_slots_def wp_bind wp_calli Let_def)
        (intro conjI impI reservation_failed_restores [OF k], auto)
  next
    case False
    then obtain d where d: "ret m = int d" "d \<notin> ?before" "opened w = insert d ?before" using open1 by auto
    let ?marks = "if d < MAX_FDS then (slots r)[d := True] else slots r"
    have marks: "length ?marks = MAX_FDS" "j < MAX_FDS \<Longrightarrow> ?marks ! j \<longleftrightarrow> j = d" for j
      using r by (auto simp: nth_list_update)
    have after: "reserved_or_restored ?before 0 (r\<lparr>slots := m'\<rparr>) (a - (if d < MAX_FDS then {} else {d}))"
      if "marked (int d) (insert d ?before) [0..<MAX_FDS] N ?marks True m' a" for N m' a
      using that marks d(2) unfolding marked_def reserved_or_restored_def by (auto split: if_splits)
    have undone: "a - {i. i < MAX_FDS \<and> m' ! i} = ?before"
      if "marked (int d) (insert d ?before) [0..<MAX_FDS] N ?marks False m' a" for N m' a
      using that marks d(2) unfolding marked_def by (auto split: if_splits)
    have close: "opened (snd (os (Call ''close'' [New (int d)]) u)) = opened u - {d}" for u
      by (rule fd_kernelD(7) [OF k])
    let ?rest = "\<lambda>x. if fst x then do {
          (if int d \<ge> int MAX_FDS then do { _ \<leftarrow> call os ''close'' [New (int d)]; State_Monad.return () }
           else State_Monad.return ());
          State_Monad.return (0, r\<lparr>slots := snd x\<rparr>)
        } else reservation_failed os (r\<lparr>slots := snd x\<rparr>)"
    have "wp (do { x \<leftarrow> reserve_loop os (int d) ?marks [0..<MAX_FDS]; ?rest x })
        (\<lambda>x t. reserved_or_restored ?before (fst x) (snd x) (opened (world t))) u"
      if u: "opened (world u) = insert d ?before" for u
    proof (rule wp_bindI [OF reserve_loop_marks [OF k]])
      show "\<forall>i \<in> set [0..<MAX_FDS]. i < length ?marks" using marks(1) by simp
      fix x and t :: "'a host"
      assume "\<exists>N. marked (int d) (opened (world u)) [0..<MAX_FDS] N ?marks (fst x) (snd x) (opened (world t))"
      then obtain N where N: "marked (int d) (insert d ?before) [0..<MAX_FDS] N ?marks (fst x) (snd x) (opened (world t))"
        using u by auto
      obtain cr cw where c: "os (Call ''close'' [New (int d)]) (world t) = (cr, cw)" by fastforce
      show "wp (?rest x) (\<lambda>x t. reserved_or_restored ?before (fst x) (snd x) (opened (world t))) t"
      proof (cases "fst x")
        case True
        then show ?thesis using after [of N "snd x" "opened (world t)"] N c close [of "world t"]
          by (auto simp: wp_simps split: if_splits)
      next
        case False
        then show ?thesis using undone [of N "snd x" "opened (world t)"] N
          by (simp add: reservation_failed_restores [OF k])
      qed
    qed
    note tail = this
    show ?thesis unfolding fill_slots_def
    proof (rule wp_bindI [where P = "\<lambda>p u. p = int d \<and> opened (world u) = insert d ?before"])
      fix p and u :: "'a host" assume u: "p = int d \<and> opened (world u) = insert d ?before"
      then show "wp (if p < 0 then reservation_failed os r else do {
          let marks = (if p < int MAX_FDS then (slots r)[nat p := True] else slots r);
          x \<leftarrow> reserve_loop os p marks [0..<MAX_FDS];
          let reserved = r\<lparr>slots := snd x\<rparr>;
          if fst x then do {
            (if p \<ge> int MAX_FDS then do { _ \<leftarrow> call os ''close'' [New p]; State_Monad.return () }
             else State_Monad.return ());
            State_Monad.return (0, reserved)
          } else reservation_failed os reserved })
        (\<lambda>x t. reserved_or_restored ?before (fst x) (snd x) (opened (world t))) u"
        using tail [of u] by (simp add: Let_def cong: if_cong)
    qed (simp add: wp_calli mw d)
  qed
qed

lemma reserve_reserves:
  assumes k: "fd_kernel os opened"
  shows "wp (reserve_descriptor_slots os) (\<lambda>x t. reserved_or_restored (opened (world s)) (fst x) (snd x) (opened (world t))) s"
proof -
  obtain g w where gw: "os (Call ''getrlimit'' [Num RLIMIT_NOFILE]) (world s) = (g, w)" by fastforce
  then have w: "opened w = opened (world s)" using fd_kernelD(8) [OF k, of "[Num RLIMIT_NOFILE]" "world s"] by simp
  have set: "opened (snd (os (Call ''setrlimit'' args) w)) = opened (world s)" for args
    using fd_kernelD(9) [OF k, of args w] w by simp
  have fill: "wp (fill_slots os r) (\<lambda>x t. reserved_or_restored (opened (world s)) (fst x) (snd x) (opened (world t))) u"
    if "slots r = replicate MAX_FDS False" "opened (world u) = opened (world s)" for r u
    using fill_slots_reserves [OF k that(1), of u] that(2) by simp
  show ?thesis
    unfolding reserve_descriptor_slots_def Let_def
    by (simp add: wp_simps wp_calli Let_def gw)
      (intro conjI impI fill; simp add: w set reserved_or_restored_def)
qed

text \<open>
  C27. Reserving the guest's slots never costs the guest a descriptor. If
  \<^verbatim>\<open>reserve_descriptor_slots\<close> fails, the process has the open descriptors it had before. If it
  succeeds, every number of the guest range is taken, so that whatever the loader opens next (\<open>private\<close>)
  lies above it, and \<^verbatim>\<open>release_descriptor_slots\<close> then leaves the original descriptors and the private
  ones.
\<close>
theorem reserved_slots_restored:
  assumes "fd_kernel os opened" "run_state (reserve_descriptor_slots os) s = ((rc, r), t)"
  shows "if rc = 0
    then {0..<MAX_FDS} \<subseteq> opened (world t) \<and>
      (\<forall>u private. opened (world u) = opened (world t) \<union> private \<longrightarrow> private \<inter> {0..<MAX_FDS} = {} \<longrightarrow>
         opened (world (snd (run_state (release_descriptor_slots os r) u))) = opened (world s) \<union> private)
    else opened (world t) = opened (world s)"
proof -
  have "reserved_or_restored (opened (world s)) rc r (opened (world t))"
    using wp_run [OF reserve_reserves [OF assms(1)] assms(2)] by simp
  moreover have "opened (world (snd (run_state (release_descriptor_slots os r) u))) =
      opened (world u) - {i. i < MAX_FDS \<and> slots r ! i}" for u
    using release_closes [OF assms(1), of r u] by (simp add: wp_def split: prod.splits)
  ultimately show ?thesis unfolding reserved_or_restored_def by auto
qed

subsection \<open>A descriptor table\<close>

text \<open>A kernel that keeps a list of open descriptors, for evaluating the two properties.\<close>

definition first_free :: "nat list \<Rightarrow> nat \<Rightarrow> nat" where
  "first_free ds m = hd (filter (\<lambda>d. d \<notin> set ds) [m..<m + Suc (length ds)])"

definition table_os :: "nat list machine os" where
  "table_os c w =
     (let ds = kern w;
          ok = (\<lambda>r. \<lparr>ret = r, err = 0, nums = [1024, 1024], payload = []\<rparr>);
          new = (\<lambda>m. let d = first_free ds m in (ok (int d), w\<lparr>kern := d # ds\<rparr>)) in
      case c of Call nm args \<Rightarrow>
        if nm = ''close'' then
          (case args of [New d] \<Rightarrow> (ok 0, w\<lparr>kern := filter (\<lambda>e. int e \<noteq> d) ds\<rparr>) | _ \<Rightarrow> (ok 0, w))
        else if nm = ''memfd_create'' then new 0
        else if nm = ''fcntl'' then
          (case args of
             [New p, Num cmd, Num i] \<Rightarrow> new (nat i)
           | [Fd d, Num cmd] \<Rightarrow> (if 0 \<le> d \<and> nat d \<in> set ds then ok 0 else (ok (-1))\<lparr>err := EBADF\<rparr>, w)
           | _ \<Rightarrow> (ok 0, w))
        else (ok 0, w))"

lemma first_free_lowest: "lowest_free (set ds) m (first_free ds m)"
proof -
  let ?xs = "filter (\<lambda>d. d \<notin> set ds) [m..<m + Suc (length ds)]"
  have "\<not> {m..<m + Suc (length ds)} \<subseteq> set ds"
  proof
    assume "{m..<m + Suc (length ds)} \<subseteq> set ds"
    then have "Suc (length ds) \<le> card (set ds)" by (metis List.finite_set card_atLeastLessThan card_mono diff_add_inverse)
    then show False using card_length [of ds] by simp
  qed
  then have "?xs \<noteq> []" by (auto simp: filter_empty_conv simp del: upt_Suc)
  moreover have "sorted ?xs" by (rule sorted_wrt_filter) (simp only: sorted_upt)
  ultimately have "\<forall>xs. xs = ?xs \<longrightarrow> hd xs \<in> set xs \<and> (\<forall>e \<in> set xs. hd xs \<le> e)"
    by (metis hd_in_set le_refl list.sel(1) list.set_cases set_ConsD sorted_simps(2))
  then have "hd ?xs \<in> set ?xs" "\<And>e. e \<in> set ?xs \<Longrightarrow> hd ?xs \<le> e" by blast+
  then show ?thesis unfolding lowest_free_def first_free_def by force
qed

lemma table_kernel: "fd_kernel table_os (\<lambda>w. set (kern w))"
proof -
  have "int d \<noteq> int e \<longleftrightarrow> d \<noteq> e" for d e by simp
  then show ?thesis
    using first_free_lowest
    by (auto simp: fd_kernel_def opens_def table_os_def Let_def)
qed

definition table_machine :: "nat list \<Rightarrow> nat list machine" where
  "table_machine ds = \<lparr>gmem = \<lambda>_. 0, recorded = {}, io_active = False, io_interrupted = False, kern = ds\<rparr>"

theorem inherit_establishes_witness:
  "let x = run_state (inherit_descriptors 1 table_os) (initial_host (table_machine [0, 1, 2, 300]))
   in fst x = Some 0 \<and> host_inv (snd x) \<and> fds (snd x) ! 2 = 2 \<and> fds (snd x) ! 3 = -1"
proof -
  let ?x = "run_state (inherit_descriptors 1 table_os) (initial_host (table_machine [0, 1, 2, 300]))"
  have "fst ?x = Some 0 \<and> host_inv (snd ?x) \<and>
      (\<forall>i < MAX_FDS. fds (snd ?x) ! i = (if i \<in> set (kern (table_machine [0, 1, 2, 300])) then int i else -1))"
    by (rule inherit_establishes [OF table_kernel _ surjective_pairing]) simp
  then show ?thesis by (simp add: Let_def MAX_FDS_def table_machine_def)
qed

theorem reserved_slots_restored_witness:
  "let x = run_state (reserve_descriptor_slots table_os) (initial_host (table_machine [0, 1, 2, 300]))
   in if fst (fst x) = 0
      then {0..<MAX_FDS} \<subseteq> set (kern (world (snd x))) \<and>
        set (kern (world (snd (run_state (release_descriptor_slots table_os (snd (fst x))) (snd x))))) = {0, 1, 2, 300}
      else set (kern (world (snd x))) = {0, 1, 2, 300}"
proof -
  have "set (kern (world (initial_host (table_machine [0, 1, 2, 300])))) = {0, 1, 2, 300}"
    by (simp add: initial_host_def table_machine_def)
  then show ?thesis
    using reserved_slots_restored [OF table_kernel, of "initial_host (table_machine [0, 1, 2, 300])"]
    by (simp only: Let_def) (metis prod.collapse sup_bot_right inf_bot_left)
qed

end
