(* ===== verification/Signal_Io.thy ===== *)
theory Signal_Io
  imports Prelude
begin

text \<open>
  The interruptible system call of \<^verbatim>\<open>src/src/signal_io.h\<close>, instruction by instruction: the three
  assembly routines, the handler that moves an interrupted program counter
  (\<^verbatim>\<open>interrupt_signal_io\<close>), and a machine in which a signal may be delivered between any two
  instructions. A blocked call that the kernel rewinds for a restart is at its \<^verbatim>\<open>syscall\<close>
  instruction again when the handler runs, so it is a signal delivered there.
\<close>

subsection \<open>Routines\<close>

text \<open>
  \<open>LoadFlag\<close> reads \<^verbatim>\<open>signal_io_interrupted\<close> into a register (into the condition flags on
  x86-64); \<open>BranchSet\<close> jumps when that register is not zero.
\<close>

datatype instruction =
    Move string string
  | LoadFlag string
  | BranchSet string nat
  | Syscall
  | LoadImm string int
  | Return

definition signal_io_begin :: nat where "signal_io_begin = 4"
definition signal_io_end :: nat where "signal_io_end = 7"
definition signal_io_cancel :: nat where "signal_io_cancel = 8"

definition x86_64_routine :: "instruction list" where
  "x86_64_routine =
     [Move ''rax'' ''rdi'', Move ''rdi'' ''rsi'', Move ''rsi'' ''rdx'', Move ''rdx'' ''rcx'',
      LoadFlag ''flags'', BranchSet ''flags'' signal_io_cancel, Syscall,
      Return,
      LoadImm ''rax'' (-4), Return]"

definition aarch64_routine :: "instruction list" where
  "aarch64_routine =
     [Move ''x8'' ''x0'', Move ''x0'' ''x1'', Move ''x1'' ''x2'', Move ''x2'' ''x3'',
      LoadFlag ''w9'', BranchSet ''w9'' signal_io_cancel, Syscall,
      Return,
      LoadImm ''x0'' (-4), Return]"

definition riscv64_routine :: "instruction list" where
  "riscv64_routine =
     [Move ''a7'' ''a0'', Move ''a0'' ''a1'', Move ''a1'' ''a2'', Move ''a2'' ''a3'',
      LoadFlag ''t0'', BranchSet ''t0'' signal_io_cancel, Syscall,
      Return,
      LoadImm ''a0'' (-4), Return]"

subsection \<open>The machine\<close>

text \<open>
  \<open>transfers\<close> lists the system calls made, with the register values they were made with and their
  results; \<open>early\<close> records that a signal was delivered before a call had completed.
\<close>

record cpu =
  regs :: "string \<Rightarrow> int"
  pc :: nat
  io_flag :: bool
  active :: bool
  transfers :: "(int list \<times> int) list"
  early :: bool
  returned :: bool

definition interrupt_signal_io :: "cpu \<Rightarrow> cpu" where
  "interrupt_signal_io s =
     (if \<not> active s then s
      else if pc s < signal_io_begin \<or> pc s \<ge> signal_io_end then s\<lparr>io_flag := True\<rparr>
      else s\<lparr>io_flag := True, pc := signal_io_cancel\<rparr>)"

text \<open>
  A platform is its routine, the register that holds the call's number, those that hold the call's
  arguments and the one that holds results.
\<close>

record platform =
  routine :: "instruction list"
  number_reg :: string
  argument_regs :: "string list"
  result_reg :: string

text \<open>One instruction; \<open>result\<close> is what the kernel returns if it is the call.\<close>

definition execute :: "platform \<Rightarrow> int \<Rightarrow> cpu \<Rightarrow> cpu" where
  "execute p result s =
     (case routine p ! pc s of
        Move d r \<Rightarrow> s\<lparr>regs := (regs s)(d := regs s r), pc := pc s + 1\<rparr>
      | LoadFlag d \<Rightarrow> s\<lparr>regs := (regs s)(d := (if io_flag s then 1 else 0)), pc := pc s + 1\<rparr>
      | BranchSet r target \<Rightarrow> s\<lparr>pc := (if regs s r \<noteq> 0 then target else pc s + 1)\<rparr>
      | Syscall \<Rightarrow> s\<lparr>regs := (regs s)(result_reg p := result), pc := pc s + 1,
          transfers := transfers s @ [(map (regs s) (number_reg p # argument_regs p), result)]\<rparr>
      | LoadImm d v \<Rightarrow> s\<lparr>regs := (regs s)(d := v), pc := pc s + 1\<rparr>
      | Return \<Rightarrow> s\<lparr>returned := True\<rparr>)"

definition delivered :: "cpu \<Rightarrow> cpu" where
  "delivered s = interrupt_signal_io (s\<lparr>early := (early s \<or> transfers s = [])\<rparr>)"

inductive io_step :: "platform \<Rightarrow> cpu \<Rightarrow> cpu \<Rightarrow> bool" for p where
  instruction: "\<not> returned s \<Longrightarrow> io_step p s (execute p result s)"
| signal: "\<not> returned s \<Longrightarrow> io_step p s (delivered s)"

text \<open>An execution with the number of its instructions.\<close>

inductive io_run :: "platform \<Rightarrow> cpu \<Rightarrow> nat \<Rightarrow> cpu \<Rightarrow> bool" for p where
  start: "io_run p s 0 s"
| instruction: "io_run p s n t \<Longrightarrow> \<not> returned t \<Longrightarrow> io_run p s (Suc n) (execute p result t)"
| signal: "io_run p s n t \<Longrightarrow> \<not> returned t \<Longrightarrow> io_run p s n (delivered t)"

text \<open>
  The routine is entered with the call's number and arguments in the registers of a C call, after
  \<^verbatim>\<open>interruptible_transfer\<close> has cleared \<^verbatim>\<open>signal_io_interrupted\<close> and set
  \<^verbatim>\<open>signal_io_active\<close>.
\<close>

definition entered :: "(string \<Rightarrow> int) \<Rightarrow> cpu" where
  "entered rs = \<lparr>regs = rs, pc = 0, io_flag = False, active = True, transfers = [], early = False,
     returned = False\<rparr>"

definition x86_64 :: platform where
  "x86_64 = \<lparr>routine = x86_64_routine, number_reg = ''rax'', argument_regs = [''rdi'', ''rsi'', ''rdx''],
     result_reg = ''rax''\<rparr>"

definition aarch64 :: platform where
  "aarch64 = \<lparr>routine = aarch64_routine, number_reg = ''x8'', argument_regs = [''x0'', ''x1'', ''x2''],
     result_reg = ''x0''\<rparr>"

definition riscv64 :: platform where
  "riscv64 = \<lparr>routine = riscv64_routine, number_reg = ''a7'', argument_regs = [''a0'', ''a1'', ''a2''],
     result_reg = ''a0''\<rparr>"

subsection \<open>The contract of a routine\<close>

text \<open>
  The three routines have one shape: shift the four C arguments down into the registers of the kernel's
  convention, test the flag, make the call.
\<close>

locale io_routine =
  fixes p :: platform and c0 c1 c2 c3 flag :: string
  assumes shape: "routine p = [Move (number_reg p) c0, Move c0 c1, Move c1 c2, Move c2 c3,
      LoadFlag flag, BranchSet flag signal_io_cancel, Syscall, Return, LoadImm (result_reg p) (-4), Return]"
    and arguments: "argument_regs p = [c0, c1, c2]"
    and separate: "distinct [number_reg p, c0, c1, c2, c3, flag]"
begin

definition shifted :: "(string \<Rightarrow> int) \<Rightarrow> nat \<Rightarrow> (string \<Rightarrow> int) \<Rightarrow> bool" where
  "shifted rs n r \<longleftrightarrow>
     (if n = 0 then r c0 = rs c0 else r (number_reg p) = rs c0) \<and>
     (n \<le> 1 \<longrightarrow> r c1 = rs c1) \<and> (n \<le> 2 \<longrightarrow> r c2 = rs c2) \<and> (n \<le> 3 \<longrightarrow> r c3 = rs c3) \<and>
     (n \<ge> 2 \<longrightarrow> r c0 = rs c1) \<and> (n \<ge> 3 \<longrightarrow> r c1 = rs c2) \<and> (n \<ge> 4 \<longrightarrow> r c2 = rs c3)"

text \<open>
  The invariant: before the call the arguments are being shifted; a signal that came before the call's
  end is either seen by the test still to come or has moved the program counter; after the call its
  result is kept.
\<close>

definition io_inv :: "(string \<Rightarrow> int) \<Rightarrow> cpu \<Rightarrow> bool" where
  "io_inv rs s \<longleftrightarrow> active s \<and> pc s \<le> 9 \<and>
     (pc s \<le> 6 \<longrightarrow> shifted rs (min (pc s) 4) (regs s)) \<and>
     (pc s \<noteq> 7 \<longrightarrow> transfers s = []) \<and>
     (pc s \<le> 4 \<longrightarrow> (early s \<longleftrightarrow> io_flag s)) \<and>
     (pc s = 5 \<longrightarrow> (early s \<longleftrightarrow> regs s flag \<noteq> 0)) \<and>
     (pc s = 6 \<longrightarrow> \<not> early s) \<and>
     (pc s = 7 \<longrightarrow> \<not> early s \<and> transfers s = [([rs c0, rs c1, rs c2, rs c3], regs s (result_reg p))]) \<and>
     (pc s \<ge> 8 \<longrightarrow> early s) \<and> (pc s = 9 \<longrightarrow> regs s (result_reg p) = -4) \<and>
     (returned s \<longrightarrow> pc s = 7 \<or> pc s = 9)"

lemma io_inv_entered: "io_inv rs (entered rs)"
  by (simp add: io_inv_def entered_def shifted_def)

lemma io_inv_delivered: "io_inv rs s \<Longrightarrow> \<not> returned s \<Longrightarrow> io_inv rs (delivered s)"
  unfolding io_inv_def delivered_def interrupt_signal_io_def signal_io_begin_def signal_io_end_def signal_io_cancel_def
  by auto

lemma fetch:
  "routine p ! 0 = Move (number_reg p) c0" "routine p ! 1 = Move c0 c1" "routine p ! 2 = Move c1 c2"
  "routine p ! 3 = Move c2 c3" "routine p ! 4 = LoadFlag flag" "routine p ! 5 = BranchSet flag 8"
  "routine p ! 6 = Syscall" "routine p ! 7 = Return" "routine p ! 8 = LoadImm (result_reg p) (-4)"
  "routine p ! 9 = Return"
  by (simp_all add: shape signal_io_cancel_def)

lemma distinct_regs:
  "number_reg p \<noteq> c0" "number_reg p \<noteq> c1" "number_reg p \<noteq> c2" "number_reg p \<noteq> c3" "number_reg p \<noteq> flag"
  "c0 \<noteq> c1" "c0 \<noteq> c2" "c0 \<noteq> c3" "c0 \<noteq> flag" "c1 \<noteq> c2" "c1 \<noteq> c3" "c1 \<noteq> flag" "c2 \<noteq> c3" "c2 \<noteq> flag" "c3 \<noteq> flag"
  using separate by auto

lemma io_inv_execute:
  assumes "io_inv rs s" "\<not> returned s"
  shows "io_inv rs (execute p result s)"
proof -
  have "pc s \<le> 9" using assms(1) by (simp add: io_inv_def)
  then consider "pc s = 0" | "pc s = 1" | "pc s = 2" | "pc s = 3" | "pc s = 4" | "pc s = 5" | "pc s = 6" |
      "pc s = 7" | "pc s = 8" | "pc s = 9"
    by atomize_elim presburger
  then show ?thesis
    using assms distinct_regs distinct_regs [symmetric]
    by cases (simp_all add: execute_def fetch [simplified] io_inv_def shifted_def arguments)
qed

lemma io_inv_reached: "(io_step p)\<^sup>*\<^sup>* (entered rs) s \<Longrightarrow> io_inv rs s"
  by (induction rule: rtranclp_induct)
    (auto simp: io_inv_entered elim!: io_step.cases intro: io_inv_execute io_inv_delivered)

lemma io_returned:
  assumes "(io_step p)\<^sup>*\<^sup>* (entered rs) s" "returned s"
  shows "if early s then transfers s = [] \<and> regs s (result_reg p) = -4
    else transfers s = [([rs c0, rs c1, rs c2, rs c3], regs s (result_reg p))]"
  using io_inv_reached [OF assms(1)] assms(2) by (auto simp: io_inv_def)

text \<open>
  The instructions still to be executed: an instruction makes it smaller and a signal never makes it
  larger, so that no sequence of signals keeps the routine from returning.
\<close>

definition remaining :: "cpu \<Rightarrow> nat" where
  "remaining s = (if returned s then 0 else if pc s \<le> 7 then 8 - pc s else 10 - pc s)"

lemma remaining_execute: "io_inv rs s \<Longrightarrow> \<not> returned s \<Longrightarrow> remaining (execute p result s) < remaining s"
proof -
  assume inv: "io_inv rs s" "\<not> returned s"
  then have "pc s \<le> 9" by (simp add: io_inv_def)
  then consider "pc s = 0" | "pc s = 1" | "pc s = 2" | "pc s = 3" | "pc s = 4" | "pc s = 5" | "pc s = 6" |
      "pc s = 7" | "pc s = 8" | "pc s = 9"
    by atomize_elim presburger
  then show ?thesis
    using inv(2) by cases (simp_all add: execute_def fetch [simplified] remaining_def)
qed

lemma remaining_delivered: "io_inv rs s \<Longrightarrow> remaining (delivered s) \<le> remaining s"
  unfolding remaining_def delivered_def interrupt_signal_io_def signal_io_begin_def signal_io_end_def
    signal_io_cancel_def by auto

lemma io_run_inv: "io_run p (entered rs) n s \<Longrightarrow> io_inv rs s \<and> n + remaining s \<le> 8"
proof (induction "entered rs" n s rule: io_run.induct)
  case start
  then show ?case using io_inv_entered by (simp add: remaining_def entered_def)
next
  case (instruction n t result)
  then show ?case using io_inv_execute [of rs t result] remaining_execute [of rs t result] by simp
next
  case (signal n t)
  then show ?case using io_inv_delivered [of rs t] remaining_delivered [of rs t] by simp
qed

lemma io_run_bounded: "io_run p (entered rs) n s \<Longrightarrow> n \<le> 8 \<and> (n = 8 \<longrightarrow> returned s)"
  using io_run_inv [of rs n s] by (auto simp: remaining_def io_inv_def split: if_splits)

end

interpretation x86: io_routine x86_64 "''rdi''" "''rsi''" "''rdx''" "''rcx''" "''flags''"
  by unfold_locales (simp_all add: x86_64_def x86_64_routine_def)

interpretation arm: io_routine aarch64 "''x0''" "''x1''" "''x2''" "''x3''" "''w9''"
  by unfold_locales (simp_all add: aarch64_def aarch64_routine_def)

interpretation riscv: io_routine riscv64 "''a0''" "''a1''" "''a2''" "''a3''" "''t0''"
  by unfold_locales (simp_all add: riscv64_def riscv64_routine_def)

text \<open>The platforms with the registers of the routine's C arguments.\<close>

definition platforms :: "(platform \<times> string list) list" where
  "platforms = [(x86_64, [''rdi'', ''rsi'', ''rdx'', ''rcx'']), (aarch64, [''x0'', ''x1'', ''x2'', ''x3'']),
     (riscv64, [''a0'', ''a1'', ''a2'', ''a3''])]"

text \<open>
  C5. A signal is neither missed nor does it destroy data. On each of the three platforms, however
  signals fall between the instructions: if one was delivered before the call completed, no call was
  made and the result is \<^verbatim>\<open>-EINTR\<close>; otherwise exactly the requested call was made, once, and its
  result is returned even if signals came after it.
\<close>
theorem signal_io_exact:
  assumes "(p, cs) \<in> set platforms" "(io_step p)\<^sup>*\<^sup>* (entered rs) s" "returned s"
  shows "if early s then transfers s = [] \<and> regs s (result_reg p) = -4
    else transfers s = [(map rs cs, regs s (result_reg p))]"
  using assms x86.io_returned [of rs s] arm.io_returned [of rs s] riscv.io_returned [of rs s]
  by (auto simp: platforms_def)

text \<open>
  C31. The routine returns: on each platform it executes at most eight instructions, whatever signals
  are delivered, and after eight it has returned.
\<close>
theorem signal_io_terminates:
  assumes "(p, cs) \<in> set platforms" "io_run p (entered rs) n s"
  shows "n \<le> 8 \<and> (n = 8 \<longrightarrow> returned s)"
  using assms x86.io_run_bounded [of rs n s] arm.io_run_bounded [of rs n s] riscv.io_run_bounded [of rs n s]
  by (auto simp: platforms_def)

subsection \<open>An execution\<close>

text \<open>A call of 42 bytes with a signal delivered after it.\<close>

definition demo_regs :: "string \<Rightarrow> int" where
  "demo_regs = (\<lambda>_. 0)(''rdi'' := 1, ''rsi'' := 5, ''rdx'' := 4096, ''rcx'' := 42)"

lemma x86_execute:
  "pc s = 0 \<Longrightarrow> execute x86_64 r s = s\<lparr>regs := (regs s)(''rax'' := regs s ''rdi''), pc := 1\<rparr>"
  "pc s = 1 \<Longrightarrow> execute x86_64 r s = s\<lparr>regs := (regs s)(''rdi'' := regs s ''rsi''), pc := 2\<rparr>"
  "pc s = 2 \<Longrightarrow> execute x86_64 r s = s\<lparr>regs := (regs s)(''rsi'' := regs s ''rdx''), pc := 3\<rparr>"
  "pc s = 3 \<Longrightarrow> execute x86_64 r s = s\<lparr>regs := (regs s)(''rdx'' := regs s ''rcx''), pc := 4\<rparr>"
  "pc s = 4 \<Longrightarrow> execute x86_64 r s = s\<lparr>regs := (regs s)(''flags'' := (if io_flag s then 1 else 0)), pc := 5\<rparr>"
  "pc s = 5 \<Longrightarrow> execute x86_64 r s = s\<lparr>pc := (if regs s ''flags'' \<noteq> 0 then 8 else 6)\<rparr>"
  "pc s = 6 \<Longrightarrow> execute x86_64 r s = s\<lparr>regs := (regs s)(''rax'' := r), pc := 7,
     transfers := transfers s @ [(map (regs s) [''rax'', ''rdi'', ''rsi'', ''rdx''], r)]\<rparr>"
  "pc s = 7 \<Longrightarrow> execute x86_64 r s = s\<lparr>returned := True\<rparr>"
  by (simp_all add: execute_def x86_64_def x86_64_routine_def signal_io_cancel_def)

lemma io_run_reaches: "io_run p s n t \<Longrightarrow> (io_step p)\<^sup>*\<^sup>* s t"
  by (induction rule: io_run.induct) (auto intro: rtranclp.rtrancl_into_rtrancl io_step.intros)

definition late_signal :: cpu where
  "late_signal = (let step = execute x86_64 42 in
     step (delivered (step (step (step (step (step (step (step (entered demo_regs))))))))))"

lemmas late_signal_simps = late_signal_def Let_def x86_execute entered_def delivered_def
  interrupt_signal_io_def signal_io_begin_def signal_io_end_def

lemma late_signal_run: "io_run x86_64 (entered demo_regs) 8 late_signal"
proof -
  have "io_run x86_64 (entered demo_regs) (Suc (Suc (Suc (Suc (Suc (Suc (Suc (Suc 0)))))))) late_signal"
    unfolding late_signal_def Let_def by (intro io_run.intros) (simp_all add: late_signal_simps)
  then show ?thesis by (simp add: numeral_eq_Suc)
qed

theorem signal_io_exact_witness:
  "transfers late_signal = [([1, 5, 4096, 42], 42)] \<and> regs late_signal ''rax'' = 42"
proof -
  have "(x86_64, [''rdi'', ''rsi'', ''rdx'', ''rcx'']) \<in> set platforms" by (simp add: platforms_def)
  moreover have "returned late_signal" "\<not> early late_signal" "regs late_signal ''rax'' = 42"
    by (simp_all add: late_signal_simps)
  ultimately show ?thesis
    using signal_io_exact [OF _ io_run_reaches [OF late_signal_run]]
    by (simp add: demo_regs_def x86_64_def)
qed

theorem signal_io_terminates_witness: "8 \<le> (8 :: nat) \<and> returned late_signal"
  using signal_io_terminates [of x86_64 "[''rdi'', ''rsi'', ''rdx'', ''rcx'']" demo_regs 8 late_signal, OF _ late_signal_run]
  by (simp add: platforms_def)

end
