(* ===== verification/Guest_Mmap.thy ===== *)
theory Guest_Mmap
  imports Os_Monad
begin

text \<open>
  The guest's memory mappings, \<^verbatim>\<open>src/src/memory_guest.c\<close>: \<^verbatim>\<open>mmap\<close>, \<^verbatim>\<open>munmap\<close>,
  \<^verbatim>\<open>mremap\<close> and \<^verbatim>\<open>mincore\<close> over blocks of the guest heap. The abstract state is the set of
  mapped addresses; the operations are shown to refine the obvious operations on it. The allocator and
  \<^verbatim>\<open>pread\<close> are calls of the parameter \<open>os\<close>.
\<close>

unbundle bit_operations_syntax

subsection \<open>State\<close>

text \<open>
  A mapping refers to its allocation by a key instead of a pointer. \<open>references\<close> counts mappings, of
  which the address space has room for fewer than the type's bound. \<open>extent\<close> is the size the block
  was requested with; the code does not keep it.
\<close>

record mapping =
  base :: u64
  msize :: u64
  owner :: nat

record allocation =
  block :: u64
  references :: nat
  extent :: nat

record 'k mspace = "'k os_state" +
  mappings :: "mapping list"
  allocations :: "nat \<Rightarrow> allocation option"
  unused :: nat
  bytes :: "u64 \<Rightarrow> byte"

type_synonym ('k, 'a) mapm = "('k mspace, 'a) state"

abbreviation (input) PAGE :: u64 where "PAGE \<equiv> 4096"
abbreviation (input) SIZE_MAX :: u64 where "SIZE_MAX \<equiv> 0xFFFFFFFFFFFFFFFF"
abbreviation (input) MAP_FAILED :: u64 where "MAP_FAILED \<equiv> 0xFFFFFFFFFFFFFFFF"
abbreviation (input) MAP_SHARED :: nat where "MAP_SHARED \<equiv> 0"
abbreviation (input) MAP_FIXED :: nat where "MAP_FIXED \<equiv> 4"
abbreviation (input) MAP_ANONYMOUS :: nat where "MAP_ANONYMOUS \<equiv> 5"
abbreviation (input) PROT_EXEC :: nat where "PROT_EXEC \<equiv> 2"
abbreviation (input) MREMAP_MAYMOVE :: u32 where "MREMAP_MAYMOVE \<equiv> 1"

definition PAGE_ROUND :: "u64 \<Rightarrow> u64" where
  "PAGE_ROUND n = (n + PAGE - 1) AND NOT (PAGE - 1)"

definition unaligned :: "u64 \<Rightarrow> bool" where
  "unaligned a \<longleftrightarrow> a AND (PAGE - 1) \<noteq> 0"

text \<open>The C idiom \<^verbatim>\<open>errno = e; return MAP_FAILED;\<close>.\<close>

definition map_failed :: "int \<Rightarrow> ('k, u64) mapm" where
  "map_failed e = do { set_errno e; State_Monad.return MAP_FAILED }"

definition store :: "u64 \<Rightarrow> byte list \<Rightarrow> ('k, unit) mapm" where
  "store a bs = State_Monad.update (\<lambda>s. s\<lparr>bytes :=
     (\<lambda>x. if unat (x - a) < length bs then bs ! unat (x - a) else bytes s x)\<rparr>)"

definition clear :: "u64 \<Rightarrow> u64 \<Rightarrow> ('k, unit) mapm" where
  "clear a n = State_Monad.update (\<lambda>s. s\<lparr>bytes := (\<lambda>x. if unat (x - a) < unat n then 0 else bytes s x)\<rparr>)"

definition copy :: "u64 \<Rightarrow> u64 \<Rightarrow> u64 \<Rightarrow> ('k, unit) mapm" where
  "copy dst src n = State_Monad.update (\<lambda>s. s\<lparr>bytes :=
     (\<lambda>x. if unat (x - dst) < unat n then bytes s (src + (x - dst)) else bytes s x)\<rparr>)"

subsection \<open>Operations\<close>

definition release :: "'k os \<Rightarrow> nat \<Rightarrow> ('k, unit) mapm" where
  "release os k = do {
     al \<leftarrow> gets (\<lambda>s. the (allocations s k));
     if references al - 1 = 0 then do {
       _ \<leftarrow> call os ''free'' [Num (uint (block al))];
       _ \<leftarrow> call os ''free'' [];
       State_Monad.update (\<lambda>s. s\<lparr>allocations := (allocations s)(k := None)\<rparr>)
     } else State_Monad.update (\<lambda>s. s\<lparr>allocations := (allocations s)(k \<mapsto> al\<lparr>references := references al - 1\<rparr>)\<rparr>)
   }"

text \<open>
  The file is read until its end or an error; \<open>fuel\<close> bounds the calls of the model, and \<open>None\<close> says
  that it was not enough. The data read is the payload of the result.
\<close>

primrec read_file :: "nat \<Rightarrow> 'k os \<Rightarrow> u64 \<Rightarrow> u64 \<Rightarrow> int \<Rightarrow> int \<Rightarrow> u64 \<Rightarrow> ('k, bool option) mapm" where
  "read_file 0 os at len descriptor offset done = State_Monad.return None"
| "read_file (Suc fuel) os at len descriptor offset done =
     (if done < len then do {
        r \<leftarrow> call os ''pread'' [Num descriptor, Mem (at + done) (unat (len - done)),
               Num (uint (len - done)), Num (offset + uint done)];
        e \<leftarrow> gets errno;
        if ret r < 0 \<and> e = EINTR then read_file fuel os at len descriptor offset done
        else if ret r < 0 then State_Monad.return (Some False)
        else do {
          store (at + done) (payload r);
          if ret r = 0 then State_Monad.return (Some True)
          else read_file fuel os at len descriptor offset (done + word_of_int (ret r))
        }
      } else State_Monad.return (Some True))"

definition insert_mapping :: "mapping \<Rightarrow> ('k, unit) mapm" where
  "insert_mapping item = State_Monad.update (\<lambda>s. s\<lparr>mappings := item # mappings s\<rparr>)"

text \<open>A fresh allocation record with one reference.\<close>

definition new_allocation :: "u64 \<Rightarrow> nat \<Rightarrow> ('k, nat) mapm" where
  "new_allocation memory n = do {
     k \<leftarrow> gets unused;
     State_Monad.update (\<lambda>s. s\<lparr>unused := Suc k,
       allocations := (allocations s)(k \<mapsto> \<lparr>block = memory, references = 1, extent = n\<rparr>)\<rparr>);
     State_Monad.return k
   }"

text \<open>From the allocation on, \<^verbatim>\<open>mmap\<close> fills the block and enters it, or gives it back.\<close>

definition map_block :: "nat \<Rightarrow> 'k os \<Rightarrow> int \<Rightarrow> int \<Rightarrow> u64 \<Rightarrow> u64 \<Rightarrow> u32 \<Rightarrow> int \<Rightarrow> int \<Rightarrow> ('k, u64 option) mapm" where
  "map_block fuel os item memory pages len flags descriptor offset = do {
     k \<leftarrow> new_allocation (word_of_int memory) (unat (pages + PAGE - 1));
     let start = (word_of_int memory + PAGE - 1) AND NOT (PAGE - 1);
     clear start pages;
     read \<leftarrow> (if bit flags MAP_ANONYMOUS then State_Monad.return (Some True)
            else read_file fuel os start len descriptor offset 0);
     case read of
       None \<Rightarrow> State_Monad.return None
     | Some False \<Rightarrow> do {
         error \<leftarrow> gets errno;
         release os k;
         _ \<leftarrow> call os ''free'' [Num item];
         x \<leftarrow> map_failed error;
         State_Monad.return (Some x)
       }
     | Some True \<Rightarrow> do {
         insert_mapping \<lparr>base = start, msize = pages, owner = k\<rparr>;
         State_Monad.return (Some start)
       }
   }"

definition mmap :: "nat \<Rightarrow> 'k os \<Rightarrow> u64 \<Rightarrow> u32 \<Rightarrow> u32 \<Rightarrow> int \<Rightarrow> int \<Rightarrow> ('k, u64 option) mapm" where
  "mmap fuel os len protection flags descriptor offset =
     (if len = 0 \<or> len > SIZE_MAX - (2 * PAGE - 2) \<or> offset < 0 \<or> offset mod 4096 \<noteq> 0
      then do { x \<leftarrow> map_failed EINVAL; State_Monad.return (Some x) }
      else if bit flags MAP_FIXED \<or> bit flags MAP_SHARED \<or> bit protection PROT_EXEC
      then do { x \<leftarrow> map_failed ENOTSUP; State_Monad.return (Some x) }
      else do {
        let size = PAGE_ROUND len;
        item \<leftarrow> calli os ''calloc'' [Num 1, Num 32];
        al \<leftarrow> calli os ''calloc'' [Num 1, Num 16];
        memory \<leftarrow> (if item \<noteq> 0 \<and> al \<noteq> 0 then calli os ''malloc'' [Num (uint (size + PAGE - 1))]
                   else State_Monad.return 0);
        if memory = 0 then do {
          _ \<leftarrow> call os ''free'' [Num item];
          _ \<leftarrow> call os ''free'' [Num al];
          x \<leftarrow> map_failed ENOMEM;
          State_Monad.return (Some x)
        } else map_block fuel os item memory size len flags descriptor offset
      })"

definition add_reference :: "nat \<Rightarrow> ('k, unit) mapm" where
  "add_reference k = State_Monad.update (\<lambda>s. s\<lparr>allocations := (allocations s)(k :=
     map_option (\<lambda>al. al\<lparr>references := references al + 1\<rparr>) (allocations s k))\<rparr>)"

text \<open>
  The loop over the linked list; the result is the list it leaves and whether it came to its end.
\<close>

primrec unmap_list :: "'k os \<Rightarrow> u64 \<Rightarrow> u64 \<Rightarrow> mapping list \<Rightarrow> ('k, bool \<times> mapping list) mapm" where
  "unmap_list os start stop [] = State_Monad.return (True, [])"
| "unmap_list os start stop (item # rest) =
     (let limit = base item + msize item in
      if stop \<le> base item \<or> start \<ge> limit then do {
        r \<leftarrow> unmap_list os start stop rest;
        State_Monad.return (fst r, item # snd r)
      }
      else if start \<le> base item \<and> stop \<ge> limit then do {
        release os (owner item);
        _ \<leftarrow> call os ''free'' [];
        unmap_list os start stop rest
      }
      else if start > base item \<and> stop < limit then do {
        tail \<leftarrow> calli os ''calloc'' [Num 1, Num 32];
        if tail = 0 then do { set_errno ENOMEM; State_Monad.return (False, item # rest) }
        else do {
          add_reference (owner item);
          r \<leftarrow> unmap_list os start stop rest;
          State_Monad.return (fst r, item\<lparr>msize := start - base item\<rparr> #
            \<lparr>base = stop, msize = limit - stop, owner = owner item\<rparr> # snd r)
        }
      }
      else do {
        r \<leftarrow> unmap_list os start stop rest;
        State_Monad.return (fst r,
          (if start \<le> base item then item\<lparr>base := stop, msize := limit - stop\<rparr>
           else item\<lparr>msize := start - base item\<rparr>) # snd r)
      })"

definition munmap :: "'k os \<Rightarrow> u64 \<Rightarrow> u64 \<Rightarrow> ('k, int) mapm" where
  "munmap os start len =
     (if len = 0 \<or> unaligned start \<or> len > SIZE_MAX - (PAGE - 1) \<or>
         PAGE_ROUND len > SIZE_MAX - start then fail EINVAL
      else do {
        items \<leftarrow> gets mappings;
        r \<leftarrow> unmap_list os start (start + PAGE_ROUND len) items;
        State_Monad.update (\<lambda>s. s\<lparr>mappings := snd r\<rparr>);
        State_Monad.return (if fst r then 0 else -1)
      })"

definition containing :: "mapping list \<Rightarrow> u64 \<Rightarrow> u64 \<Rightarrow> mapping option" where
  "containing items start n = find (\<lambda>item. start \<ge> base item \<and> start - base item < msize item \<and>
     n \<le> msize item - (start - base item)) items"

definition mremap :: "nat \<Rightarrow> 'k os \<Rightarrow> u64 \<Rightarrow> u64 \<Rightarrow> u64 \<Rightarrow> u32 \<Rightarrow> ('k, u64 option) mapm" where
  "mremap fuel os address old_size new_size flags =
     (if flags AND NOT MREMAP_MAYMOVE \<noteq> 0 then do { x \<leftarrow> map_failed ENOTSUP; State_Monad.return (Some x) }
      else if unaligned address \<or> old_size = 0 \<or> new_size = 0 \<or> old_size > SIZE_MAX - (2 * PAGE - 2) \<or>
         new_size > SIZE_MAX - (2 * PAGE - 2) then do { x \<leftarrow> map_failed EINVAL; State_Monad.return (Some x) }
      else do {
        let old_pages = PAGE_ROUND old_size;
        let new_pages = PAGE_ROUND new_size;
        items \<leftarrow> gets mappings;
        if containing items address old_pages = None
        then do { x \<leftarrow> map_failed EFAULT; State_Monad.return (Some x) }
        else if new_pages \<le> old_pages then do {
          rc \<leftarrow> (if new_pages < old_pages then munmap os (address + new_pages) (old_pages - new_pages)
                else State_Monad.return 0);
          State_Monad.return (Some (if rc \<noteq> 0 then MAP_FAILED else address))
        }
        else if flags AND MREMAP_MAYMOVE = 0 then do { x \<leftarrow> map_failed ENOMEM; State_Monad.return (Some x) }
        else do {
          out \<leftarrow> mmap fuel os new_size 3 0x22 (-1) 0;
          case out of
            None \<Rightarrow> State_Monad.return None
          | Some p \<Rightarrow>
              if p = MAP_FAILED then State_Monad.return (Some p)
              else do {
                copy p address old_pages;
                _ \<leftarrow> munmap os address old_pages;
                State_Monad.return (Some p)
              }
        }
      })"

definition mincore :: "u64 \<Rightarrow> u64 \<Rightarrow> u64 \<Rightarrow> ('k, int) mapm" where
  "mincore start len vector =
     (if unaligned start then fail EINVAL
      else do {
        let pages = unat len div 4096 + (if unat len mod 4096 \<noteq> 0 then 1 else 0);
        items \<leftarrow> gets mappings;
        if list_ex (\<lambda>i. containing items (start + of_nat i * PAGE) PAGE = None) [0..<pages]
        then fail ENOMEM
        else do { store vector (replicate pages 1); State_Monad.return 0 }
      })"

subsection \<open>Pages\<close>

lemma unat_page_down: "unat (x AND NOT (4096 - 1) :: u64) = unat x div 4096 * 4096"
proof -
  have m: "(4096 - 1 :: u64) = mask 12" by (simp add: mask_eq_exp_minus_1)
  have "x AND NOT (mask 12) = push_bit 12 (drop_bit 12 x)"
    by (rule bit_word_eqI) (auto simp: bit_and_iff bit_not_iff bit_mask_iff bit_push_bit_iff bit_drop_bit_eq)
  moreover have "unat (push_bit 12 (drop_bit 12 x)) = unat x div 4096 * 4096"
  proof -
    have "unat (drop_bit 12 x) = unat x div 4096" by (simp add: drop_bit_eq_div unat_div_distrib)
    moreover have "unat x div 4096 * 4096 < 2 ^ 64"
      using unat_bound [of x] div_times_less_eq_dividend [of "unat x" 4096] by simp
    ultimately show ?thesis by (simp add: push_bit_eq_mult unat_word_ariths)
  qed
  ultimately show ?thesis by (simp only: m)
qed
lemma unaligned_unat: "unaligned x \<longleftrightarrow> unat x mod 4096 \<noteq> 0"
proof -
  have "x AND (4096 - 1) = take_bit 12 x" by (simp add: take_bit_eq_mask mask_eq_exp_minus_1)
  moreover have "unat (take_bit 12 x) = unat x mod 4096" by (simp add: take_bit_eq_mod unat_mod_distrib)
  ultimately show ?thesis unfolding unaligned_def by (metis unat_eq_zero)
qed
lemma unat_PAGE_ROUND: "unat n + 4095 < 2 ^ 64 \<Longrightarrow> unat (PAGE_ROUND n) = (unat n + 4095) div 4096 * 4096"
proof -
  assume n: "unat n + 4095 < 2 ^ 64"
  have "unat (n + 4096 - 1) = unat n + 4095" using n by (simp add: unat_word_ariths)
  then show ?thesis by (simp add: PAGE_ROUND_def unat_page_down [simplified])
qed

lemma unat_of_int64: "0 \<le> r \<Longrightarrow> r < 2 ^ 64 \<Longrightarrow> unat (word_of_int r :: u64) = nat r"
  by (simp add: unat_eq_nat_uint uint_word_of_int_eq take_bit_int_eq_self)

subsection \<open>The abstract state\<close>

definition lo :: "mapping \<Rightarrow> nat" where "lo it = unat (base it)"
definition hi :: "mapping \<Rightarrow> nat" where "hi it = unat (base it) + unat (msize it)"

definition span :: "mapping \<Rightarrow> nat set" where "span it = {lo it..<hi it}"

definition footprint :: "mapping list \<Rightarrow> nat set" where
  "footprint items = (\<Union>it \<in> set items. span it)"

definition mapping_ok :: "mapping \<Rightarrow> bool" where
  "mapping_ok it \<longleftrightarrow> lo it mod 4096 = 0 \<and> hi it mod 4096 = 0 \<and> lo it < hi it \<and> hi it < 2 ^ 64"

primrec apart :: "mapping list \<Rightarrow> bool" where
  "apart [] = True"
| "apart (it # its) \<longleftrightarrow> (\<forall>j \<in> set its. span it \<inter> span j = {}) \<and> apart its"

definition users :: "nat \<Rightarrow> mapping list \<Rightarrow> nat" where
  "users k items = length (filter (\<lambda>it. owner it = k) items)"

definition refs :: "'k mspace \<Rightarrow> nat \<Rightarrow> nat" where
  "refs s k = (case allocations s k of None \<Rightarrow> 0 | Some al \<Rightarrow> references al)"

definition inside :: "'k mspace \<Rightarrow> mapping \<Rightarrow> bool" where
  "inside s it \<longleftrightarrow> (\<exists>al. allocations s (owner it) = Some al \<and>
     span it \<subseteq> {unat (block al)..<unat (block al) + extent al})"

definition mm_inv :: "'k mspace \<Rightarrow> bool" where
  "mm_inv s \<longleftrightarrow>
     (\<forall>it \<in> set (mappings s). mapping_ok it \<and> inside s it) \<and> apart (mappings s) \<and>
     (\<forall>k. refs s k = users k (mappings s)) \<and>
     (\<forall>k al. allocations s k = Some al \<longrightarrow> references al > 0 \<and> k < unused s)"

definition mapped :: "'k mspace \<Rightarrow> nat set" where
  "mapped s = footprint (mappings s)"

lemma footprint_simps [simp]:
  "footprint [] = {}" "footprint (it # its) = span it \<union> footprint its"
  by (simp_all add: footprint_def)

lemma users_simps [simp]:
  "users k [] = 0" "users k (it # its) = (if owner it = k then Suc (users k its) else users k its)"
  by (simp_all add: users_def)

lemma limit_unat: "mapping_ok it \<Longrightarrow> unat (base it + msize it) = hi it"
  by (simp add: mapping_ok_def hi_def unat_word_ariths)

subsection \<open>Unmapping\<close>

text \<open>What the loop leaves alone.\<close>

definition frame :: "'k mspace \<Rightarrow> 'k mspace \<Rightarrow> bool" where
  "frame s t \<longleftrightarrow> (\<forall>k al. allocations t k = Some al \<longrightarrow> references al > 0 \<and>
       (\<exists>al0. allocations s k = Some al0 \<and> block al = block al0 \<and> extent al = extent al0)) \<and>
     unused t = unused s \<and> bytes t = bytes s \<and> mappings t = mappings s"

lemma frame_trans: "frame s t \<Longrightarrow> frame t u \<Longrightarrow> frame s u"
  unfolding frame_def by (metis (no_types, lifting))

definition live :: "'k mspace \<Rightarrow> bool" where
  "live s \<longleftrightarrow> (\<forall>k al. allocations s k = Some al \<longrightarrow> references al > 0)"

lemma frame_refl: "live s \<Longrightarrow> frame s s"
  by (auto simp: frame_def live_def)

lemma frame_live: "frame s t \<Longrightarrow> live t"
  by (auto simp: frame_def live_def)

lemma call_frame: "live s \<Longrightarrow> wp (call os nm args) (\<lambda>_ t. frame s t \<and> allocations t = allocations s) s"
  by (auto simp: wp_call frame_def live_def split: prod.splits)

lemma refs_cong: "allocations t = allocations s \<Longrightarrow> refs t = refs s"
  by (simp add: refs_def [abs_def])

lemma release_frame:
  assumes "live s" "0 < refs s k"
  shows "wp (release os k) (\<lambda>_ t. frame s t \<and> refs t = (refs s)(k := refs s k - 1)) s"
proof -
  obtain al where al: "allocations s k = Some al" "references al > 0" "refs s k = references al"
    using assms by (auto simp: refs_def live_def split: option.splits)
  show ?thesis
    using assms(1) al by (auto simp: release_def wp_simps frame_def live_def refs_def fun_eq_iff split: prod.splits)
qed

lemma add_reference_frame:
  "live s \<Longrightarrow> 0 < refs s k \<Longrightarrow>
     wp (add_reference k) (\<lambda>_ t. frame s t \<and> refs t = (refs s)(k := refs s k + 1)) s"
  by (auto simp: add_reference_def wp_update frame_def live_def refs_def fun_eq_iff split: option.splits)

text \<open>
  The loop's result: either it stopped for lack of memory with nothing changed, or the range is gone
  from the footprint and every reference is accounted for.
\<close>

definition unmapped :: "nat \<Rightarrow> nat \<Rightarrow> mapping list \<Rightarrow> 'k mspace \<Rightarrow> bool \<times> mapping list \<Rightarrow> 'k mspace \<Rightarrow> bool" where
  "unmapped a z items s r t \<longleftrightarrow>
     frame s t \<and> apart (snd r) \<and>
     (\<forall>it \<in> set (snd r). mapping_ok it \<and> (\<exists>j \<in> set items. owner it = owner j \<and> span it \<subseteq> span j)) \<and>
     (if fst r then footprint (snd r) = footprint items - {a..<z} \<and>
        (\<forall>k. refs t k + users k items = refs s k + users k (snd r))
      else snd r = items \<and> refs t = refs s \<and> (\<exists>it \<in> set items. lo it < a \<and> z < hi it))"

text \<open>Each of the four ways the loop treats an entry extends the result for the rest of the list.\<close>

lemma unmapped_keep:
  assumes "unmapped a z items s r t" "mapping_ok it" "z \<le> lo it \<or> hi it \<le> a" "apart (it # items)"
  shows "unmapped a z (it # items) s (fst r, it # snd r) t"
proof -
  have "\<forall>j \<in> set (snd r). span it \<inter> span j = {}"
    using assms(1,4) unfolding unmapped_def by fastforce
  moreover have "span it - {a..<z} = span it" using assms(3) by (auto simp: span_def)
  ultimately show ?thesis using assms(1,2) unfolding unmapped_def by (auto simp: Un_Diff)
qed

lemma unmapped_drop:
  assumes "unmapped a z items s1 r t" "frame s s1" "refs s1 = (refs s)(owner it := refs s (owner it) - 1)"
    "0 < refs s (owner it)" "a \<le> lo it" "hi it \<le> z" "apart (it # items)" "mapping_ok it" "a < z"
  shows "unmapped a z (it # items) s r t"
proof -
  have "fst r"
  proof (rule ccontr)
    assume "\<not> fst r"
    then obtain j where "j \<in> set items" "lo j < a" "z < hi j" using assms(1) by (auto simp: unmapped_def)
    then show False using assms(5-9) by (auto simp: mapping_ok_def span_def)
  qed
  moreover have "span it - {a..<z} = {}" using assms(5,6) by (auto simp: span_def)
  ultimately show ?thesis
    using assms(1-4) frame_trans [OF assms(2)] unfolding unmapped_def by (auto simp: Un_Diff split: if_splits)
qed

lemma unmapped_trim:
  assumes "unmapped a z items s r t" "mapping_ok it" "mapping_ok rest" "owner rest = owner it"
    "span rest = span it - {a..<z}" "span it \<inter> {a..<z} \<noteq> {}" "apart (it # items)"
  shows "unmapped a z (it # items) s (fst r, rest # snd r) t"
proof -
  have "fst r"
  proof (rule ccontr)
    assume "\<not> fst r"
    then obtain j where "j \<in> set items" "lo j < a" "z < hi j" using assms(1) by (auto simp: unmapped_def)
    then have "span it \<inter> span j = {}" "{a..<z} \<subseteq> span j" using assms(7) by (auto simp: span_def)
    then show False using assms(6) by blast
  qed
  moreover have "\<forall>j \<in> set (snd r). span rest \<inter> span j = {}"
    using assms(1,5,7) unfolding unmapped_def by fastforce
  ultimately show ?thesis
    using assms(1-5) unfolding unmapped_def by (auto simp: Un_Diff)
qed

lemma unmapped_split:
  assumes "unmapped a z items s1 r t" "frame s s1" "refs s1 = (refs s)(owner it := refs s (owner it) + 1)"
    "mapping_ok left" "mapping_ok right" "owner left = owner it" "owner right = owner it"
    "span left = {lo it..<a}" "span right = {z..<hi it}" "lo it < a" "z < hi it" "a < z" "apart (it # items)"
  shows "unmapped a z (it # items) s (fst r, left # right # snd r) t"
proof -
  have "fst r"
  proof (rule ccontr)
    assume "\<not> fst r"
    then obtain j where "j \<in> set items" "lo j < a" "z < hi j" using assms(1) by (auto simp: unmapped_def)
    then have "span it \<inter> span j = {}" using assms(13) by auto
    moreover have "a \<in> span it \<inter> span j"
      using \<open>lo j < a\<close> \<open>z < hi j\<close> assms(10-12) by (auto simp: span_def)
    ultimately show False by auto
  qed
  moreover have sub: "span left \<union> span right = span it - {a..<z}" "span left \<inter> span right = {}"
      "span left \<subseteq> span it" "span right \<subseteq> span it"
    using assms(8-12) by (auto simp: span_def)
  moreover have "\<forall>j \<in> set (snd r). span left \<inter> span j = {} \<and> span right \<inter> span j = {}"
    using assms(1,13) sub(3,4) unfolding unmapped_def apart.simps by blast
  ultimately show ?thesis
    using assms(1-7) frame_trans [OF assms(2)] unfolding unmapped_def
    by (auto simp: Un_Diff split: if_splits)
qed

lemma piece_left:
  assumes "mapping_ok it" "lo it < unat start" "unat start < hi it" "unat start mod 4096 = 0"
  shows "lo (it\<lparr>msize := start - base it\<rparr>) = lo it" "hi (it\<lparr>msize := start - base it\<rparr>) = unat start"
    "mapping_ok (it\<lparr>msize := start - base it\<rparr>)"
proof -
  have "unat (start - base it) = unat start - lo it"
    using assms(2) by (simp add: lo_def unat_sub word_le_nat_alt)
  then show "lo (it\<lparr>msize := start - base it\<rparr>) = lo it" "hi (it\<lparr>msize := start - base it\<rparr>) = unat start"
    using assms(2) by (simp_all add: lo_def hi_def)
  then show "mapping_ok (it\<lparr>msize := start - base it\<rparr>)"
    using assms unat_bound [of start] by (simp add: mapping_ok_def)
qed

lemma piece_right:
  assumes "mapping_ok it" "lo it < unat stop" "unat stop < hi it" "unat stop mod 4096 = 0"
    "base piece = stop" "msize piece = base it + msize it - stop"
  shows "lo piece = unat stop" "hi piece = hi it" "mapping_ok piece"
proof -
  have "unat (base it + msize it - stop) = hi it - unat stop"
    using assms(1,3) limit_unat [of it] by (simp add: unat_sub word_le_nat_alt)
  then show "lo piece = unat stop" "hi piece = hi it"
    using assms(3,5,6) by (simp_all add: lo_def hi_def)
  then show "mapping_ok piece" using assms(1-4) by (simp add: mapping_ok_def)
qed

lemma unmap_list_spec:
  assumes a: "unat start mod 4096 = 0" "unat stop mod 4096 = 0" "unat start < unat stop"
  shows "\<forall>it \<in> set items. mapping_ok it \<Longrightarrow> apart items \<Longrightarrow> live s \<Longrightarrow> \<forall>k. users k items \<le> refs s k \<Longrightarrow>
    wp (unmap_list os start stop items) (unmapped (unat start) (unat stop) items s) s"
proof (induction items arbitrary: s)
  case Nil
  then show ?case by (simp add: wp_return unmapped_def frame_refl)
next
  case (Cons it items)
  let ?a = "unat start" and ?z = "unat stop"
  have ok: "mapping_ok it" and rest: "\<forall>it \<in> set items. mapping_ok it" "apart items" using Cons.prems by auto
  have ge: "\<forall>k. users k items \<le> refs s k" "Suc (users (owner it) items) \<le> refs s (owner it)"
  proof -
    show "\<forall>k. users k items \<le> refs s k"
      using Cons.prems(4) by (metis Suc_leD users_simps(2))
    show "Suc (users (owner it) items) \<le> refs s (owner it)"
      using Cons.prems(4) [rule_format, of "owner it"] by simp
  qed
  have cmp: "stop \<le> base it \<longleftrightarrow> ?z \<le> lo it" "start \<ge> base it + msize it \<longleftrightarrow> hi it \<le> ?a"
    "start \<le> base it \<longleftrightarrow> ?a \<le> lo it" "stop \<ge> base it + msize it \<longleftrightarrow> hi it \<le> ?z"
    "start > base it \<longleftrightarrow> lo it < ?a" "stop < base it + msize it \<longleftrightarrow> ?z < hi it"
    using limit_unat [OF ok] by (simp_all add: word_le_nat_alt word_less_nat_alt lo_def)
  note IH = Cons.IH [OF rest]
  consider (keep) "?z \<le> lo it \<or> hi it \<le> ?a"
    | (drop) "\<not> (?z \<le> lo it \<or> hi it \<le> ?a)" "?a \<le> lo it" "hi it \<le> ?z"
    | (split) "lo it < ?a" "?z < hi it" "\<not> (?z \<le> lo it \<or> hi it \<le> ?a)"
    | (right) "?a \<le> lo it" "?z < hi it" "\<not> (?z \<le> lo it \<or> hi it \<le> ?a)"
    | (left) "lo it < ?a" "hi it \<le> ?z" "\<not> (?z \<le> lo it \<or> hi it \<le> ?a)"
    by linarith
  then show ?case
  proof cases
    case keep
    then have eq: "unmap_list os start stop (it # items) =
        do { r \<leftarrow> unmap_list os start stop items; State_Monad.return (fst r, it # snd r) }"
      by (simp add: cmp Let_def)
    show ?thesis
      unfolding eq by (rule wp_bindI [OF IH [OF Cons.prems(3) ge(1)]])
        (simp add: wp_return unmapped_keep [OF _ ok keep Cons.prems(2)])
  next
    case drop
    then have eq: "unmap_list os start stop (it # items) =
        do { release os (owner it); _ \<leftarrow> call os ''free'' []; unmap_list os start stop items }"
      by (simp add: cmp Let_def)
    have "wp (unmap_list os start stop items) (unmapped ?a ?z (it # items) s) u"
      if u: "frame s u" "refs u = (refs s)(owner it := refs s (owner it) - 1)" for u
    proof -
      have "\<forall>k. users k items \<le> refs u k" using ge u(2) by (auto simp: fun_upd_apply)
      from wp_mono [OF IH [OF frame_live [OF u(1)] this]] show ?thesis
        using unmapped_drop [OF _ u _ drop(2,3) Cons.prems(2) ok a(3)] ge(2) by fastforce
    qed
    note go = this
    have "wp (do { _ \<leftarrow> call os ''free'' []; unmap_list os start stop items }) (unmapped ?a ?z (it # items) s) u"
      if u: "frame s u \<and> refs u = (refs s)(owner it := refs s (owner it) - 1)" for u
      by (rule wp_bindI [OF call_frame [OF frame_live [OF conjunct1 [OF u]]]], rule go)
        (use u in \<open>auto intro: frame_trans dest: refs_cong\<close>)
    with ge(2) show ?thesis
      unfolding eq by (intro wp_bindI [OF release_frame [OF Cons.prems(3)]]) auto
  next
    case split
    have pl: "mapping_ok (it\<lparr>msize := start - base it\<rparr>)" "span (it\<lparr>msize := start - base it\<rparr>) = {lo it..<?a}"
      using piece_left [OF ok, of start] split a by (auto simp: span_def)
    let ?tail = "\<lparr>base = stop, msize = base it + msize it - stop, owner = owner it\<rparr>"
    have pr: "mapping_ok ?tail" "span ?tail = {?z..<hi it}"
      using piece_right [OF ok, of stop ?tail] split a by (auto simp: span_def)
    let ?out = "\<lambda>r. (fst r, it\<lparr>msize := start - base it\<rparr> # ?tail # snd r)"
    have eq: "unmap_list os start stop (it # items) = do {
        tail \<leftarrow> calli os ''calloc'' [Num 1, Num 32];
        if tail = 0 then do { set_errno ENOMEM; State_Monad.return (False, it # items) }
        else do { add_reference (owner it); r \<leftarrow> unmap_list os start stop items; State_Monad.return (?out r) } }"
      using split by (simp add: cmp Let_def)
    have failed: "unmapped ?a ?z (it # items) s (False, it # items) (u\<lparr>errno := e\<rparr>)"
      if "frame s u" "allocations u = allocations s" for u e
      using that split(1,2) Cons.prems(1,2) by (auto simp: unmapped_def frame_def refs_def [abs_def])
    have goes: "wp (do { add_reference (owner it); r \<leftarrow> unmap_list os start stop items; State_Monad.return (?out r) })
        (unmapped ?a ?z (it # items) s) u" if u: "frame s u" "allocations u = allocations s" for u
    proof (rule wp_bindI [OF add_reference_frame [OF frame_live [OF u(1)]]])
      show "0 < refs u (owner it)" using ge(2) u(2) by (simp add: refs_def)
      fix x v assume "frame u v \<and> refs v = (refs u)(owner it := refs u (owner it) + 1)"
      then have v: "frame s v" "refs v = (refs s)(owner it := refs s (owner it) + 1)"
        using frame_trans [OF u(1)] u(2) by (simp_all add: refs_def [abs_def])
      then have "\<forall>k. users k items \<le> refs v k" using ge(1) by (simp add: le_SucI)
      note ih = IH [OF frame_live [OF v(1)] this]
      show "wp (do { r \<leftarrow> unmap_list os start stop items; State_Monad.return (?out r) })
          (unmapped ?a ?z (it # items) s) v"
        by (rule wp_bindI [OF ih])
          (simp add: wp_return unmapped_split [OF _ v pl(1) pr(1) _ _ pl(2) pr(2) split(1,2) a(3) Cons.prems(2)])
    qed
    show ?thesis
      unfolding eq calli_def wp_bind using failed goes
      by (intro wp_mono [OF call_frame [OF Cons.prems(3)]]) (auto simp: wp_simps)
  next
    case right
    let ?cut = "it\<lparr>base := stop, msize := base it + msize it - stop\<rparr>"
    have eq: "unmap_list os start stop (it # items) =
        do { r \<leftarrow> unmap_list os start stop items; State_Monad.return (fst r, ?cut # snd r) }"
      using right by (simp add: cmp Let_def)
    have c: "mapping_ok ?cut" "span ?cut = span it - {?a..<?z}" "span it \<inter> {?a..<?z} \<noteq> {}"
      using piece_right [OF ok, of stop ?cut] right a by (auto simp: span_def)
    show ?thesis
      unfolding eq by (rule wp_bindI [OF IH [OF Cons.prems(3) ge(1)]])
        (simp add: wp_return unmapped_trim [OF _ ok c(1) _ c(2,3) Cons.prems(2)])
  next
    case left
    let ?cut = "it\<lparr>msize := start - base it\<rparr>"
    have eq: "unmap_list os start stop (it # items) =
        do { r \<leftarrow> unmap_list os start stop items; State_Monad.return (fst r, ?cut # snd r) }"
      using left by (simp add: cmp Let_def)
    have c: "mapping_ok ?cut" "span ?cut = span it - {?a..<?z}" "span it \<inter> {?a..<?z} \<noteq> {}"
      using piece_left [OF ok, of start] left a by (auto simp: span_def)
    show ?thesis
      unfolding eq by (rule wp_bindI [OF IH [OF Cons.prems(3) ge(1)]])
        (simp add: wp_return unmapped_trim [OF _ ok c(1) _ c(2,3) Cons.prems(2)])
  qed
qed

lemma users_pos: "it \<in> set items \<Longrightarrow> 0 < users (owner it) items"
  by (induction items) auto

lemma unmapped_inv:
  assumes inv: "mm_inv s" and u: "unmapped a z (mappings s) s r t"
  shows "mm_inv (t\<lparr>mappings := snd r\<rparr>)"
proof -
  have refs: "refs t k = users k (snd r)" for k
  proof (cases "fst r")
    case True
    then have "refs t k + users k (mappings s) = refs s k + users k (snd r)" using u by (simp add: unmapped_def)
    moreover have "refs s k = users k (mappings s)" using inv by (simp add: mm_inv_def)
    ultimately show ?thesis by simp
  next
    case False
    then show ?thesis using u inv by (simp add: unmapped_def mm_inv_def)
  qed
  have frame: "frame s t" using u by (simp add: unmapped_def)
  have "inside (t\<lparr>mappings := snd r\<rparr>) it" if it: "it \<in> set (snd r)" for it
  proof -
    obtain j where j: "j \<in> set (mappings s)" "owner it = owner j" "span it \<subseteq> span j"
      using u it by (auto simp: unmapped_def)
    obtain al where al: "allocations t (owner it) = Some al"
      using users_pos [OF it] refs [of "owner it"] by (auto simp: refs_def split: option.splits)
    then obtain al0 where "allocations s (owner it) = Some al0" "block al = block al0" "extent al = extent al0"
      using frame by (auto simp: frame_def)
    moreover have "inside s j" using inv j(1) by (simp add: mm_inv_def)
    ultimately show ?thesis using al j by (auto simp: inside_def)
  qed
  moreover have "refs (t\<lparr>mappings := snd r\<rparr>) = refs t" by (rule refs_cong) simp
  ultimately show ?thesis
    using u inv refs frame unfolding mm_inv_def unmapped_def frame_def by fastforce
qed

lemma munmap_run:
  assumes inv: "mm_inv s"
  shows "wp (munmap os start len) (\<lambda>rc t. mm_inv t \<and> bytes t = bytes s \<and>
    (rc = 0 \<and> mapped t = mapped s - {unat start..<unat start + unat (PAGE_ROUND len)} \<or>
     rc = -1 \<and> mapped t = mapped s)) s"
proof (cases "len = 0 \<or> unaligned start \<or> len > SIZE_MAX - (PAGE - 1) \<or> PAGE_ROUND len > SIZE_MAX - start")
  case True
  then have eq: "munmap os start len = fail EINVAL" unfolding munmap_def by simp
  have "mm_inv (s\<lparr>errno := EINVAL\<rparr>)" "mapped (s\<lparr>errno := EINVAL\<rparr>) = mapped s"
    using inv by (simp_all add: mm_inv_def inside_def refs_def mapped_def)
  then show ?thesis unfolding eq wp_fail by simp
next
  case False
  let ?stop = "start + PAGE_ROUND len"
  have len: "unat len + 4095 < 2 ^ 64" "0 < unat len"
    using False by (simp_all add: word_less_nat_alt not_less unat_gt_0)
  have "unat (SIZE_MAX - start) = 2 ^ 64 - 1 - unat start"
    using unat_bound [of start] by (simp add: unat_sub word_le_nat_alt)
  then have "unat start + unat (PAGE_ROUND len) < 2 ^ 64"
    using False unat_bound [of start] by (auto simp: word_less_nat_alt not_less)
  then have stop: "unat ?stop = unat start + unat (PAGE_ROUND len)" by (simp add: unat_word_ariths)
  have pages: "unat (PAGE_ROUND len) mod 4096 = 0" "0 < unat (PAGE_ROUND len)"
    using len by (simp_all add: unat_PAGE_ROUND)
  have start: "unat start mod 4096 = 0" using False by (simp add: unaligned_unat)
  have range: "unat start mod 4096 = 0" "unat ?stop mod 4096 = 0" "unat start < unat ?stop"
    using start pages stop by (auto simp: mod_add_eq [symmetric])
  have "\<forall>it \<in> set (mappings s). mapping_ok it" "apart (mappings s)" "live s" "\<forall>k. users k (mappings s) \<le> refs s k"
    using inv by (auto simp: mm_inv_def live_def)
  note run = unmap_list_spec [OF range this]
  have eq: "munmap os start len = do {
      items \<leftarrow> gets mappings;
      r \<leftarrow> unmap_list os start ?stop items;
      State_Monad.update (\<lambda>s. s\<lparr>mappings := snd r\<rparr>);
      State_Monad.return (if fst r then 0 else -1)
    }"
    using False unfolding munmap_def by simp
  show ?thesis
    unfolding eq wp_bind wp_gets
  proof (rule wp_mono [OF run])
    fix r t assume u: "unmapped (unat start) (unat ?stop) (mappings s) s r t"
    have "mm_inv (t\<lparr>mappings := snd r\<rparr>)" by (rule unmapped_inv [OF inv u])
    then show "wp (State_Monad.update (\<lambda>s. s\<lparr>mappings := snd r\<rparr>))
        (\<lambda>_. wp (State_Monad.return (if fst r then 0 else -1)) (\<lambda>rc t. mm_inv t \<and> bytes t = bytes s \<and>
          (rc = 0 \<and> mapped t = mapped s - {unat start..<unat start + unat (PAGE_ROUND len)} \<or>
           rc = -1 \<and> mapped t = mapped s))) t"
      using u by (cases "fst r") (simp_all add: wp_update wp_return mapped_def stop unmapped_def frame_def)
  qed
qed

text \<open>
  C17. \<^verbatim>\<open>munmap\<close> refines the removal of the range from the set of mapped addresses. It either
  returns 0 and exactly the pages from the start on, up to the rounded length, are gone, or it returns
  -1 and nothing is. However the mappings are cut up, they stay page-aligned, disjoint and inside their
  blocks, every block counts its mappings, and no byte of memory changes.
\<close>
theorem munmap_refines:
  assumes "mm_inv s" "run_state (munmap os start len) s = (rc, t)"
  shows "mm_inv t \<and> bytes t = bytes s \<and>
    (rc = 0 \<and> mapped t = mapped s - {unat start..<unat start + unat (PAGE_ROUND len)} \<or>
     rc = -1 \<and> mapped t = mapped s)"
  using wp_run [OF munmap_run [OF assms(1)] assms(2)] .

subsection \<open>Mapping\<close>

text \<open>\<^verbatim>\<open>malloc\<close> returns NULL or a block that overlaps no live one.\<close>

definition fresh_blocks :: "'k os \<Rightarrow> 'k mspace \<Rightarrow> bool" where
  "fresh_blocks os s \<longleftrightarrow> (\<forall>n w. let r = ret (fst (os (Call ''malloc'' [Num n]) w)) in
     r = 0 \<or> 0 < r \<and> r + n < 2 ^ 64 \<and>
       (\<forall>k al. allocations s k = Some al \<longrightarrow>
          {nat r..<nat (r + n)} \<inter> {unat (block al)..<unat (block al) + extent al} = {}))"

lemma new_mapping_inv:
  assumes inv: "mm_inv s" and it: "mapping_ok it" "owner it = unused s"
    and al: "references al = 1" "span it \<subseteq> {unat (block al)..<unat (block al) + extent al}"
    and fresh: "\<forall>k b. allocations s k = Some b \<longrightarrow>
      {unat (block al)..<unat (block al) + extent al} \<inter> {unat (block b)..<unat (block b) + extent b} = {}"
    and t: "mappings t = it # mappings s" "allocations t = (allocations s)(unused s \<mapsto> al)" "unused t = Suc (unused s)"
  shows "mm_inv t" "mapped t = mapped s \<union> span it" "span it \<inter> mapped s = {}"
proof -
  have none: "allocations s (unused s) = None"
    using inv unfolding mm_inv_def by (metis less_irrefl option.exhaust)
  have other: "owner j \<noteq> unused s" "span it \<inter> span j = {}" if "j \<in> set (mappings s)" for j
  proof -
    have "inside s j" using inv that by (simp add: mm_inv_def)
    then obtain b where b: "allocations s (owner j) = Some b" "span j \<subseteq> {unat (block b)..<unat (block b) + extent b}"
      by (auto simp: inside_def)
    show "owner j \<noteq> unused s" using b(1) none by auto
    show "span it \<inter> span j = {}" using b fresh al(2) by blast
  qed
  then show disj: "span it \<inter> mapped s = {}" by (auto simp: mapped_def footprint_def)
  show "mapped t = mapped s \<union> span it" by (auto simp: mapped_def t)
  have "users (unused s) (mappings s) = 0" using other(1) by (simp add: users_def filter_empty_conv)
  then have "refs t k = users k (mappings t)" for k
    using inv it(2) al(1) by (auto simp: mm_inv_def refs_def t)
  moreover have "inside t j" if "j \<in> set (mappings s)" for j
    using inv that other(1) [OF that] by (auto simp: mm_inv_def inside_def t)
  moreover have "inside t it" using it(2) al(2) by (auto simp: inside_def t)
  ultimately show "mm_inv t"
    using inv it(1) other(2) al(1) unfolding mm_inv_def by (auto simp: t less_SucI split: if_splits)
qed

text \<open>What the calls and the reading of the file leave alone.\<close>

definition kept :: "'k mspace \<Rightarrow> 'k mspace \<Rightarrow> bool" where
  "kept s t \<longleftrightarrow> mappings t = mappings s \<and> allocations t = allocations s \<and> unused t = unused s"

lemma kept_inv: "mm_inv s \<Longrightarrow> mappings t = mappings s \<Longrightarrow> allocations t = allocations s \<Longrightarrow>
    unused s \<le> unused t \<Longrightarrow> mm_inv t \<and> mapped t = mapped s"
  unfolding mm_inv_def mapped_def by (auto simp: inside_def refs_def) (meson less_le_trans)

lemma kept_call: "wp (call os nm args) (\<lambda>_ t. kept s t \<and> bytes t = bytes s) s"
  by (auto simp: wp_call kept_def split: prod.splits)

lemma kept_calli: "wp (calli os nm args) (\<lambda>r t. kept s t \<and> bytes t = bytes s \<and> (\<exists>w. r = ret (fst (os (Call nm args) w)))) s"
  by (auto simp: wp_call calli_def wp_bind wp_return kept_def split: prod.splits) (metis fst_conv)

text \<open>\<^verbatim>\<open>pread\<close> reads no more than it is asked for and is not interrupted.\<close>

definition reads :: "'k os \<Rightarrow> bool" where
  "reads os \<longleftrightarrow> (\<forall>d a k n off w. let r = fst (os (Call ''pread'' [Num d, Mem a k, Num n, Num off]) w) in
     ret r \<le> n \<and> (ret r < 0 \<longrightarrow> err r \<noteq> 0 \<and> err r \<noteq> EINTR))"

lemma kept_read_file: "kept s0 s \<Longrightarrow> wp (read_file fuel os start len descriptor offset d) (\<lambda>_. kept s0) s"
proof (induction fuel arbitrary: d s)
  case (Suc fuel)
  show ?case
    using Suc.prems by (auto simp: wp_simps store_def split: prod.splits intro!: Suc.IH) (simp_all add: kept_def)
qed (simp add: wp_simps)

lemma read_file_returns:
  "reads os \<Longrightarrow> unat len - unat d < fuel \<Longrightarrow>
    wp (read_file fuel os start len descriptor offset d) (\<lambda>r _. \<not> Option.is_none r) s"
proof (induction fuel arbitrary: d s)
  case (Suc fuel d s)
  show ?case
  proof (cases "d < len")
    case True
    obtain r w where os: "os (Call ''pread'' [Num descriptor, Mem (start + d) (unat (len - d)),
        Num (uint (len - d)), Num (offset + uint d)]) (world s) = (r, w)" by fastforce
    then have r: "ret r \<le> uint (len - d)" "ret r < 0 \<Longrightarrow> err r \<noteq> 0 \<and> err r \<noteq> EINTR"
      using Suc.prems(1) unfolding reads_def Let_def by (metis fst_conv)+
    have more: "unat len - unat (d + word_of_int (ret r)) < fuel" if "0 < ret r"
    proof -
      have lt: "unat d < unat len" using True by (simp add: word_less_nat_alt)
      have "uint (len - d) = int (unat len - unat d)"
        using lt by (simp only: uint_nat unat_sub word_le_nat_alt less_imp_le)
      then have n: "nat (ret r) \<le> unat len - unat d" using r(1) by simp
      moreover have "unat (word_of_int (ret r) :: u64) = nat (ret r)"
        using n that unat_bound [of len] by (intro unat_of_int64) auto
      ultimately have "unat (d + word_of_int (ret r)) = unat d + nat (ret r)"
        using lt unat_bound [of len] by (simp add: unat_word_ariths)
      then show ?thesis using that lt Suc.prems(2) by simp
    qed
    show ?thesis
      using True r more by (auto simp: wp_simps store_def os intro!: Suc.IH [OF Suc.prems(1)])
  qed (simp add: wp_simps)
qed simp

lemma release_last:
  assumes "allocations s k = Some al" "references al = 1"
  shows "wp (release os k) (\<lambda>_ t. mappings t = mappings s \<and> allocations t = (allocations s)(k := None) \<and>
    unused t = unused s) s"
  using assms unfolding release_def by (simp add: wp_simps split: prod.splits)

text \<open>What a call of \<^verbatim>\<open>mmap\<close> is to establish.\<close>

definition new_range :: "u32 \<Rightarrow> nat \<Rightarrow> 'k mspace \<Rightarrow> u64 \<Rightarrow> 'k mspace \<Rightarrow> bool" where
  "new_range flags n s p t \<longleftrightarrow> unat p mod 4096 = 0 \<and> unat p + n < 2 ^ 64 \<and>
     {unat p..<unat p + n} \<inter> mapped s = {} \<and> mapped t = mapped s \<union> {unat p..<unat p + n} \<and>
     (bit flags MAP_ANONYMOUS \<longrightarrow> bytes t = (\<lambda>x. if unat p \<le> unat x \<and> unat x < unat p + n then 0 else bytes s x))"

definition map_outcome :: "u32 \<Rightarrow> nat \<Rightarrow> 'k mspace \<Rightarrow> u64 option \<Rightarrow> 'k mspace \<Rightarrow> bool" where
  "map_outcome flags n s r t \<longleftrightarrow> (case r of None \<Rightarrow> False | Some p \<Rightarrow>
     mm_inv t \<and> (p = MAP_FAILED \<and> mapped t = mapped s \<or> new_range flags n s p t))"

lemma page_up: "(m + 4095) div 4096 * 4096 \<ge> m" "(m + 4095) div 4096 * 4096 \<le> m + (4095::nat)" 
  using div_times_less_eq_dividend [of "m + 4095" 4096] dividend_less_div_times [of 4096 "m + 4095"] by linarith+

lemma block_start:
  assumes "0 < r" "nat r + (n + 4095) < 2 ^ 64"
  defines "m \<equiv> word_of_int r :: u64"
  shows "unat m = nat r" "unat (PAGE_ROUND m) mod 4096 = 0" "unat m \<le> unat (PAGE_ROUND m)"
    "unat (PAGE_ROUND m) + n \<le> unat m + (n + 4095)"
proof -
  show m: "unat m = nat r" using assms(1,2) unfolding m_def by (simp add: unat_of_int64)
  then have p: "unat (PAGE_ROUND m) = (unat m + 4095) div 4096 * 4096" using assms(2) by (simp add: unat_PAGE_ROUND)
  show "unat (PAGE_ROUND m) mod 4096 = 0" by (simp add: p)
  show "unat m \<le> unat (PAGE_ROUND m)" "unat (PAGE_ROUND m) + n \<le> unat m + (n + 4095)"
    unfolding p using page_up [of "unat m"] by simp_all
qed

lemma cleared:
  "unat p + unat n < 2 ^ 64 \<Longrightarrow> unat (x - p) < unat n \<longleftrightarrow> unat p \<le> unat x \<and> unat x < unat p + unat n"
  for x p n :: u64
  using unat_bound [of x] by (cases "p \<le> x") (simp_all add: unat_sub_if_size word_le_nat_alt word_size, linarith+)

lemma wp_conj: "wp m P s \<Longrightarrow> wp m Q s \<Longrightarrow> wp m (\<lambda>r t. P r t \<and> Q r t) s"
  by (auto simp: wp_def split: prod.splits)

lemma filled:
  assumes "bit flags MAP_ANONYMOUS \<or> reads os \<and> unat len < fuel"
  shows "wp (if bit flags MAP_ANONYMOUS then State_Monad.return (Some True)
      else read_file fuel os start len descriptor offset 0)
    (\<lambda>r t. kept s t \<and> (bit flags MAP_ANONYMOUS \<longrightarrow> r = Some True \<and> t = s) \<and> \<not> Option.is_none r) s"
proof (cases "bit flags MAP_ANONYMOUS")
  case False
  then have "wp (read_file fuel os start len descriptor offset 0) (\<lambda>r t. kept s t \<and> \<not> Option.is_none r) s"
    using assms by (intro wp_conj kept_read_file read_file_returns) (auto simp: kept_def)
  then show ?thesis using False by simp
qed (simp add: wp_return kept_def)

lemma map_block_run:
  fixes s :: "'k mspace"
  assumes inv: "mm_inv s" and size: "unat pages mod 4096 = 0" "0 < unat pages"
    and mem: "0 < memory" "nat memory + (unat pages + 4095) < 2 ^ 64"
    and fresh: "\<forall>k al. allocations s k = Some al \<longrightarrow>
      {nat memory..<nat memory + (unat pages + 4095)} \<inter> {unat (block al)..<unat (block al) + extent al} = {}"
    and src: "bit flags MAP_ANONYMOUS \<or> reads os \<and> unat len < fuel"
  shows "wp (map_block fuel os item memory pages len flags descriptor offset) (map_outcome flags (unat pages) s) s"
proof -
  let ?m = "word_of_int memory :: u64"
  let ?p = "PAGE_ROUND ?m"
  note start = block_start [OF mem]
  have "unat pages + 4095 < 2 ^ 64" using mem by linarith
  then have ext: "unat (pages + PAGE - 1) = unat pages + 4095" by (simp add: unat_word_ariths)
  have bound: "unat ?p + unat pages < 2 ^ 64" using start(1,4) mem by linarith
  let ?al = "\<lparr>block = ?m, references = 1, extent = unat pages + 4095\<rparr>"
  let ?it = "\<lparr>base = ?p, msize = pages, owner = unused s\<rparr>"
  let ?s = "s\<lparr>unused := Suc (unused s), allocations := (allocations s)(unused s \<mapsto> ?al),
    bytes := \<lambda>x. if unat (x - ?p) < unat pages then 0 else bytes s x\<rparr>"
  have span: "span ?it = {unat ?p..<unat ?p + unat pages}" by (simp add: span_def lo_def hi_def)
  have ok: "mapping_ok ?it"
    using start(2) size bound by (simp add: mapping_ok_def lo_def hi_def mod_add_eq [symmetric])
  have sub: "span ?it \<subseteq> {unat (block ?al)..<unat (block ?al) + extent ?al}" using start(3,4) by (auto simp: span)
  have none: "allocations s (unused s) = None"
    using inv unfolding mm_inv_def by (metis less_irrefl option.exhaust)
  have entered: "map_outcome flags (unat pages) s (Some ?p) (t\<lparr>mappings := ?it # mappings t\<rparr>)"
    if t: "kept ?s t" "bit flags MAP_ANONYMOUS \<longrightarrow> t = ?s" for t
  proof -
    let ?t = "t\<lparr>mappings := ?it # mappings t\<rparr>"
    have pre: "owner ?it = unused s" "references ?al = 1" by simp_all
    have apart: "\<forall>k b. allocations s k = Some b \<longrightarrow> {unat (block ?al)..<unat (block ?al) + extent ?al} \<inter>
        {unat (block b)..<unat (block b) + extent b} = {}"
      using fresh start(1) by (simp only: allocation.simps)
    have "mappings ?t = ?it # mappings s" "allocations ?t = (allocations s)(unused s \<mapsto> ?al)" "unused ?t = Suc (unused s)"
      using t(1) by (simp_all add: kept_def)
    note new_mapping_inv [OF inv ok pre sub apart this]
    then show ?thesis
      using t start(2) bound by (auto simp: map_outcome_def new_range_def span cleared [OF bound] fun_eq_iff)
  qed
  have failed: "map_outcome flags (unat pages) s (Some MAP_FAILED) u"
    if "mappings u = mappings s" "allocations u = allocations s" "unused u = Suc (unused s)" for u
    using kept_inv [OF inv that(1,2)] that(3) by (simp add: map_outcome_def)
  have released: "wp (release os (unused s)) (\<lambda>_ u. mappings u = mappings s \<and> allocations u = allocations s \<and>
      unused u = Suc (unused s)) t" if "kept ?s t" for t
    by (rule wp_mono [OF release_last [of t "unused s" ?al]]) (use that none in \<open>auto simp: kept_def\<close>)
  let ?rest = "\<lambda>r. case r of None \<Rightarrow> State_Monad.return None
    | Some False \<Rightarrow> do { error \<leftarrow> gets errno; release os (unused s); _ \<leftarrow> call os ''free'' [Num item];
        x \<leftarrow> map_failed error; State_Monad.return (Some x) }
    | Some True \<Rightarrow> do { insert_mapping ?it; State_Monad.return (Some ?p) }"
  have "wp (map_block fuel os item memory pages len flags descriptor offset) Q s =
      wp (State_Monad.bind (if bit flags MAP_ANONYMOUS then State_Monad.return (Some True)
        else read_file fuel os ?p len descriptor offset 0) ?rest) Q ?s" for Q
    unfolding map_block_def new_allocation_def clear_def Let_def PAGE_ROUND_def [symmetric] ext
    by (simp add: wp_bind wp_gets wp_update wp_return cong: if_cong)
  then show ?thesis
    unfolding wp_bind
  proof (simp only:, intro wp_mono [OF filled [OF src]])
    fix r t assume t: "kept ?s t \<and> (bit flags MAP_ANONYMOUS \<longrightarrow> r = Some True \<and> t = ?s) \<and> \<not> Option.is_none r"
    show "wp (?rest r) (map_outcome flags (unat pages) s) t"
    proof (cases "r = Some True")
      case True
      then show ?thesis using entered [of t] t by (simp add: insert_mapping_def wp_simps)
    next
      case False
      then have "r = Some False" using t by (cases r) auto
      then show ?thesis using t
        by (simp add: wp_bind wp_gets)
          (rule wp_mono [OF released], auto simp: wp_simps map_failed_def intro!: failed split: prod.splits)
    qed
  qed
qed

lemma map_outcome_kept:
  "map_outcome flags n t r u \<Longrightarrow> mapped t = mapped s \<Longrightarrow> bytes t = bytes s \<Longrightarrow> map_outcome flags n s r u"
  unfolding map_outcome_def new_range_def by (auto split: option.splits)

lemma map_failed_outcome:
  assumes "mm_inv s" "kept s t"
  shows "wp (do { x \<leftarrow> map_failed e; State_Monad.return (Some x) }) (map_outcome flags n s) t"
  using kept_inv [OF assms(1), of "t\<lparr>errno := e\<rparr>"] assms(2)
  by (simp add: map_failed_def wp_simps map_outcome_def kept_def)

lemma kept_trans: "kept s t \<Longrightarrow> kept t u \<Longrightarrow> kept s u"
  by (simp add: kept_def)

text \<open>The three allocations: the record's two, and the block itself, which is fresh.\<close>

lemma allocated:
  fixes s :: "'k mspace"
  assumes f: "\<And>item al memory t. kept s t \<Longrightarrow> bytes t = bytes s \<Longrightarrow>
      memory = 0 \<or> (\<exists>w. memory = ret (fst (os (Call ''malloc'' [Num n]) w))) \<Longrightarrow> wp (f item al memory) Q t"
  shows "wp (do {
      item \<leftarrow> calli os ''calloc'' [Num 1, Num 32];
      al \<leftarrow> calli os ''calloc'' [Num 1, Num 16];
      memory \<leftarrow> (if item \<noteq> 0 \<and> al \<noteq> 0 then calli os ''malloc'' [Num n] else State_Monad.return 0);
      f item al memory
    }) Q s"
proof (intro wp_bindI [OF kept_calli])
  fix item al t u
  assume t: "kept s t \<and> bytes t = bytes s \<and> (\<exists>w. item = ret (fst (os (Call ''calloc'' [Num 1, Num 32]) w)))"
    and u: "kept t u \<and> bytes u = bytes t \<and> (\<exists>w. al = ret (fst (os (Call ''calloc'' [Num 1, Num 16]) w)))"
  have su: "kept s u" "bytes u = bytes s" using t u kept_trans by auto
  have "wp (if item \<noteq> 0 \<and> al \<noteq> 0 then calli os ''malloc'' [Num n] else State_Monad.return 0)
      (\<lambda>m v. kept u v \<and> bytes v = bytes u \<and> (m = 0 \<or> (\<exists>w. m = ret (fst (os (Call ''malloc'' [Num n]) w))))) u"
    by (auto simp: wp_return kept_def intro!: wp_mono [OF kept_calli])
  then show "wp (do {
      memory \<leftarrow> (if item \<noteq> 0 \<and> al \<noteq> 0 then calli os ''malloc'' [Num n] else State_Monad.return 0);
      f item al memory }) Q u"
    by (rule wp_bindI) (use su kept_trans in \<open>auto intro!: f\<close>)
qed

lemma mmap_run:
  assumes inv: "mm_inv s" and blocks: "fresh_blocks os s"
    and src: "bit flags MAP_ANONYMOUS \<or> reads os \<and> unat len < fuel"
  shows "wp (mmap fuel os len protection flags descriptor offset) (map_outcome flags (unat (PAGE_ROUND len)) s) s"
proof (cases "len = 0 \<or> len > SIZE_MAX - (2 * PAGE - 2) \<or> offset < 0 \<or> offset mod 4096 \<noteq> 0 \<or>
    bit flags MAP_FIXED \<or> bit flags MAP_SHARED \<or> bit protection PROT_EXEC")
  case True
  then obtain e where eq: "mmap fuel os len protection flags descriptor offset =
      do { x \<leftarrow> map_failed e; State_Monad.return (Some x) }"
    unfolding mmap_def by (metis (full_types))
  show ?thesis unfolding eq using map_failed_outcome [OF inv] by (simp add: kept_def)
next
  case False
  let ?n = "PAGE_ROUND len"
  let ?f = "\<lambda>item al memory. if memory = 0 then do {
      _ \<leftarrow> call os ''free'' [Num item];
      _ \<leftarrow> call os ''free'' [Num al];
      x \<leftarrow> map_failed ENOMEM;
      State_Monad.return (Some x)
    } else map_block fuel os item memory ?n len flags descriptor offset"
  have len: "unat len + 8190 < 2 ^ 64" "0 < unat len"
    using False by (simp_all add: word_less_nat_alt not_less unat_gt_0)
  then have n: "unat ?n = (unat len + 4095) div 4096 * 4096" by (simp add: unat_PAGE_ROUND)
  then have size: "unat ?n mod 4096 = 0" "0 < unat ?n" using len(2) by simp_all
  have "unat ?n \<le> unat len + 4095" unfolding n by (rule page_up)
  then have ext: "unat (?n + PAGE - 1) = unat ?n + 4095" using len(1) by (simp add: unat_word_ariths)
  have eq: "mmap fuel os len protection flags descriptor offset = do {
      item \<leftarrow> calli os ''calloc'' [Num 1, Num 32];
      al \<leftarrow> calli os ''calloc'' [Num 1, Num 16];
      memory \<leftarrow> (if item \<noteq> 0 \<and> al \<noteq> 0 then calli os ''malloc'' [Num (uint (?n + PAGE - 1))]
                 else State_Monad.return 0);
      ?f item al memory
    }"
    using False unfolding mmap_def Let_def by simp
  show ?thesis
    unfolding eq
  proof (rule allocated)
    fix item al memory t
    assume t: "kept s t" "bytes t = bytes s"
      and mem: "memory = 0 \<or> (\<exists>w. memory = ret (fst (os (Call ''malloc'' [Num (uint (?n + PAGE - 1))]) w)))"
    show "wp (?f item al memory) (map_outcome flags (unat ?n) s) t"
    proof (cases "memory = 0")
      case True
      have "wp (do { _ \<leftarrow> call os ''free'' [Num item]; _ \<leftarrow> call os ''free'' [Num al];
          x \<leftarrow> map_failed ENOMEM; State_Monad.return (Some x) }) (map_outcome flags (unat ?n) s) t"
        using t(1) by (intro wp_bindI [OF kept_call] map_failed_outcome [OF inv]) (auto simp: kept_def)
      then show ?thesis using True by simp
    next
      case False
      have u: "uint (?n + PAGE - 1) = int (unat ?n + 4095)" using ext by (simp only: uint_nat)
      obtain w where w: "memory = ret (fst (os (Call ''malloc'' [Num (int (unat ?n + 4095))]) w))"
        using mem False unfolding u by blast
      then have m: "0 < memory" "memory + int (unat ?n + 4095) < 2 ^ 64"
          "\<forall>k al. allocations s k = Some al \<longrightarrow> {nat memory..<nat (memory + int (unat ?n + 4095))} \<inter>
            {unat (block al)..<unat (block al) + extent al} = {}"
        using blocks False unfolding fresh_blocks_def Let_def by blast+
      have nat: "nat (memory + int (unat ?n + 4095)) = nat memory + (unat ?n + 4095)"
        using m(1) by (simp only: nat_add_distrib less_imp_le nat_int of_nat_0_le_iff)
      have "nat memory + (unat ?n + 4095) < 2 ^ 64" using m(2) unfolding nat [symmetric] nat_less_numeral_power_cancel_iff .
      then have "wp (map_block fuel os item memory ?n len flags descriptor offset) (map_outcome flags (unat ?n) t) t"
        using m(3) t kept_inv [OF inv, of t] src
        by (intro map_block_run [OF _ size m(1)]) (simp_all only: kept_def nat order_refl)
      then show ?thesis
        using False t kept_inv [OF inv, of t] by (auto simp: kept_def intro: wp_mono map_outcome_kept)
    qed
  qed
qed


subsection \<open>Residency\<close>

lemma next_page: "a mod 4096 = 0 \<Longrightarrow> b mod 4096 = 0 \<Longrightarrow> a < b \<Longrightarrow> a + 4096 \<le> b" for a b :: nat
  by (auto simp: mod_eq_0_iff_dvd elim!: dvdE)

lemma page_count: "i < n div 4096 + (if n mod 4096 \<noteq> 0 then 1 else 0) \<longleftrightarrow> i * 4096 < n" for n :: nat
proof -
  have "n = n div 4096 * 4096 + n mod 4096" "n mod 4096 < 4096" by simp_all
  then show ?thesis by (cases "n mod 4096 = 0"; simp only: simp_thms if_True if_False; intro iffI; linarith)
qed

lemma span_page:
  assumes "mapping_ok it" "unat a mod 4096 = 0"
  shows "base it \<le> a \<and> a - base it < msize it \<and> PAGE \<le> msize it - (a - base it) \<longleftrightarrow> unat a \<in> span it"
proof -
  have ok: "lo it mod 4096 = 0" "hi it mod 4096 = 0" using assms(1) by (auto simp: mapping_ok_def)
  have page: "lo it \<le> unat a \<Longrightarrow> unat a < hi it \<Longrightarrow> unat a + 4096 \<le> hi it" using ok assms(2) by (intro next_page)
  have sub: "unat (a - base it) = unat a - lo it" if "lo it \<le> unat a"
    using that by (simp add: lo_def unat_sub word_le_nat_alt)
  have "unat (msize it - (a - base it)) = hi it - unat a" if "lo it \<le> unat a" "unat a < hi it"
    using that sub by (simp add: lo_def hi_def unat_sub word_le_nat_alt)
  then show ?thesis
    using sub page by (auto simp: span_def word_le_nat_alt word_less_nat_alt lo_def hi_def)
qed

lemma containing_page:
  "mm_inv s \<Longrightarrow> unat a mod 4096 = 0 \<Longrightarrow> containing (mappings s) a PAGE = None \<longleftrightarrow> unat a \<notin> mapped s"
  unfolding containing_def find_None_iff mapped_def footprint_def
  by (auto simp: mm_inv_def simp flip: span_page)

lemma mapped_page:
  assumes "mm_inv s" "a mod 4096 = 0" "a \<le> x" "x < a + 4096"
  shows "x \<in> mapped s \<longleftrightarrow> a \<in> mapped s"
proof -
  have "x \<in> span it \<longleftrightarrow> a \<in> span it" if "it \<in> set (mappings s)" for it
  proof -
    have "lo it mod 4096 = 0" "hi it mod 4096 = 0" using assms(1) that by (auto simp: mm_inv_def mapping_ok_def)
    then have "a < lo it \<Longrightarrow> a + 4096 \<le> lo it" "a < hi it \<Longrightarrow> a + 4096 \<le> hi it"
      using next_page [OF assms(2)] by simp_all
    then have "lo it \<le> x \<longleftrightarrow> lo it \<le> a" "x < hi it \<longleftrightarrow> a < hi it" using assms(3,4) by linarith+
    then show ?thesis by (simp add: span_def)
  qed
  then show ?thesis by (auto simp: mapped_def footprint_def)
qed

lemma mapped_pages:
  assumes "mm_inv s" "a mod 4096 = 0"
  shows "(\<forall>i. i * 4096 < n \<longrightarrow> a + i * 4096 \<in> mapped s) \<longleftrightarrow> {a..<a + n} \<subseteq> mapped s"
proof -
  have page: "x \<in> mapped s \<longleftrightarrow> a + (x - a) div 4096 * 4096 \<in> mapped s" if "a \<le> x" for x
  proof (rule mapped_page [OF assms(1)])
    show "(a + (x - a) div 4096 * 4096) mod 4096 = 0" using assms(2) by simp
    show "a + (x - a) div 4096 * 4096 \<le> x" "x < a + (x - a) div 4096 * 4096 + 4096"
      using that div_times_less_eq_dividend [of "x - a" 4096] dividend_less_div_times [of 4096 "x - a"] by linarith+
  qed
  have "(x - a) div 4096 * 4096 < n" if "x \<in> {a..<a + n}" for x
    using that div_times_less_eq_dividend [of "x - a" 4096] by (auto simp: less_diff_conv2)
  then have "{a..<a + n} \<subseteq> mapped s" if "\<forall>i. i * 4096 < n \<longrightarrow> a + i * 4096 \<in> mapped s"
    using that page by (meson atLeastLessThan_iff subsetI)
  moreover have "a + i * 4096 \<in> mapped s" if "{a..<a + n} \<subseteq> mapped s" "i * 4096 < n" for i
    using that by auto
  ultimately show ?thesis by blast
qed

text \<open>
  C37. \<^verbatim>\<open>mincore\<close> succeeds exactly when every byte of the range is mapped, although it walks the list once
  per page and never joins adjacent mappings. Otherwise it fails with \<open>ENOMEM\<close> and leaves the vector as it
  was.
\<close>
theorem mincore_exact:
  assumes "mm_inv s" "\<not> unaligned start" "unat start + unat len + 4095 < 2 ^ 64"
    "run_state (mincore start len vector) s = (rc, t)"
  shows "if {unat start..<unat start + unat len} \<subseteq> mapped s then rc = 0
    else rc = -1 \<and> errno t = ENOMEM \<and> bytes t = bytes s"
proof -
  let ?n = "unat len div 4096 + (if unat len mod 4096 \<noteq> 0 then 1 else 0)"
  have start: "unat start mod 4096 = 0" using assms(2) by (simp add: unaligned_unat)
  have at: "unat (start + of_nat i * PAGE) = unat start + i * 4096" if "i < ?n" for i
  proof -
    have "i * 4096 < unat len" using that page_count by blast
    then have "unat start + i * 4096 < 2 ^ 64" using assms(3) by linarith
    then show ?thesis by (simp add: unat_word_ariths unat_of_nat)
  qed
  have "containing (mappings s) (start + of_nat i * PAGE) PAGE = None \<longleftrightarrow> unat start + i * 4096 \<notin> mapped s"
    if "i < ?n" for i
    using containing_page [OF assms(1), of "start + of_nat i * PAGE"] at [OF that] start
    by (simp add: mod_add_eq [symmetric])
  then have "list_ex (\<lambda>i. containing (mappings s) (start + of_nat i * PAGE) PAGE = None) [0..<?n] \<longleftrightarrow>
      \<not> {unat start..<unat start + unat len} \<subseteq> mapped s"
    unfolding mapped_pages [OF assms(1) start, symmetric] list_ex_iff page_count [symmetric] by auto
  then show ?thesis
    using assms(2,4) unfolding mincore_def Let_def
    by (auto simp: gets_def State_Monad.bind_def State_Monad.return_def fail_def set_errno_def store_def split: if_splits prod.splits)
qed

subsection \<open>Instances\<close>

text \<open>An allocator with one block to give, and an address space with one mapping of three pages.\<close>

definition sample_os :: "unit os" where
  "sample_os c w = (\<lparr>ret = (if cname c = ''malloc'' then if cargs c = [Num 8191] then 100000 else 0
     else if cname c = ''calloc'' then 1 else 0), err = 0, nums = [], payload = []\<rparr>, w)"

definition sample_space :: "unit mspace" where
  "sample_space = \<lparr>world = (), errno = 0, trace = [],
     mappings = [\<lparr>base = 8192, msize = 12288, owner = 0\<rparr>],
     allocations = [0 \<mapsto> \<lparr>block = 8000, references = 1, extent = 16383\<rparr>], unused = 1, bytes = \<lambda>_. 7\<rparr>"

lemmas run_defs = sample_space_def sample_os_def gets_def State_Monad.bind_def State_Monad.return_def
  State_Monad.update_def State_Monad.get_def State_Monad.set_def unaligned_def PAGE_ROUND_def calli_def call_def

lemma sample_inv: "mm_inv sample_space"
  by (simp add: mm_inv_def sample_space_def mapping_ok_def lo_def hi_def inside_def span_def refs_def)

lemma range_diff: "c \<le> d \<Longrightarrow> ({a..<b} :: nat set) - {c..<d} = {a..<min b c} \<union> {max a d..<b}"
  by auto

lemma sample_mapped: "mapped sample_space = {8192..<20480}"
  by (simp add: sample_space_def mapped_def span_def lo_def hi_def del: atLeastLessThan_nat_numeral)

theorem munmap_refines_witness:
  "mapped (snd (run_state (munmap sample_os 12288 1) sample_space)) = {8192..<12288} \<union> {16384..<20480}"
proof -
  have "fst (run_state (munmap sample_os 12288 1) sample_space) = 0"
    by (simp add: munmap_def add_reference_def run_defs)
  then have "mapped (snd (run_state (munmap sample_os 12288 1) sample_space)) =
      mapped sample_space - {unat (12288 :: u64)..<unat (12288 :: u64) + unat (PAGE_ROUND 1)}"
    using munmap_refines [OF sample_inv surjective_pairing, of sample_os 12288 1] by linarith
  moreover have "PAGE_ROUND 1 = 4096" by code_simp
  ultimately show ?thesis unfolding sample_mapped by (simp add: range_diff del: atLeastLessThan_nat_numeral)
qed


theorem mincore_exact_witness:
  "fst (run_state (mincore 12288 5000 0) sample_space) = 0 \<and> fst (run_state (mincore 12288 9000 0) sample_space) = -1"
proof -
  have al: "\<not> unaligned 12288" by code_simp
  have "{unat (12288 :: u64)..<unat (12288 :: u64) + unat (5000 :: u64)} \<subseteq> mapped sample_space"
    "\<not> {unat (12288 :: u64)..<unat (12288 :: u64) + unat (9000 :: u64)} \<subseteq> mapped sample_space"
    unfolding sample_mapped by (simp_all add: ivl_subset del: atLeastLessThan_nat_numeral)
  then show ?thesis
    using mincore_exact [OF sample_inv al _ surjective_pairing, of 5000 0]
      mincore_exact [OF sample_inv al _ surjective_pairing, of 9000 0] by (simp del: atLeastLessThan_nat_numeral)
qed

end
