(* ===== verification/Sandbox_Filter.thy ===== *)
theory Sandbox_Filter
  imports Os_Monad
begin

text \<open>
  The seccomp filter QEMU runs under, \<^verbatim>\<open>socket_filter\<close> of \<^verbatim>\<open>src/src/sandbox_host.c\<close>
  (x86-64). The program is the source's list of instructions; the kernel's filter machine is the
  parameter \<open>exec\<close>, of which \<open>cbpf_machine\<close> states the documented effect of the five instructions the
  program uses. The property says which verdict every system call gets, so that it depends on no jump
  offset.
\<close>

unbundle bit_operations_syntax

subsection \<open>Instructions and the data they inspect\<close>

record sock_filter =
  code :: u16
  jt :: byte
  jf :: byte
  imm :: u32

record seccomp_data =
  nr :: u32
  arch :: u32
  instruction_pointer :: u64
  args :: "u64 list"

definition BPF_STMT :: "u16 \<Rightarrow> u32 \<Rightarrow> sock_filter" where
  "BPF_STMT c x = \<lparr>code = c, jt = 0, jf = 0, imm = x\<rparr>"

definition BPF_JUMP :: "u16 \<Rightarrow> u32 \<Rightarrow> byte \<Rightarrow> byte \<Rightarrow> sock_filter" where
  "BPF_JUMP c x t f = \<lparr>code = c, jt = t, jf = f, imm = x\<rparr>"

text \<open>The operation codes \<^verbatim>\<open>BPF_LD | BPF_W | BPF_ABS\<close> and so on, combined as the source does.\<close>

abbreviation (input) LD_W_ABS :: u16 where "LD_W_ABS \<equiv> 0x20"
abbreviation (input) JMP_JEQ_K :: u16 where "JMP_JEQ_K \<equiv> 0x15"
abbreviation (input) JMP_JGE_K :: u16 where "JMP_JGE_K \<equiv> 0x35"
abbreviation (input) ALU_AND_K :: u16 where "ALU_AND_K \<equiv> 0x54"
abbreviation (input) RET_K :: u16 where "RET_K \<equiv> 0x06"

abbreviation (input) SECCOMP_RET_ALLOW :: u32 where "SECCOMP_RET_ALLOW \<equiv> 0x7FFF0000"
abbreviation (input) SECCOMP_RET_ERRNO :: u32 where "SECCOMP_RET_ERRNO \<equiv> 0x00050000"
abbreviation (input) SECCOMP_RET_DATA :: u32 where "SECCOMP_RET_DATA \<equiv> 0x0000FFFF"
abbreviation (input) SB_AUDIT_ARCH :: u32 where "SB_AUDIT_ARCH \<equiv> 0xC000003E"
abbreviation (input) NR_socket :: u32 where "NR_socket \<equiv> 41"
abbreviation (input) NR_socketpair :: u32 where "NR_socketpair \<equiv> 53"
abbreviation (input) NR_io_uring_setup :: u32 where "NR_io_uring_setup \<equiv> 425"
abbreviation (input) AF_UNIX :: u32 where "AF_UNIX \<equiv> 1"
abbreviation (input) AF_INET :: u32 where "AF_INET \<equiv> 2"
abbreviation (input) AF_INET6 :: u32 where "AF_INET6 \<equiv> 10"
abbreviation (input) SOCK_STREAM :: u32 where "SOCK_STREAM \<equiv> 1"
abbreviation (input) SOCK_SEQPACKET :: u32 where "SOCK_SEQPACKET \<equiv> 5"
abbreviation (input) SOCK_CLOEXEC :: u32 where "SOCK_CLOEXEC \<equiv> 0x80000"
abbreviation (input) SOCK_NONBLOCK :: u32 where "SOCK_NONBLOCK \<equiv> 0x800"

definition SB_DENY :: "int \<Rightarrow> sock_filter" where
  "SB_DENY e = BPF_STMT RET_K (SECCOMP_RET_ERRNO OR (word_of_int e AND SECCOMP_RET_DATA))"

text \<open>The offsets of the fields in \<^verbatim>\<open>struct seccomp_data\<close>.\<close>

abbreviation (input) offset_nr :: u32 where "offset_nr \<equiv> 0"
abbreviation (input) offset_arch :: u32 where "offset_arch \<equiv> 4"
abbreviation (input) offset_arg0 :: u32 where "offset_arg0 \<equiv> 16"
abbreviation (input) offset_arg1 :: u32 where "offset_arg1 \<equiv> 24"

definition socket_filter :: "bool \<Rightarrow> sock_filter list" where
  "socket_filter network = [
     BPF_STMT LD_W_ABS offset_arch,
     BPF_JUMP JMP_JEQ_K SB_AUDIT_ARCH 1 0,
     SB_DENY ENOSYS,
     BPF_STMT LD_W_ABS offset_nr,
     BPF_JUMP JMP_JGE_K 0x40000000 0 1,
     SB_DENY ENOSYS,
     BPF_JUMP JMP_JEQ_K NR_io_uring_setup 0 1,
     SB_DENY ENOSYS,
     BPF_JUMP JMP_JEQ_K NR_socket 2 0,
     BPF_JUMP JMP_JEQ_K NR_socketpair 6 0,
     BPF_STMT RET_K SECCOMP_RET_ALLOW,
     BPF_STMT LD_W_ABS offset_arg0,
     BPF_JUMP JMP_JEQ_K AF_INET 2 0,
     BPF_JUMP JMP_JEQ_K AF_INET6 1 0,
     SB_DENY EAFNOSUPPORT,
     (if network then BPF_STMT RET_K SECCOMP_RET_ALLOW else SB_DENY EAFNOSUPPORT),
     BPF_STMT LD_W_ABS offset_arg0,
     BPF_JUMP JMP_JEQ_K AF_UNIX 1 0,
     SB_DENY EAFNOSUPPORT,
     BPF_STMT LD_W_ABS offset_arg1,
     BPF_STMT ALU_AND_K (NOT (SOCK_CLOEXEC OR SOCK_NONBLOCK)),
     BPF_JUMP JMP_JEQ_K SOCK_STREAM 1 0,
     BPF_JUMP JMP_JEQ_K SOCK_SEQPACKET 0 1,
     BPF_STMT RET_K SECCOMP_RET_ALLOW,
     SB_DENY ESOCKTNOSUPPORT]"

definition install_socket_filter :: "'w os \<Rightarrow> bool \<Rightarrow> (('w, 'z) os_state_scheme, int) state" where
  "install_socket_filter os network = calli os ''prctl'' [Num 22, Num 2,
     Nums (concat (map (\<lambda>i. [uint (code i), uint (jt i), uint (jf i), uint (imm i)]) (socket_filter network)))]"

subsection \<open>The filter machine\<close>

text \<open>
  \<open>exec prog pc a d\<close> is the verdict of the kernel when it continues \<open>prog\<close> at \<open>pc\<close> with the
  accumulator \<open>a\<close> on the data \<open>d\<close>. Loads read a 32-bit word of the little-endian structure.
\<close>

definition data_word :: "seccomp_data \<Rightarrow> u32 \<Rightarrow> u32" where
  "data_word d off =
     (if off = offset_nr then nr d
      else if off = offset_arch then arch d
      else if off = 8 then ucast (instruction_pointer d)
      else if off = 12 then ucast (drop_bit 32 (instruction_pointer d))
      else let a = args d ! ((unat off - 16) div 8)
        in if unat off mod 8 = 0 then ucast a else ucast (drop_bit 32 a))"

definition cbpf_machine :: "(sock_filter list \<Rightarrow> nat \<Rightarrow> u32 \<Rightarrow> seccomp_data \<Rightarrow> u32) \<Rightarrow> bool" where
  "cbpf_machine exec \<longleftrightarrow> (\<forall>prog pc a d. pc < length prog \<longrightarrow>
     (code (prog ! pc) = RET_K \<longrightarrow> exec prog pc a d = imm (prog ! pc)) \<and>
     (code (prog ! pc) = LD_W_ABS \<longrightarrow> exec prog pc a d = exec prog (pc + 1) (data_word d (imm (prog ! pc))) d) \<and>
     (code (prog ! pc) = ALU_AND_K \<longrightarrow> exec prog pc a d = exec prog (pc + 1) (a AND imm (prog ! pc)) d) \<and>
     (code (prog ! pc) = JMP_JEQ_K \<longrightarrow> exec prog pc a d =
        exec prog (pc + 1 + unat (if a = imm (prog ! pc) then jt (prog ! pc) else jf (prog ! pc))) a d) \<and>
     (code (prog ! pc) = JMP_JGE_K \<longrightarrow> exec prog pc a d =
        exec prog (pc + 1 + unat (if imm (prog ! pc) \<le> a then jt (prog ! pc) else jf (prog ! pc))) a d))"

lemma cbpf_rules:
  assumes "cbpf_machine exec" "pc < length prog"
  shows "code (prog ! pc) = RET_K \<Longrightarrow> exec prog pc a d = imm (prog ! pc)"
    "code (prog ! pc) = LD_W_ABS \<Longrightarrow> exec prog pc a d = exec prog (Suc pc) (data_word d (imm (prog ! pc))) d"
    "code (prog ! pc) = ALU_AND_K \<Longrightarrow> exec prog pc a d = exec prog (Suc pc) (a AND imm (prog ! pc)) d"
    "code (prog ! pc) = JMP_JEQ_K \<Longrightarrow> exec prog pc a d = (if a = imm (prog ! pc)
       then exec prog (Suc pc + unat (jt (prog ! pc))) a d else exec prog (Suc pc + unat (jf (prog ! pc))) a d)"
    "code (prog ! pc) = JMP_JGE_K \<Longrightarrow> exec prog pc a d = (if imm (prog ! pc) \<le> a
       then exec prog (Suc pc + unat (jt (prog ! pc))) a d else exec prog (Suc pc + unat (jf (prog ! pc))) a d)"
  using assms by (simp_all add: cbpf_machine_def)

subsection \<open>The verdicts\<close>

definition denied :: "int \<Rightarrow> u32" where
  "denied e = SECCOMP_RET_ERRNO OR (word_of_int e AND SECCOMP_RET_DATA)"

definition family :: "seccomp_data \<Rightarrow> u32" where "family d = ucast (args d ! 0)"

definition socket_type :: "seccomp_data \<Rightarrow> u32" where
  "socket_type d = ucast (args d ! 1) AND NOT (SOCK_CLOEXEC OR SOCK_NONBLOCK)"

definition verdict :: "bool \<Rightarrow> seccomp_data \<Rightarrow> u32" where
  "verdict network d =
     (if arch d \<noteq> SB_AUDIT_ARCH \<or> 0x40000000 \<le> nr d \<or> nr d = NR_io_uring_setup then denied ENOSYS
      else if nr d = NR_socket then
        (if network \<and> family d \<in> {AF_INET, AF_INET6} then SECCOMP_RET_ALLOW else denied EAFNOSUPPORT)
      else if nr d = NR_socketpair then
        (if family d \<noteq> AF_UNIX then denied EAFNOSUPPORT
         else if socket_type d \<in> {SOCK_STREAM, SOCK_SEQPACKET} then SECCOMP_RET_ALLOW else denied ESOCKTNOSUPPORT)
      else SECCOMP_RET_ALLOW)"

lemma filter_length: "length (socket_filter network) = 25"
  by (simp add: socket_filter_def)

lemma filter_nth:
  shows "socket_filter network ! 0 = BPF_STMT LD_W_ABS offset_arch"
    "socket_filter network ! Suc 0 = BPF_JUMP JMP_JEQ_K SB_AUDIT_ARCH 1 0"
    "socket_filter network ! 2 = SB_DENY ENOSYS"
    "socket_filter network ! 3 = BPF_STMT LD_W_ABS offset_nr"
    "socket_filter network ! 4 = BPF_JUMP JMP_JGE_K 0x40000000 0 1"
    "socket_filter network ! 5 = SB_DENY ENOSYS"
    "socket_filter network ! 6 = BPF_JUMP JMP_JEQ_K NR_io_uring_setup 0 1"
    "socket_filter network ! 7 = SB_DENY ENOSYS"
    "socket_filter network ! 8 = BPF_JUMP JMP_JEQ_K NR_socket 2 0"
    "socket_filter network ! 9 = BPF_JUMP JMP_JEQ_K NR_socketpair 6 0"
    "socket_filter network ! 10 = BPF_STMT RET_K SECCOMP_RET_ALLOW"
    "socket_filter network ! 11 = BPF_STMT LD_W_ABS offset_arg0"
    "socket_filter network ! 12 = BPF_JUMP JMP_JEQ_K AF_INET 2 0"
    "socket_filter network ! 13 = BPF_JUMP JMP_JEQ_K AF_INET6 1 0"
    "socket_filter network ! 14 = SB_DENY EAFNOSUPPORT"
    "socket_filter network ! 15 = (if network then BPF_STMT RET_K SECCOMP_RET_ALLOW else SB_DENY EAFNOSUPPORT)"
    "socket_filter network ! 16 = BPF_STMT LD_W_ABS offset_arg0"
    "socket_filter network ! 17 = BPF_JUMP JMP_JEQ_K AF_UNIX 1 0"
    "socket_filter network ! 18 = SB_DENY EAFNOSUPPORT"
    "socket_filter network ! 19 = BPF_STMT LD_W_ABS offset_arg1"
    "socket_filter network ! 20 = BPF_STMT ALU_AND_K (NOT (SOCK_CLOEXEC OR SOCK_NONBLOCK))"
    "socket_filter network ! 21 = BPF_JUMP JMP_JEQ_K SOCK_STREAM 1 0"
    "socket_filter network ! 22 = BPF_JUMP JMP_JEQ_K SOCK_SEQPACKET 0 1"
    "socket_filter network ! 23 = BPF_STMT RET_K SECCOMP_RET_ALLOW"
    "socket_filter network ! 24 = SB_DENY ESOCKTNOSUPPORT"
  by (simp_all add: socket_filter_def)

lemma data_words:
  "data_word d offset_nr = nr d" "data_word d offset_arch = arch d"
  "data_word d offset_arg0 = family d" "data_word d offset_arg1 AND NOT (SOCK_CLOEXEC OR SOCK_NONBLOCK) = socket_type d"
  by (simp_all add: data_word_def family_def socket_type_def)

lemma filter_tail:
  assumes "cbpf_machine exec"
  shows "exec (socket_filter network) 11 a d =
      (if network \<and> family d \<in> {AF_INET, AF_INET6} then SECCOMP_RET_ALLOW else denied EAFNOSUPPORT)"
    "exec (socket_filter network) 16 a d =
      (if family d \<noteq> AF_UNIX then denied EAFNOSUPPORT
       else if socket_type d \<in> {SOCK_STREAM, SOCK_SEQPACKET} then SECCOMP_RET_ALLOW else denied ESOCKTNOSUPPORT)"
  by (simp_all add: cbpf_rules [OF assms] filter_length filter_nth BPF_STMT_def BPF_JUMP_def SB_DENY_def denied_def
      data_words [simplified])

lemma filter_start:
  assumes "cbpf_machine exec"
  shows "exec (socket_filter network) 0 a d =
    (if arch d = SB_AUDIT_ARCH then exec (socket_filter network) 3 (arch d) d else denied ENOSYS)"
  using filter_nth(3) [of network]
  by (simp add: cbpf_rules [OF assms] filter_length filter_nth BPF_STMT_def BPF_JUMP_def SB_DENY_def denied_def
      data_words numeral_2_eq_2 numeral_3_eq_3)

text \<open>
  C7. Whatever system call QEMU makes, the filter gives it the verdict of \<open>verdict\<close>: calls of another
  architecture or of the x32 table and \<^verbatim>\<open>io_uring_setup\<close> fail with \<open>ENOSYS\<close>, \<^verbatim>\<open>socket\<close> creates only
  IPv4 and IPv6 sockets and those only with networking, \<^verbatim>\<open>socketpair\<close> only connection-mode UNIX pairs,
  and every other call is allowed. The upper halves of the arguments do not matter.
\<close>
theorem socket_filter_verdict:
  assumes "cbpf_machine exec"
  shows "exec (socket_filter network) 0 0 d = verdict network d"
  unfolding filter_start [OF assms]
  by (simp add: cbpf_rules [OF assms] filter_length filter_nth filter_tail [OF assms] verdict_def
      BPF_STMT_def BPF_JUMP_def SB_DENY_def denied_def data_words)

text \<open>A machine with the documented behaviour.\<close>

function sample_machine :: "sock_filter list \<Rightarrow> nat \<Rightarrow> u32 \<Rightarrow> seccomp_data \<Rightarrow> u32" where
  "sample_machine prog pc a d =
     (if pc \<ge> length prog then 0
      else let i = prog ! pc in
        if code i = RET_K then imm i
        else if code i = LD_W_ABS then sample_machine prog (pc + 1) (data_word d (imm i)) d
        else if code i = ALU_AND_K then sample_machine prog (pc + 1) (a AND imm i) d
        else if code i = JMP_JEQ_K then sample_machine prog (pc + 1 + unat (if a = imm i then jt i else jf i)) a d
        else if code i = JMP_JGE_K then sample_machine prog (pc + 1 + unat (if imm i \<le> a then jt i else jf i)) a d
        else 0)"
  by auto
termination by (relation "measure (\<lambda>(prog, pc, _). length prog - pc)") auto

declare sample_machine.simps [simp del]

lemma sample_cbpf: "cbpf_machine sample_machine"
  unfolding cbpf_machine_def by (auto simp: sample_machine.simps Let_def)

theorem socket_filter_verdict_witness:
  "sample_machine (socket_filter True) 0 0
     \<lparr>nr = NR_socket, arch = SB_AUDIT_ARCH, instruction_pointer = 0, args = [0xFFFFFFFF00000001, 1, 0, 0, 0, 0]\<rparr> =
   SECCOMP_RET_ERRNO OR 97"
  unfolding socket_filter_verdict [OF sample_cbpf] by code_simp

end
