(* ===== verification/Sandbox_Paths.thy ===== *)
theory Sandbox_Paths
  imports Os_Monad "HOL-Library.Sublist"
begin

text \<open>
  How sandbox mode keeps its private files outside the shared folder, from
  \<^verbatim>\<open>src/src/sandbox_host.c\<close>: option numbers, the identity of the installed system, dropped
  privileges, the ancestor walk, the mount table and the choice of the runtime directory. Paths are
  shown to be compared by components and mount aliases to be found exactly.
\<close>

unbundle bit_operations_syntax

subsection \<open>Flags and C strings\<close>

abbreviation (input) O_RDONLY :: int where "O_RDONLY \<equiv> 0"
abbreviation (input) O_WRONLY :: int where "O_WRONLY \<equiv> 1"
abbreviation (input) O_RDWR :: int where "O_RDWR \<equiv> 2"
abbreviation (input) O_CREAT :: int where "O_CREAT \<equiv> 0x40"
abbreviation (input) O_EXCL :: int where "O_EXCL \<equiv> 0x80"
abbreviation (input) O_NOCTTY :: int where "O_NOCTTY \<equiv> 0x100"
abbreviation (input) O_APPEND :: int where "O_APPEND \<equiv> 0x400"
abbreviation (input) O_DIRECTORY :: int where "O_DIRECTORY \<equiv> 0x10000"
abbreviation (input) O_NOFOLLOW :: int where "O_NOFOLLOW \<equiv> 0x20000"
abbreviation (input) O_CLOEXEC :: int where "O_CLOEXEC \<equiv> 0x80000"
abbreviation (input) O_PATH :: int where "O_PATH \<equiv> 0x200000"
abbreviation (input) PATH_MAX :: nat where "PATH_MAX \<equiv> 4096"
abbreviation (input) UINT_MAX :: nat where "UINT_MAX \<equiv> 0xFFFFFFFF"

definition ctext :: "byte list \<Rightarrow> string" where
  "ctext bs = map (\<lambda>b. char_of (unat b)) (takeWhile (\<lambda>b. b \<noteq> 0) bs)"

text \<open>What \<^verbatim>\<open>fstat\<close> and \<^verbatim>\<open>stat\<close> report, in this order, as the numbers of the result.\<close>

definition st_dev :: "osret \<Rightarrow> int" where "st_dev r = nums r ! 0"
definition st_ino :: "osret \<Rightarrow> int" where "st_ino r = nums r ! 1"
definition st_mode :: "osret \<Rightarrow> int" where "st_mode r = nums r ! 2"
definition st_uid :: "osret \<Rightarrow> int" where "st_uid r = nums r ! 3"
definition st_size :: "osret \<Rightarrow> int" where "st_size r = nums r ! 4"
definition st_rdev :: "osret \<Rightarrow> int" where "st_rdev r = nums r ! 5"

definition file_type :: "osret \<Rightarrow> int" where "file_type r = st_mode r AND 0xF000"

abbreviation (input) S_IFREG :: int where "S_IFREG \<equiv> 0x8000"
abbreviation (input) S_IFDIR :: int where "S_IFDIR \<equiv> 0x4000"
abbreviation (input) S_IFBLK :: int where "S_IFBLK \<equiv> 0x6000"
abbreviation (input) S_IFIFO :: int where "S_IFIFO \<equiv> 0x1000"
abbreviation (input) S_IFSOCK :: int where "S_IFSOCK \<equiv> 0xC000"

subsection \<open>Numbers\<close>

primrec number_loop :: "nat \<Rightarrow> nat \<Rightarrow> string \<Rightarrow> nat option" where
  "number_loop maximum n [] = Some n"
| "number_loop maximum n (c # cs) =
     (if \<not> is_digit c \<or> n > maximum div 10 then None
      else let n = n * 10 + digit_value c in
        if n > maximum then None else number_loop maximum n cs)"

definition sandbox_number :: "string \<Rightarrow> nat \<Rightarrow> nat \<Rightarrow> nat option" where
  "sandbox_number text minimum maximum =
     (if text = [] then None
      else case number_loop maximum 0 text of
        None \<Rightarrow> None
      | Some n \<Rightarrow> if n < minimum then None else Some n)"

subsection \<open>The installed system\<close>

text \<open>
  \<^verbatim>\<open>fgets\<close> is a call: its payload is the line with its newline, and 0 its return value at the end of
  the file. A line of 511 bytes without a newline before the end of the file is too long.
\<close>

definition os_names :: "string list" where
  "os_names = (let name = ''linux-bash-os'' in
     [name, [CHR 0x22] @ name @ [CHR 0x22], [CHR 0x27] @ name @ [CHR 0x27]])"

primrec identity_lines :: "nat \<Rightarrow> 'w os \<Rightarrow> int \<Rightarrow> bool \<Rightarrow> bool \<Rightarrow> (('w, 'z) os_state_scheme, bool option) state" where
  "identity_lines 0 os file matched seen = State_Monad.return None"
| "identity_lines (Suc fuel) os file matched seen = do {
     r \<leftarrow> call os ''fgets'' [Num file, Num 512];
     if ret r = 0 then do {
       e \<leftarrow> calli os ''ferror'' [Num file];
       State_Monad.return (Some (e = 0 \<and> matched))
     } else do {
       let line = ctext (payload r);
       whole \<leftarrow> (if CHR 0x0A \<in> set line then State_Monad.return 1 else calli os ''feof'' [Num file]);
       if whole = 0 then State_Monad.return (Some False)
       else let line = takeWhile (\<lambda>c. c \<notin> {CHR 0x0D, CHR 0x0A}) line in
         if prefix ''ID='' line then
           (if seen then State_Monad.return (Some False)
            else identity_lines fuel os file (drop 3 line \<in> set os_names) True)
         else identity_lines fuel os file matched seen
     }
   }"

definition os_identity :: "nat \<Rightarrow> 'w os \<Rightarrow> int \<Rightarrow> (('w, 'z) os_state_scheme, bool option) state" where
  "os_identity fuel os file = identity_lines fuel os file False False"

definition trusted_file :: "osret \<Rightarrow> bool" where
  "trusted_file r \<longleftrightarrow> ret r = 0 \<and> file_type r = S_IFREG \<and> st_uid r = 0 \<and> st_mode r AND 0x12 = 0 \<and> st_size r \<le> 16384"

primrec installed_in :: "nat \<Rightarrow> 'w os \<Rightarrow> string list \<Rightarrow> (('w, 'z) os_state_scheme, bool option) state" where
  "installed_in fuel os [] = State_Monad.return (Some False)"
| "installed_in fuel os (path # paths) = do {
     fd \<leftarrow> calli os ''open'' [Str path, Num (O_RDONLY OR O_CLOEXEC OR O_NOFOLLOW)];
     if fd < 0 then installed_in fuel os paths
     else do {
       r \<leftarrow> call os ''fstat'' [Fd fd];
       if \<not> trusted_file r then do { _ \<leftarrow> call os ''close'' [Fd fd]; State_Monad.return (Some False) }
       else do {
         file \<leftarrow> calli os ''fdopen'' [Fd fd, Str ''r''];
         if file = -1 then do { _ \<leftarrow> call os ''close'' [Fd fd]; State_Monad.return (Some False) }
         else do {
           result \<leftarrow> os_identity fuel os file;
           _ \<leftarrow> call os ''fclose'' [Num file];
           State_Monad.return result
         }
       }
     }
   }"

definition sandbox_installed_os :: "nat \<Rightarrow> 'w os \<Rightarrow> (('w, 'z) os_state_scheme, bool option) state" where
  "sandbox_installed_os fuel os = installed_in fuel os [''/etc/os-release'', ''/usr/lib/os-release'']"

subsection \<open>Privileges\<close>

definition getenv :: "'w os \<Rightarrow> string \<Rightarrow> (('w, 'z) os_state_scheme, string option) state" where
  "getenv os name = do {
     r \<leftarrow> call os ''getenv'' [Str name];
     State_Monad.return (if ret r = -1 then None else Some (ctext (payload r)))
   }"

definition env_number :: "string option \<Rightarrow> nat option" where
  "env_number text = Option.bind text (\<lambda>t. sandbox_number t 1 (UINT_MAX - 1))"

text \<open>The calls of an \<^verbatim>\<open>||\<close> chain: each is made only when those before it returned 0.\<close>

primrec first_failing :: "(('w, 'z) os_state_scheme, int) state list \<Rightarrow> (('w, 'z) os_state_scheme, bool) state" where
  "first_failing [] = State_Monad.return False"
| "first_failing (m # ms) = do { r \<leftarrow> m; if r \<noteq> 0 then State_Monad.return True else first_failing ms }"

definition drop_sudo :: "'w os \<Rightarrow> (('w, 'z) os_state_scheme, int) state" where
  "drop_sudo os = do {
     euid \<leftarrow> calli os ''geteuid'' [];
     if euid \<noteq> 0 then do {
       uid \<leftarrow> calli os ''getuid'' [];
       euid \<leftarrow> calli os ''geteuid'' [];
       if uid \<noteq> euid then fail EPERM
       else do {
         gid \<leftarrow> calli os ''getgid'' [];
         egid \<leftarrow> calli os ''getegid'' [];
         if gid = egid then State_Monad.return 0 else fail EPERM
       }
     } else do {
       uid_text \<leftarrow> getenv os ''SUDO_UID'';
       gid_text \<leftarrow> getenv os ''SUDO_GID'';
       case (env_number uid_text, env_number gid_text) of
         (Some uid, Some gid) \<Rightarrow> do {
           pw \<leftarrow> call os ''getpwuid'' [Num (int uid)];
           if ret pw = -1 \<or> nums pw ! 0 \<noteq> int gid then fail EPERM
           else do {
             failed \<leftarrow> first_failing [calli os ''prctl'' [Num 8, Num 0],
               calli os ''initgroups'' [Str (ctext (payload pw)), Num (int gid)],
               calli os ''setresgid'' [Num (int gid), Num (int gid), Num (int gid)],
               calli os ''setresuid'' [Num (int uid), Num (int uid), Num (int uid)]];
             State_Monad.return (if failed then -1 else 0)
           }
         }
       | _ \<Rightarrow> do { _ \<leftarrow> call os ''fprintf'' [Num 2]; fail EPERM }
     }
   }"

subsection \<open>Paths\<close>

text \<open>The walk from a directory to the root by \<^verbatim>\<open>..\<close>; \<open>fuel\<close> bounds its depth.\<close>

primrec ancestor_walk :: "nat \<Rightarrow> 'w os \<Rightarrow> osret \<Rightarrow> int \<Rightarrow> (('w, 'z) os_state_scheme, (int \<times> int) option) state" where
  "ancestor_walk 0 os target fd = State_Monad.return None"
| "ancestor_walk (Suc fuel) os target fd = do {
     current \<leftarrow> call os ''fstat'' [Fd fd];
     if ret current \<noteq> 0 then State_Monad.return (Some (-1, fd))
     else if st_dev current = st_dev target \<and> st_ino current = st_ino target then State_Monad.return (Some (1, fd))
     else do {
       up \<leftarrow> calli os ''openat'' [Fd fd, Str ''..'', Num (O_RDONLY OR O_DIRECTORY OR O_CLOEXEC)];
       if up < 0 then State_Monad.return (Some (-1, fd))
       else do {
         parent \<leftarrow> call os ''fstat'' [Fd up];
         if ret parent \<noteq> 0 then do { _ \<leftarrow> call os ''close'' [Fd up]; State_Monad.return (Some (-1, fd)) }
         else do {
           _ \<leftarrow> call os ''close'' [Fd fd];
           if st_dev current = st_dev parent \<and> st_ino current = st_ino parent then State_Monad.return (Some (0, up))
           else ancestor_walk fuel os target up
         }
       }
     }
   }"

definition contains_directory :: "nat \<Rightarrow> 'w os \<Rightarrow> int \<Rightarrow> int \<Rightarrow> (('w, 'z) os_state_scheme, int option) state" where
  "contains_directory fuel os ancestor directory = do {
     target \<leftarrow> call os ''fstat'' [Fd ancestor];
     if ret target \<noteq> 0 then State_Monad.return (Some (-1))
     else do {
       fd \<leftarrow> calli os ''dup'' [Fd directory];
       if fd < 0 then State_Monad.return (Some (-1))
       else do {
         r \<leftarrow> ancestor_walk fuel os target fd;
         case r of
           None \<Rightarrow> State_Monad.return None
         | Some (result, fd) \<Rightarrow> do { _ \<leftarrow> call os ''close'' [Fd fd]; State_Monad.return (Some result) }
       }
     }
   }"

definition path_under :: "string \<Rightarrow> string \<Rightarrow> bool" where
  "path_under path pre =
     (if pre = ''/'' then prefix ''/'' path
      else pre \<noteq> [] \<and> prefix pre path \<and> (length path = length pre \<or> path ! length pre = CHR 0x2F))"

definition is_octal :: "char \<Rightarrow> bool" where
  "is_octal c \<longleftrightarrow> 48 \<le> (of_char c :: nat) \<and> (of_char c :: nat) \<le> 55"

fun mountinfo_unescape :: "string \<Rightarrow> string option" where
  "mountinfo_unescape [] = Some []"
| "mountinfo_unescape (c # cs) =
     (if c \<noteq> CHR 0x5C then map_option (Cons c) (mountinfo_unescape cs)
      else case cs of
        a # b # d # rest \<Rightarrow>
          if \<not> is_octal a \<or> \<not> is_octal b \<or> \<not> is_octal d then None
          else let v = (digit_value a * 8 + digit_value b) * 8 + digit_value d in
            if v = 0 \<or> v > 255 then None else map_option (Cons (char_of v)) (mountinfo_unescape rest)
      | _ \<Rightarrow> None)"

definition join_path :: "nat \<Rightarrow> string \<Rightarrow> string \<Rightarrow> string option" where
  "join_path n base rest =
     (let out = (if base = ''/'' then if rest \<noteq> [] then rest else ''/'' else base @ rest) in
      if length out \<ge> n then None else Some out)"

subsection \<open>The mount table\<close>

record sb_mount =
  mid :: nat
  device :: string
  mroot :: string
  point :: string

text \<open>\<^verbatim>\<open>strtok_r\<close> with a space: the next token, or none, and what follows it.\<close>

definition strtok_r :: "string \<Rightarrow> string option \<times> string" where
  "strtok_r s = (let s = dropWhile (\<lambda>c. c = CHR 0x20) s in
     if s = [] then (None, [])
     else (Some (takeWhile (\<lambda>c. c \<noteq> CHR 0x20) s), drop 1 (dropWhile (\<lambda>c. c \<noteq> CHR 0x20) s)))"

primrec line_tokens :: "nat \<Rightarrow> string \<Rightarrow> string list option" where
  "line_tokens 0 s = Some []"
| "line_tokens (Suc n) s = (case strtok_r s of
     (None, _) \<Rightarrow> None
   | (Some t, rest) \<Rightarrow> map_option (Cons t) (line_tokens n rest))"

text \<open>
  \<^verbatim>\<open>strtoul\<close> in base 10: white space, a sign, digits; the value saturates, a minus sign negates it.
  Without a digit nothing is consumed.
\<close>

definition strtoul :: "string \<Rightarrow> nat \<times> string" where
  "strtoul s = (let
     t = dropWhile (\<lambda>c. c \<in> {CHR 0x20, CHR 0x09, CHR 0x0A, CHR 0x0B, CHR 0x0C, CHR 0x0D}) s;
     negative = (t \<noteq> [] \<and> hd t = CHR 0x2D);
     u = (if t \<noteq> [] \<and> hd t \<in> {CHR 0x2B, CHR 0x2D} then tl t else t);
     digits = takeWhile is_digit u;
     n = foldl (\<lambda>n c. n * 10 + digit_value c) 0 digits;
     v = (if n \<ge> 2 ^ 64 then 2 ^ 64 - 1 else if negative then (2 ^ 64 - n) mod 2 ^ 64 else n)
   in if digits = [] then (0, s) else (v, dropWhile is_digit u))"

text \<open>
  One line of the table: what the loop does with it, and whether it goes on. Memory is released on every
  way out of the function; the model leaves that out. Running out of \<open>fuel\<close> counts as a table that
  could not be read.
\<close>

definition mount_line :: "'w os \<Rightarrow> nat \<Rightarrow> nat \<Rightarrow> string \<Rightarrow> (('w, 'z) os_state_scheme, (nat \<times> sb_mount) option) state" where
  "mount_line os count capacity line =
     (case line_tokens 5 line of
        Some [number, parent, dev, root, pt] \<Rightarrow>
          if length dev \<ge> 32 then State_Monad.return None
          else do {
            let grown = (if count = capacity then if capacity \<noteq> 0 then capacity * 2 else 64 else capacity);
            mounts \<leftarrow> (if count = capacity then calli os ''realloc'' [Num (int grown)] else State_Monad.return 1);
            if mounts = 0 then State_Monad.return None
            else do {
              r \<leftarrow> calli os ''strdup'' [Str root];
              p \<leftarrow> calli os ''strdup'' [Str pt];
              let (n, end) = strtoul number;
              if end \<noteq> [] \<or> r = 0 \<or> p = 0 then State_Monad.return None
              else (case (mountinfo_unescape root, mountinfo_unescape pt) of
                (Some root, Some pt) \<Rightarrow>
                  State_Monad.return (Some (grown, \<lparr>mid = n, device = dev, mroot = root, point = pt\<rparr>))
              | _ \<Rightarrow> State_Monad.return None)
            }
          }
      | _ \<Rightarrow> State_Monad.return None)"

primrec read_mounts :: "nat \<Rightarrow> 'w os \<Rightarrow> nat \<Rightarrow> sb_mount list \<Rightarrow> (('w, 'z) os_state_scheme, sb_mount list option) state" where
  "read_mounts 0 os capacity mounts = State_Monad.return None"
| "read_mounts (Suc fuel) os capacity mounts = do {
     r \<leftarrow> call os ''getline'' [];
     if ret r \<le> 0 then do {
       e \<leftarrow> calli os ''ferror'' [];
       State_Monad.return (if e \<noteq> 0 then None else Some mounts)
     } else do {
       entry \<leftarrow> mount_line os (length mounts) capacity (takeWhile (\<lambda>c. c \<noteq> CHR 0x0A) (ctext (payload r)));
       case entry of
         None \<Rightarrow> State_Monad.return None
       | Some (grown, m) \<Rightarrow> read_mounts fuel os grown (mounts @ [m])
     }
   }"

definition below :: "string \<Rightarrow> string \<Rightarrow> string" where
  "below base path = (if base = ''/'' then path else drop (length base) path)"

primrec alias_scan :: "string \<Rightarrow> string \<Rightarrow> string \<Rightarrow> sb_mount list \<Rightarrow> int" where
  "alias_scan dev location share [] = 0"
| "alias_scan dev location share (m # ms) =
     (if device m \<noteq> dev \<or> \<not> prefix ''/'' (mroot m) \<or> \<not> path_under location (mroot m)
      then alias_scan dev location share ms
      else case join_path (2 * PATH_MAX) (point m) (below (mroot m) location) of
        None \<Rightarrow> -1
      | Some candidate \<Rightarrow> if path_under candidate share then 1 else alias_scan dev location share ms)"

definition mount_decision :: "sb_mount list \<Rightarrow> string \<Rightarrow> string \<Rightarrow> nat \<Rightarrow> int" where
  "mount_decision mounts share target target_mount =
     (case find (\<lambda>m. mid m = target_mount) (rev mounts) of
        None \<Rightarrow> -1
      | Some found \<Rightarrow>
          if \<not> prefix ''/'' (mroot found) \<or> \<not> path_under target (point found) then -1
          else case join_path (2 * PATH_MAX) (mroot found) (below (point found) target) of
            None \<Rightarrow> -1
          | Some location \<Rightarrow> alias_scan (device found) location share mounts)"

definition mount_reachable :: "nat \<Rightarrow> 'w os \<Rightarrow> string \<Rightarrow> string \<Rightarrow> nat \<Rightarrow> (('w, 'z) os_state_scheme, int) state" where
  "mount_reachable fuel os share target target_mount = do {
     mounts \<leftarrow> read_mounts fuel os 0 [];
     State_Monad.return (case mounts of None \<Rightarrow> -1 | Some mounts \<Rightarrow> mount_decision mounts share target target_mount)
   }"

subsection \<open>The runtime directory\<close>

definition fd_link :: "string \<Rightarrow> int \<Rightarrow> string" where
  "fd_link kind fd = ''/proc/self/'' @ kind @ ''/'' @ decimal (nat fd)"

text \<open>\<^verbatim>\<open>sscanf\<close> is a call: it returns 1 and the number when the line has the form.\<close>

primrec mount_id :: "nat \<Rightarrow> 'w os \<Rightarrow> int \<Rightarrow> (('w, 'z) os_state_scheme, nat option) state" where
  "mount_id 0 os info = State_Monad.return None"
| "mount_id (Suc fuel) os info = do {
     r \<leftarrow> call os ''fgets'' [Num info, Num 256];
     if ret r = 0 then State_Monad.return None
     else do {
       n \<leftarrow> call os ''sscanf'' [Str (ctext (payload r)), Str ''mnt_id: %lu''];
       if ret n = 1 then State_Monad.return (Some (nat (nums n ! 0))) else mount_id fuel os info
     }
   }"

definition descriptor_path :: "'w os \<Rightarrow> int \<Rightarrow> (('w, 'z) os_state_scheme, string option) state" where
  "descriptor_path os fd = do {
     r \<leftarrow> call os ''readlink'' [Str (fd_link ''fd'' fd), Num (int PATH_MAX)];
     let path = ctext (take (nat (ret r)) (payload r));
     State_Monad.return (if ret r \<le> 0 \<or> ret r \<ge> int PATH_MAX \<or> \<not> prefix ''/'' path then None else Some path)
   }"

definition descriptor_location :: "nat \<Rightarrow> 'w os \<Rightarrow> int \<Rightarrow> (('w, 'z) os_state_scheme, (string \<times> nat) option) state" where
  "descriptor_location fuel os fd = do {
     path \<leftarrow> descriptor_path os fd;
     case path of
       None \<Rightarrow> State_Monad.return None
     | Some path \<Rightarrow> do {
         info \<leftarrow> calli os ''fopen'' [Str (fd_link ''fdinfo'' fd), Str ''re''];
         if info = -1 then State_Monad.return None
         else do {
           mount \<leftarrow> mount_id fuel os info;
           _ \<leftarrow> call os ''fclose'' [Num info];
           State_Monad.return (map_option (Pair path) mount)
         }
       }
   }"

definition reachable_from_share :: "nat \<Rightarrow> 'w os \<Rightarrow> int \<Rightarrow> int \<Rightarrow> (('w, 'z) os_state_scheme, bool) state" where
  "reachable_from_share fuel os share directory = do {
     inner \<leftarrow> contains_directory fuel os share directory;
     if inner \<noteq> Some 0 then State_Monad.return True
     else do {
       share_path \<leftarrow> descriptor_path os share;
       case share_path of
         None \<Rightarrow> State_Monad.return True
       | Some share_path \<Rightarrow> do {
           location \<leftarrow> descriptor_location fuel os directory;
           case location of
             None \<Rightarrow> State_Monad.return True
           | Some (path, mount) \<Rightarrow> do {
               mountinfo \<leftarrow> calli os ''fopen'' [Str ''/proc/self/mountinfo'', Str ''re''];
               if mountinfo = -1 then State_Monad.return True
               else do {
                 result \<leftarrow> mount_reachable fuel os share_path path mount;
                 _ \<leftarrow> call os ''fclose'' [Num mountinfo];
                 State_Monad.return (result \<noteq> 0)
               }
             }
         }
     }
   }"

definition usable_runtime :: "nat \<Rightarrow> 'w os \<Rightarrow> int \<Rightarrow> int \<Rightarrow> (('w, 'z) os_state_scheme, bool) state" where
  "usable_runtime fuel os share directory = do {
     fs \<leftarrow> call os ''fstatvfs'' [Fd directory];
     if ret fs \<noteq> 0 \<or> bit (nums fs ! 0) 3 then State_Monad.return False
     else do { reachable \<leftarrow> reachable_from_share fuel os share directory; State_Monad.return (\<not> reachable) }
   }"

definition close_if :: "'w os \<Rightarrow> int \<Rightarrow> (('w, 'z) os_state_scheme, unit) state" where
  "close_if os fd = (if fd \<ge> 0 then do { _ \<leftarrow> call os ''close'' [Fd fd]; State_Monad.return () } else State_Monad.return ())"

text \<open>\<^verbatim>\<open>mkdtemp\<close> replaces the six last characters of its template; the payload is the name it made.\<close>

primrec private_in :: "nat \<Rightarrow> 'w os \<Rightarrow> int \<Rightarrow> string list \<Rightarrow> (('w, 'z) os_state_scheme, int \<times> string) state" where
  "private_in fuel os share [] = do { set_errno EACCES; State_Monad.return (-1, []) }"
| "private_in fuel os share (b # bases) = do {
     base \<leftarrow> calli os ''open'' [Str b, Num (O_RDONLY OR O_DIRECTORY OR O_CLOEXEC)];
     if base < 0 then private_in fuel os share bases
     else do {
       usable \<leftarrow> usable_runtime fuel os share base;
       _ \<leftarrow> call os ''close'' [Fd base];
       if \<not> usable then private_in fuel os share bases
       else do {
         made \<leftarrow> call os ''mkdtemp'' [Str (b @ ''/lash-os-XXXXXX'')];
         let name = ctext (payload made);
         if ret made = -1 then private_in fuel os share bases
         else do {
           created \<leftarrow> calli os ''open'' [Str name, Num (O_RDONLY OR O_DIRECTORY OR O_CLOEXEC OR O_NOFOLLOW)];
           usable \<leftarrow> (if created \<ge> 0 then usable_runtime fuel os share created else State_Monad.return False);
           close_if os created;
           if usable then State_Monad.return (0, name)
           else do { _ \<leftarrow> call os ''rmdir'' [Str name]; private_in fuel os share bases }
         }
       }
     }
   }"

definition private_directory :: "nat \<Rightarrow> 'w os \<Rightarrow> int \<Rightarrow> (('w, 'z) os_state_scheme, int \<times> string) state" where
  "private_directory fuel os share = private_in fuel os share [''/tmp'', ''/var/tmp'']"

subsection \<open>Numbers are read exactly\<close>

definition number_of :: "nat \<Rightarrow> string \<Rightarrow> nat" where
  "number_of = foldl (\<lambda>n c. n * 10 + digit_value c)"

lemma number_of_simps [simp]:
  "number_of n [] = n" "number_of n (c # cs) = number_of (n * 10 + digit_value c) cs"
  by (simp_all add: number_of_def)

lemma number_of_grows: "n \<le> number_of n cs"
proof (induction cs arbitrary: n)
  case (Cons c cs)
  have "n \<le> n * 10 + digit_value c" by simp
  also have "\<dots> \<le> number_of (n * 10 + digit_value c) cs" by (rule Cons.IH)
  finally show ?case by simp
qed simp

lemma number_loop_exact:
  "n \<le> maximum \<Longrightarrow> number_loop maximum n cs =
    (if list_all is_digit cs \<and> number_of n cs \<le> maximum then Some (number_of n cs) else None)"
proof (induction cs arbitrary: n)
  case (Cons c cs)
  have grows: "n * 10 + digit_value c \<le> number_of (n * 10 + digit_value c) cs" by (rule number_of_grows)
  show ?case
  proof (cases "n > maximum div 10")
    case True
    then have "maximum < n * 10" by (simp add: div_less_iff_less_mult)
    then show ?thesis using True grows by auto
  next
    case False
    then show ?thesis using Cons.IH [of "n * 10 + digit_value c"] grows by (auto simp: Let_def)
  qed
qed simp


subsection \<open>Escapes of the mount table\<close>

text \<open>The kernel writes a byte of \<open>special\<close> as a backslash and three octal digits.\<close>

definition octal_escape :: "char \<Rightarrow> string" where
  "octal_escape c = (let v = of_char c :: nat in
     [CHR 0x5C, digit_char (v div 64), digit_char (v div 8 mod 8), digit_char (v mod 8)])"

definition mangle :: "char set \<Rightarrow> string \<Rightarrow> string" where
  "mangle special s = concat (map (\<lambda>c. if c \<in> special then octal_escape c else [c]) s)"

lemma octal_digit: "d < 8 \<Longrightarrow> is_octal (digit_char d) \<and> digit_value (digit_char d) = d"
  by (simp add: is_octal_def digit_char_def digit_value_def)

lemma unescape_octal:
  assumes "c \<noteq> CHR 0x00"
  shows "mountinfo_unescape (octal_escape c @ cs) = map_option (Cons c) (mountinfo_unescape cs)"
proof -
  define v where "v = (of_char c :: nat)"
  define d1 d2 d3 where d: "d1 = v div 64" "d2 = v div 8 mod 8" "d3 = v mod 8"
  have v: "v < 256" "char_of v = c" by (simp_all add: v_def)
  have "char_of (0 :: nat) = CHR 0x00" by (simp add: char_of_def)
  then have nz: "v \<noteq> 0" using assms v(2) by metis
  have "v div 64 = v div 8 div 8" by (simp add: div_mult2_eq [symmetric])
  then have sum: "(d1 * 8 + d2) * 8 + d3 = v" unfolding d by (simp only: div_mult_mod_eq)
  have "d1 < 8" "d2 < 8" "d3 < 8" using v(1) unfolding d by linarith+
  then show ?thesis
    using octal_digit sum v nz unfolding octal_escape_def Let_def v_def [symmetric] d [symmetric]
    by (simp add: sum)
qed

text \<open>
  C15. Decoding inverts the kernel's escaping of mount points, whatever set of bytes the kernel escapes, as
  long as it escapes the backslash.
\<close>
theorem unescape_mangle:
  assumes "CHR 0x5C \<in> special" "CHR 0x00 \<notin> set s"
  shows "mountinfo_unescape (mangle special s) = Some s"
  using assms(2)
proof (induction s)
  case (Cons c s)
  then show ?case
    using assms(1) unescape_octal [where c = c and cs = "mangle special s"] by (auto simp: mangle_def)
qed (simp add: mangle_def)

subsection \<open>Paths as lists of components\<close>

definition component :: "string \<Rightarrow> bool" where
  "component c \<longleftrightarrow> c \<noteq> [] \<and> CHR 0x2F \<notin> set c"

definition slashed :: "string list \<Rightarrow> string" where
  "slashed cs = concat (map (Cons (CHR 0x2F)) cs)"

definition path_of :: "string list \<Rightarrow> string" where
  "path_of cs = (if cs = [] then ''/'' else slashed cs)"

text \<open>\<open>denotes s cs\<close>: \<open>s\<close> is the absolute path of the components \<open>cs\<close>, possibly with a slash at the end.\<close>

definition denotes :: "string \<Rightarrow> string list \<Rightarrow> bool" where
  "denotes s cs \<longleftrightarrow> list_all component cs \<and> (\<exists>t. t \<in> {[], ''/''} \<and> s = slashed cs @ t \<and> (cs = [] \<longrightarrow> t = ''/''))"

definition slashy :: "string \<Rightarrow> bool" where
  "slashy z \<longleftrightarrow> z = [] \<or> hd z = CHR 0x2F"

lemma slashed_simps [simp]:
  "slashed [] = []" "slashed (c # cs) = CHR 0x2F # c @ slashed cs" "slashed (cs @ ds) = slashed cs @ slashed ds"
  by (simp_all add: slashed_def)

lemma slashy_slashed: "t \<in> {[], ''/''} \<Longrightarrow> slashy (slashed cs @ t)"
  by (cases cs) (auto simp: slashy_def)

lemma component_split:
  assumes "CHR 0x2F \<notin> set c" "CHR 0x2F \<notin> set d" "slashy u" "slashy v"
  shows "c @ u = d @ v \<longleftrightarrow> c = d \<and> u = v"
proof
  assume eq: "c @ u = d @ v"
  have take: "takeWhile (\<lambda>x. x \<noteq> CHR 0x2F) (w @ z) = w" if "CHR 0x2F \<notin> set w" "slashy z" for w z
  proof -
    have "takeWhile (\<lambda>x. x \<noteq> CHR 0x2F) (w @ z) = w @ takeWhile (\<lambda>x. x \<noteq> CHR 0x2F) z"
      using that(1) by (intro takeWhile_append2) auto
    then show ?thesis using that(2) by (cases z) (auto simp: slashy_def)
  qed
  have "c = d" using arg_cong [OF eq, of "takeWhile (\<lambda>x. x \<noteq> CHR 0x2F)"] take assms by metis
  then show "c = d \<and> u = v" using eq by simp
qed simp

lemma slashed_split:
  assumes "list_all component ds" "list_all component cs" "slashy z" "t \<in> {[], ''/''}"
  shows "slashed ds @ z = slashed cs @ t \<longleftrightarrow> (\<exists>rs. cs = ds @ rs \<and> z = slashed rs @ t)"
  using assms(1,2)
proof (induction ds arbitrary: cs)
  case (Cons d ds)
  show ?case
  proof (cases cs)
    case Nil
    then show ?thesis using Cons.prems assms(4) by (auto simp: component_def)
  next
    case (Cons c cs')
    have "slashy (slashed ds @ z)" using assms(3) by (cases ds) (auto simp: slashy_def)
    then have "slashed (d # ds) @ z = slashed cs @ t \<longleftrightarrow> d = c \<and> slashed ds @ z = slashed cs' @ t"
      using component_split [OF _ _ _ slashy_slashed [OF assms(4)], of d c "slashed ds @ z" cs'] Cons.prems Cons
      by (auto simp: component_def)
    then show ?thesis using Cons.IH [of cs'] Cons.prems Cons by auto
  qed
qed auto

lemma path_of_root: "list_all component ds \<Longrightarrow> path_of ds = ''/'' \<longleftrightarrow> ds = []"
  by (cases ds) (auto simp: path_of_def component_def)

lemma path_under_split:
  "path_under s p \<longleftrightarrow> (if p = ''/'' then prefix ''/'' s else p \<noteq> [] \<and> (\<exists>z. s = p @ z \<and> slashy z))"
  unfolding path_under_def slashy_def
  by (auto simp: prefix_def nth_append hd_conv_nth) (metis append_Nil2 nth_append_length hd_conv_nth)+

lemma path_under_components:
  assumes "denotes s cs" "list_all component ds"
  shows "path_under s (path_of ds) \<longleftrightarrow> prefix ds cs"
proof (cases "ds = []")
  case True
  have "prefix ''/'' s" using assms(1) by (cases cs) (auto simp: denotes_def)
  then show ?thesis using True by (simp add: path_under_def path_of_def)
next
  case False
  obtain t where t: "t \<in> {[], ''/''}" "s = slashed cs @ t" "list_all component cs" using assms(1) by (auto simp: denotes_def)
  have "path_of ds \<noteq> ''/''" "path_of ds = slashed ds" "slashed ds \<noteq> []"
    using False path_of_root [OF assms(2)] by (cases ds; simp add: path_of_def)+
  then have "path_under s (path_of ds) \<longleftrightarrow> (\<exists>z. slashed cs @ t = slashed ds @ z \<and> slashy z)"
    unfolding path_under_split t(2) by simp
  also have "\<dots> \<longleftrightarrow> (\<exists>rs. cs = ds @ rs)"
    using slashed_split [OF assms(2) t(3) _ t(1)] slashy_slashed [OF t(1)] by metis
  finally show ?thesis by (auto simp: prefix_def)
qed

lemma joined:
  assumes "denotes s (ds @ rs)" "list_all component bs" "join_path n (path_of bs) (below (path_of ds) s) = Some out"
  shows "denotes out (bs @ rs)"
proof -
  obtain t where t: "t \<in> {[], ''/''}" "s = slashed ds @ slashed rs @ t" "list_all component (ds @ rs)"
      "ds @ rs = [] \<longrightarrow> t = ''/''"
    using assms(1) by (auto simp: denotes_def)
  have ds: "list_all component ds" using t(3) by simp
  have rest: "below (path_of ds) s = slashed rs @ t"
    using path_of_root [OF ds] t(2) by (cases "ds = []") (auto simp: below_def path_of_def)
  have "out = (if bs = [] then if slashed rs @ t \<noteq> [] then slashed rs @ t else ''/'' else slashed bs @ slashed rs @ t)"
    using assms(3) path_of_root [OF assms(2)] unfolding rest join_path_def
    by (auto simp: Let_def path_of_def split: if_splits)
  then show ?thesis
    using t assms(2) unfolding denotes_def by (cases "bs = []"; cases rs) (auto split: if_splits)
qed

subsection \<open>Aliases through the mount table\<close>

text \<open>
  The paths at which the mount table exposes a location of a device: for each mount of that device whose
  root is above the location, the rest of the location below the mount point.
\<close>

definition mount_aliases :: "sb_mount \<Rightarrow> string \<Rightarrow> string list \<Rightarrow> string list set" where
  "mount_aliases m dev location = {ps @ rs | ps ds rs. device m = dev \<and> list_all component (ps @ ds) \<and>
     point m = path_of ps \<and> mroot m = path_of ds \<and> location = ds @ rs}"

definition aliases :: "sb_mount list \<Rightarrow> string \<Rightarrow> string list \<Rightarrow> string list set" where
  "aliases mounts dev location = (\<Union>m \<in> set mounts. mount_aliases m dev location)"

definition mounts_ok :: "sb_mount list \<Rightarrow> bool" where
  "mounts_ok mounts \<longleftrightarrow> (\<forall>m \<in> set mounts. (\<exists>ps. list_all component ps \<and> point m = path_of ps) \<and>
     (prefix ''/'' (mroot m) \<longrightarrow> (\<exists>ds. list_all component ds \<and> mroot m = path_of ds)))"

lemma slashed_empty [simp]: "slashed rs = [] \<longleftrightarrow> rs = []" "[] = slashed rs \<longleftrightarrow> rs = []"
  by (cases rs; simp)+

lemma path_of_inj:
  assumes "list_all component cs" "list_all component ds" "path_of cs = path_of ds"
  shows "cs = ds"
proof -
  have "slashed cs = slashed ds"
    using assms(3) path_of_root [OF assms(1)] path_of_root [OF assms(2)] by (auto simp: path_of_def split: if_splits)
  then show ?thesis using slashed_split [OF assms(2,1), of "[]" "[]"] by (simp add: slashy_def)
qed

lemma denotes_path_of: "list_all component cs \<Longrightarrow> denotes (path_of cs) cs"
  by (auto simp: denotes_def path_of_def)

lemma mount_alias:
  assumes "list_all component ps" "list_all component ds" "point m = path_of ps" "mroot m = path_of ds" "device m = dev"
  shows "mount_aliases m dev location = {ps @ rs | rs. location = ds @ rs}"
proof -
  have key: "list_all component (qs @ es) \<and> point m = path_of qs \<and> mroot m = path_of es \<longleftrightarrow> qs = ps \<and> es = ds" for qs es
    using assms(1-4) path_of_inj [of qs ps] path_of_inj [of es ds] by auto
  have "mount_aliases m dev location = {qs @ rs | qs es rs.
      (list_all component (qs @ es) \<and> point m = path_of qs \<and> mroot m = path_of es) \<and> location = es @ rs}"
    unfolding mount_aliases_def using assms(5) by (simp only: simp_thms conj_assoc)
  then show ?thesis unfolding key by simp
qed

lemma alias_scan_one:
  assumes "mounts_ok [m]" "denotes location lcs" "list_all component scs"
  shows "(alias_scan dev location (path_of scs) [m] = 1 \<longrightarrow> (\<exists>a \<in> mount_aliases m dev lcs. prefix scs a)) \<and>
    (alias_scan dev location (path_of scs) [m] = 0 \<longrightarrow> (\<forall>a \<in> mount_aliases m dev lcs. \<not> prefix scs a))"
proof (cases "device m = dev \<and> prefix ''/'' (mroot m)")
  case False
  have "prefix ''/'' (path_of ds)" for ds by (cases ds) (auto simp: path_of_def)
  then have "mount_aliases m dev lcs = {}" using False by (auto simp: mount_aliases_def)
  then show ?thesis using False by auto
next
  case True
  obtain ps ds where m: "list_all component ps" "list_all component ds" "point m = path_of ps" "mroot m = path_of ds"
    using assms(1) True by (auto simp: mounts_ok_def)
  have al: "mount_aliases m dev lcs = {ps @ rs | rs. lcs = ds @ rs}" using mount_alias [OF m] True by blast
  have under: "path_under location (mroot m) \<longleftrightarrow> prefix ds lcs" using path_under_components [OF assms(2) m(2)] m(4) by simp
  show ?thesis
  proof (cases "prefix ds lcs")
    case False
    then show ?thesis using under al by (auto simp: prefix_def)
  next
    case pre: True
    then obtain rs where rs: "lcs = ds @ rs" by (auto simp: prefix_def)
    have "path_under c (path_of scs) \<longleftrightarrow> prefix scs (ps @ rs)"
      if "join_path (2 * PATH_MAX) (point m) (below (mroot m) location) = Some c" for c
      using joined [OF assms(2) [unfolded rs] m(1) that [unfolded m(3,4)]] path_under_components [OF _ assms(3)] by blast
    then show ?thesis
      using True pre under al rs by (auto split: option.splits if_splits)
  qed
qed

lemma alias_scan_Cons:
  "alias_scan dev location share (m # ms) =
     (if alias_scan dev location share [m] = 0 then alias_scan dev location share ms else alias_scan dev location share [m])"
  by (auto split: option.splits)

lemma alias_scan_spec:
  assumes "mounts_ok mounts" "denotes location lcs" "list_all component scs"
  shows "(alias_scan dev location (path_of scs) mounts = 1 \<longrightarrow> (\<exists>a \<in> aliases mounts dev lcs. prefix scs a)) \<and>
    (alias_scan dev location (path_of scs) mounts = 0 \<longrightarrow> (\<forall>a \<in> aliases mounts dev lcs. \<not> prefix scs a))"
  using assms(1)
proof (induction mounts)
  case (Cons m ms)
  have "mounts_ok [m]" "mounts_ok ms" using Cons.prems by (auto simp: mounts_ok_def)
  then show ?case
    using alias_scan_one [OF _ assms(2,3), of m dev] Cons.IH unfolding alias_scan_Cons [of dev location _ m ms]
    by (auto simp: aliases_def split: if_splits)
qed (simp add: aliases_def)

text \<open>
  C8. The mount table is searched exactly. When the decision is that the target cannot be reached through
  the shared folder, no mount of the target's device exposes it at a path below the folder, component by
  component; when it is that the target can be reached, some mount does. Anything else is reported as
  unknown, which the caller treats as reachable.
\<close>
theorem mount_decision_exact:
  assumes "mounts_ok mounts" "list_all component (tcs @ scs)"
    "mount_decision mounts (path_of scs) (path_of tcs) target_mount = d" "d \<noteq> -1"
  shows "\<exists>found fcs rcs rs. found \<in> set mounts \<and> mid found = target_mount \<and> list_all component (fcs @ rcs) \<and>
    point found = path_of fcs \<and> mroot found = path_of rcs \<and> tcs = fcs @ rs \<and>
    (if d = 0 then \<forall>a \<in> aliases mounts (device found) (rcs @ rs). \<not> prefix scs a
     else d = 1 \<and> (\<exists>a \<in> aliases mounts (device found) (rcs @ rs). prefix scs a))"
proof -
  have cs: "list_all component tcs" "list_all component scs" using assms(2) by simp_all
  obtain found location where f: "find (\<lambda>m. mid m = target_mount) (rev mounts) = Some found"
      "prefix ''/'' (mroot found)" "path_under (path_of tcs) (point found)"
      "join_path (2 * PATH_MAX) (mroot found) (below (point found) (path_of tcs)) = Some location"
      "alias_scan (device found) location (path_of scs) mounts = d"
    using assms(3,4) unfolding mount_decision_def by (auto split: option.splits if_splits)
  have found: "found \<in> set mounts" "mid found = target_mount"
    using f(1) by (auto simp: find_Some_iff) (metis length_rev nth_mem set_rev)
  then obtain fcs rcs where r: "list_all component fcs" "list_all component rcs" "point found = path_of fcs" "mroot found = path_of rcs"
    using assms(1) f(2) by (auto simp: mounts_ok_def)
  obtain rs where rs: "tcs = fcs @ rs"
    using f(3) path_under_components [OF denotes_path_of [OF cs(1)] r(1)] r(3) by (auto simp: prefix_def)
  have loc: "denotes location (rcs @ rs)"
    using joined [OF _ r(2)] f(4) denotes_path_of [OF cs(1)] unfolding r(3,4) rs by blast
  have "alias_scan dev location share ms \<in> {-1, 0, 1}" for dev share ms
    by (induction ms) (auto split: option.splits)
  then have "d = 0 \<or> d = 1" using f(5) assms(4) by blast
  then have "if d = 0 then \<forall>a \<in> aliases mounts (device found) (rcs @ rs). \<not> prefix scs a
      else d = 1 \<and> (\<exists>a \<in> aliases mounts (device found) (rcs @ rs). prefix scs a)"
    using alias_scan_spec [OF assms(1) loc cs(2), of "device found"] f(5) by auto
  then show ?thesis
    using found r rs by (intro exI [of _ found] exI [of _ fcs] exI [of _ rcs] exI [of _ rs]) simp
qed

subsection \<open>Instances\<close>

theorem unescape_mangle_witness:
  "mangle {CHR 0x20, CHR 0x5C} ''/a b'' = ''/a'' @ [CHR 0x5C] @ ''040b'' \<and>
   mountinfo_unescape (mangle {CHR 0x20, CHR 0x5C} ''/a b'') = Some ''/a b''"
proof
  show "mangle {CHR 0x20, CHR 0x5C} ''/a b'' = ''/a'' @ [CHR 0x5C] @ ''040b''" by code_simp
  show "mountinfo_unescape (mangle {CHR 0x20, CHR 0x5C} ''/a b'') = Some ''/a b''"
    by (rule unescape_mangle) simp_all
qed

text \<open>A folder of the root file system, bound to the temporary directory.\<close>

definition sample_mounts :: "sb_mount list" where
  "sample_mounts = [\<lparr>mid = 1, device = ''8:1'', mroot = ''/'', point = ''/''\<rparr>,
     \<lparr>mid = 2, device = ''8:1'', mroot = ''/home/u'', point = ''/tmp''\<rparr>]"

theorem mount_decision_exact_witness:
  "mount_decision sample_mounts ''/home'' ''/tmp/x'' 2 = 1 \<and>
   (\<exists>rcs rs. [''tmp'', ''x''] = [''tmp''] @ rs \<and> (\<exists>a \<in> aliases sample_mounts ''8:1'' (rcs @ rs). prefix [''home''] a))"
proof -
  have paths: "path_of [''home''] = ''/home''" "path_of [''tmp'', ''x''] = ''/tmp/x''" "path_of [''tmp''] = ''/tmp''"
    "path_of [] = ''/''" "path_of [''home'', ''u''] = ''/home/u''"
    by (simp_all add: path_of_def)
  have ok: "mounts_ok sample_mounts"
    unfolding mounts_ok_def sample_mounts_def paths [symmetric]
    by (auto intro: exI [of _ "[]"] exI [of _ "[''tmp'']"] exI [of _ "[''home'', ''u'']"] simp: component_def)
  have d: "mount_decision sample_mounts (path_of [''home'']) (path_of [''tmp'', ''x'']) 2 = 1"
    unfolding paths by code_simp
  have "list_all component ([''tmp'', ''x''] @ [''home''])" by (simp add: component_def)
  from mount_decision_exact [OF ok this d] obtain found fcs rcs rs where
      f: "found \<in> set sample_mounts" "mid found = 2" "list_all component (fcs @ rcs)"
      "point found = path_of fcs" "[''tmp'', ''x''] = fcs @ rs" and
      g: "if (1 :: int) = 0 then \<forall>a \<in> aliases sample_mounts (device found) (rcs @ rs). \<not> prefix [''home''] a
        else (1 :: int) = 1 \<and> (\<exists>a \<in> aliases sample_mounts (device found) (rcs @ rs). prefix [''home''] a)"
    by fastforce
  have "fcs = [''tmp'']"
    using f(1,2,4) path_of_inj [of fcs "[''tmp'']"] f(3) paths(3) by (auto simp: sample_mounts_def component_def)
  moreover have "device found = ''8:1''" using f(1) by (auto simp: sample_mounts_def)
  ultimately show ?thesis using f(5) g d unfolding paths by auto
qed

end
