(* ===== verification/Sandbox_Signals.thy ===== *)
theory Sandbox_Signals
  imports Os_Monad
begin

text \<open>
  The signal handlers of \<^verbatim>\<open>src/src/sandbox_host.c\<close> and the flags they set. A signal may arrive before every
  access to a flag: \<open>deliver\<close> is a call whose numbers are the signals caught since the last access.
\<close>

subsection \<open>Signals\<close>

abbreviation (input) SIGPIPE :: int where "SIGPIPE \<equiv> 13"
abbreviation (input) SIGCONT :: int where "SIGCONT \<equiv> 18"
abbreviation (input) SIGTSTP :: int where "SIGTSTP \<equiv> 20"
abbreviation (input) SIGWINCH :: int where "SIGWINCH \<equiv> 28"

record 'w sb_state = "'w os_state" +
  interrupted :: int
  resized :: bool
  suspended :: bool
  continued :: bool

type_synonym ('w, 'a) sbm = "('w sb_state, 'a) state"

definition caught_signal :: "int \<Rightarrow> 'w sb_state \<Rightarrow> 'w sb_state" where
  "caught_signal signo s =
     (if signo = SIGWINCH then s\<lparr>resized := True\<rparr>
      else if signo = SIGTSTP then s\<lparr>suspended := True\<rparr>
      else if signo = SIGCONT then s\<lparr>continued := True\<rparr>
      else if interrupted s = 0 then s\<lparr>interrupted := signo\<rparr>
      else s)"

definition deliver :: "'w os \<Rightarrow> ('w, unit) sbm" where
  "deliver os = do {
     r \<leftarrow> call os ''deliver'' [];
     State_Monad.update (fold caught_signal (nums r))
   }"

definition load :: "'w os \<Rightarrow> ('w sb_state \<Rightarrow> 'a) \<Rightarrow> ('w, 'a) sbm" where
  "load os f = do { deliver os; gets f }"

definition write_flag :: "'w os \<Rightarrow> ('w sb_state \<Rightarrow> 'w sb_state) \<Rightarrow> ('w, unit) sbm" where
  "write_flag os f = do { deliver os; State_Monad.update f }"

definition handled_signals :: "int list" where
  "handled_signals = [2, 15, 1, 3, 10, 12, 14, 24, 25, 26, 27, SIGWINCH, SIGTSTP, SIGCONT, SIGPIPE]"

text \<open>The saved actions, in the order of installation; their number is the field \<^verbatim>\<open>count\<close>.\<close>

type_synonym sb_handlers = "(int \<times> int list) list"

primrec install_from :: "'w os \<Rightarrow> int list \<Rightarrow> sb_handlers \<Rightarrow> ('w, int \<times> sb_handlers) sbm" where
  "install_from os [] old = State_Monad.return (0, old)"
| "install_from os (signo # signals) old = do {
     r \<leftarrow> call os ''sigaction'' [Num signo, Str (if signo = SIGPIPE then ''SIG_IGN'' else ''caught_signal'')];
     if ret r \<noteq> 0 then State_Monad.return (-1, old)
     else install_from os signals (old @ [(signo, nums r)])
   }"

definition install_handlers :: "'w os \<Rightarrow> ('w, int \<times> sb_handlers) sbm" where
  "install_handlers os = do {
     State_Monad.update (\<lambda>s. s\<lparr>interrupted := 0, resized := False, suspended := False, continued := False\<rparr>);
     install_from os handled_signals []
   }"

primrec restore_handlers :: "'w os \<Rightarrow> sb_handlers \<Rightarrow> (('w, 'z) os_state_scheme, unit) state" where
  "restore_handlers os [] = State_Monad.return ()"
| "restore_handlers os (h # hs) = do {
     _ \<leftarrow> call os ''sigaction'' [Num (fst h), Nums (snd h)];
     restore_handlers os hs
   }"

lemma emits_load [emits_rules]: "P (Call ''deliver'' []) \<Longrightarrow> emits P (load os f)"
proof -
  have kept: "trace (fold caught_signal signals s) = trace s" for signals and s :: "'w sb_state"
    by (induction signals arbitrary: s) (simp_all add: caught_signal_def)
  assume "P (Call ''deliver'' [])"
  then show ?thesis unfolding load_def deliver_def
    by (intro emits_rules emits_update) (simp_all add: kept)
qed

end
