(* ===== verification/Sandbox_Extract.thy ===== *)
theory Sandbox_Extract
  imports Sandbox_Paths Sandbox_Signals Sb_Queue
begin

text \<open>
  The virtual machine bundled into the executable: the archive \<^verbatim>\<open>src/scripts/build-sandbox.py\<close> writes
  and \<^verbatim>\<open>extract_bundle\<close> of \<^verbatim>\<open>src/src/sandbox_host.c\<close> unpacks, and the removal of the private
  directory. The decoder is shown to stay inside the archive, to invert the packer, and to create files
  under safe names only. Decompression is a call whose payload is the archive.
\<close>

unbundle bit_operations_syntax

subsection \<open>Reading and names\<close>

primrec pread_all :: "nat \<Rightarrow> 'w os \<Rightarrow> int \<Rightarrow> nat \<Rightarrow> int \<Rightarrow> byte list \<Rightarrow>
    (('w, 'z) os_state_scheme, byte list option option) state" where
  "pread_all 0 os fd n position buf = State_Monad.return (if n = 0 then Some (Some buf) else None)"
| "pread_all (Suc fuel) os fd n position buf =
     (if n = 0 then State_Monad.return (Some (Some buf))
      else do {
        r \<leftarrow> call os ''pread'' [Fd fd, Num (int n), Num position];
        e \<leftarrow> gets errno;
        if ret r < 0 \<and> e = EINTR then pread_all fuel os fd n position buf
        else if ret r \<le> 0 then do { set_errno EINVAL; State_Monad.return (Some None) }
        else pread_all fuel os fd (n - nat (ret r)) (position + ret r) (buf @ take (nat (ret r)) (payload r))
      })"

abbreviation (input) slash :: char where "slash \<equiv> CHR 0x2F"

function safe_parts :: "string \<Rightarrow> bool" where
  "safe_parts p =
     (if p = [] then True
      else let part = takeWhile (\<lambda>c. c \<noteq> slash) p; rest = dropWhile (\<lambda>c. c \<noteq> slash) p in
        if part = [] \<or> part = ''.'' \<or> part = ''..'' then False
        else if rest \<noteq> [] \<and> tl rest = [] then False
        else safe_parts (tl rest))"
  by auto
termination
proof (relation "measure length", simp)
  fix p part rest
  assume "p \<noteq> []" "rest = dropWhile (\<lambda>c. c \<noteq> slash) (p :: string)"
  then show "(tl rest, p) \<in> measure length"
    using length_dropWhile_le [of "\<lambda>c. c \<noteq> slash" p] by (cases p) auto
qed

declare safe_parts.simps [simp del]

definition safe_name :: "string \<Rightarrow> bool" where
  "safe_name name = (if name = [] \<or> hd name = slash then False else safe_parts name)"

subsection \<open>Extracting a file\<close>

text \<open>The walk down the directories of the name, and the file itself at its end.\<close>

function extract_walk :: "nat \<Rightarrow> 'w os \<Rightarrow> int \<Rightarrow> string \<Rightarrow> int \<Rightarrow> byte list \<Rightarrow>
    (('w, 'z) os_state_scheme, (int \<times> int) option) state" where
  "extract_walk fuel os directory part mode bs =
     (if slash \<in> set part then do {
        let name = takeWhile (\<lambda>c. c \<noteq> slash) part;
        made \<leftarrow> calli os ''mkdirat'' [Fd directory, Str name, Num 0x1C0];
        e \<leftarrow> gets errno;
        if made \<noteq> 0 \<and> e \<noteq> EEXIST then State_Monad.return (Some (-1, directory))
        else do {
          next \<leftarrow> calli os ''openat'' [Fd directory, Str name, Num (O_RDONLY OR O_DIRECTORY OR O_NOFOLLOW OR O_CLOEXEC)];
          if next < 0 then State_Monad.return (Some (-1, directory))
          else do {
            _ \<leftarrow> call os ''close'' [Fd directory];
            extract_walk fuel os next (tl (dropWhile (\<lambda>c. c \<noteq> slash) part)) mode bs
          }
        }
      } else do {
        fd \<leftarrow> calli os ''openat'' [Fd directory, Str part,
          Num (O_WRONLY OR O_CREAT OR O_EXCL OR O_NOFOLLOW OR O_CLOEXEC), Num mode];
        if fd < 0 then State_Monad.return (Some (-1, directory))
        else do {
          result \<leftarrow> sb_write_all fuel os fd bs;
          closed \<leftarrow> calli os ''close'' [Fd fd];
          State_Monad.return (map_option (\<lambda>r. (if closed \<noteq> 0 then -1 else r, directory)) result)
        }
      })"
  by pat_completeness auto
termination
proof (relation "measure (\<lambda>(_, _, _, part, _, _). length part)", simp)
  fix part :: string
  assume "slash \<in> set part"
  then have "part \<noteq> []" by auto
  then show "((fuel, os, n, tl (dropWhile (\<lambda>c. c \<noteq> slash) part), mode, bs), (fuel, os, directory, part, mode, bs))
      \<in> measure (\<lambda>(_, _, _, part, _, _). length part)"
    for fuel os n mode bs directory
    using length_dropWhile_le [of "\<lambda>c. c \<noteq> slash" part] by (cases part) auto
qed

declare extract_walk.simps [simp del]

definition extract_file :: "nat \<Rightarrow> 'w os \<Rightarrow> int \<Rightarrow> string \<Rightarrow> int \<Rightarrow> byte list \<Rightarrow>
    (('w, 'z) os_state_scheme, int option) state" where
  "extract_file fuel os root name mode bs = do {
     directory \<leftarrow> calli os ''dup'' [Fd root];
     if directory < 0 then State_Monad.return (Some (-1))
     else do {
       r \<leftarrow> extract_walk fuel os directory name mode bs;
       case r of
         None \<Rightarrow> State_Monad.return None
       | Some (result, directory) \<Rightarrow> do { _ \<leftarrow> call os ''close'' [Fd directory]; State_Monad.return (Some result) }
     }
   }"

subsection \<open>The archive\<close>

text \<open>A failure with an error number, where the result is optional.\<close>

definition fail_some :: "int \<Rightarrow> (('w, 'z) os_state_scheme, int option) state" where
  "fail_some e = do { set_errno e; State_Monad.return (Some (-1)) }"

definition SB_MAX_ARCHIVE :: u64 where "SB_MAX_ARCHIVE = 512 * 2 ^ 20"

definition bundle_magic :: "byte list" where
  "bundle_magic = map (\<lambda>c. of_nat (of_char c)) ''LASHOS-VM-v1'' @ replicate 4 0"

text \<open>\<^verbatim>\<open>memcpy\<close> out of a buffer; outside of it the result is \<open>None\<close>.\<close>

definition fetch :: "byte list \<Rightarrow> u64 \<Rightarrow> nat \<Rightarrow> byte list option" where
  "fetch buf pos n = (if unat pos + n \<le> length buf then Some (take n (drop (unat pos) buf)) else None)"

definition field :: "byte list \<Rightarrow> u64 \<Rightarrow> nat \<Rightarrow> u64 option" where
  "field buf pos n = map_option (\<lambda>bs. of_nat (le_dec bs)) (fetch buf pos n)"

datatype archive_entry =
    End
  | Broken
  | Overrun
  | Entry (ename: string) (emode: int) (edata: "byte list") (enext: u64)

text \<open>One round of the loop over the archive, from the header at \<open>pos\<close>; the sums are those of the code.\<close>

definition read_entry :: "byte list \<Rightarrow> u64 \<Rightarrow> u64 \<Rightarrow> nat \<Rightarrow> archive_entry" where
  "read_entry archive limit pos count =
     (case (field archive pos 4, field archive (pos + 4) 4, field archive (pos + 8) 8) of
        (Some namesize, Some mode, Some bytes) \<Rightarrow>
          let pos = pos + 16 in
          if namesize = 0 \<and> mode = 0 \<and> bytes = 0 \<and> pos = limit then End
          else if namesize = 0 \<or> namesize > 1023 \<or> namesize > limit - pos \<or> bytes > limit - pos - namesize \<or>
            (mode \<noteq> 0x180 \<and> mode \<noteq> 0x1C0) \<or> count + 1 > 1024 then Broken
          else (case fetch archive pos (unat namesize) of
            None \<Rightarrow> Overrun
          | Some name \<Rightarrow>
              if 0 \<in> set name \<or> \<not> safe_name (ctext name) then Broken
              else (case fetch archive (pos + namesize) (unat bytes) of
                None \<Rightarrow> Overrun
              | Some content \<Rightarrow> Entry (ctext name) (uint mode) content (pos + namesize + bytes)))
      | _ \<Rightarrow> Overrun)"

text \<open>Every round moves on: what is left of the archive shrinks by at least the header.\<close>

lemma read_entry_moves:
  assumes "read_entry archive limit pos count = Entry name mode content pos'" "16 \<le> limit - pos"
  shows "unat (limit - pos') + 16 \<le> unat (limit - pos)"
proof -
  obtain namesize bytes where e: "namesize \<le> limit - (pos + 16)" "bytes \<le> limit - (pos + 16) - namesize"
      "pos' = pos + 16 + namesize + bytes"
    using assms(1) by (auto simp: read_entry_def Let_def not_less split: option.splits if_splits)
  define r where "r = limit - pos"
  have r: "limit - (pos + 16) = r - 16" "limit - pos' = r - 16 - namesize - bytes"
    by (simp_all add: r_def e(3) algebra_simps)
  have "unat (r - 16) = unat r - 16" using assms(2) by (simp add: unat_sub r_def)
  moreover have "unat (r - 16 - namesize) = unat (r - 16) - unat namesize"
    using e(1) unfolding r by (simp add: unat_sub)
  moreover have "unat (r - 16 - namesize - bytes) = unat (r - 16 - namesize) - unat bytes"
    using e(2) unfolding r by (simp add: unat_sub)
  moreover have "16 \<le> unat r" using assms(2) by (simp add: r_def word_le_nat_alt)
  ultimately show ?thesis unfolding r r_def [symmetric] by linarith
qed

text \<open>The loop, as long as a header fits; \<^verbatim>\<open>goto done\<close> and the end of the loop return their result.\<close>

function archive_loop :: "nat \<Rightarrow> 'w os \<Rightarrow> int \<Rightarrow> byte list \<Rightarrow> u64 \<Rightarrow> u64 \<Rightarrow> nat \<Rightarrow>
    ('w, int option) sbm" where
  "archive_loop fuel os root archive limit pos count =
     (if \<not> 16 \<le> limit - pos then fail_some EINVAL
      else do {
        signo \<leftarrow> load os interrupted;
        if signo \<noteq> 0 then fail_some EINTR
        else (case read_entry archive limit pos count of
            End \<Rightarrow> State_Monad.return (Some 0)
          | Broken \<Rightarrow> fail_some EINVAL
          | Overrun \<Rightarrow> State_Monad.return None
          | Entry name mode content pos' \<Rightarrow> do {
              r \<leftarrow> extract_file fuel os root name mode content;
              if r \<noteq> Some 0 then State_Monad.return r
              else archive_loop fuel os root archive limit pos' (count + 1)
            })
      })"
  by pat_completeness auto
termination
  by (relation "measure (\<lambda>(_, _, _, _, limit, pos, _). unat (limit - pos))")
    (auto dest!: read_entry_moves)

declare archive_loop.simps [simp del]

definition footer_field :: "byte list \<Rightarrow> nat \<Rightarrow> u64" where
  "footer_field footer off = of_nat (le_dec (take 8 (drop off footer)))"

text \<open>The work between opening and closing the executable; its buffers are released at the end, which the model leaves out.\<close>

definition extract_from :: "nat \<Rightarrow> 'w os \<Rightarrow> int \<Rightarrow> int \<Rightarrow> ('w, int option) sbm" where
  "extract_from fuel os fd root = do {
     st \<leftarrow> call os ''fstat'' [Fd fd];
     if ret st \<noteq> 0 \<or> st_size st < 40 then State_Monad.return (Some (-1))
     else do {
       r \<leftarrow> pread_all fuel os fd 40 (st_size st - 40) [];
       case r of
         None \<Rightarrow> State_Monad.return None
       | Some None \<Rightarrow> State_Monad.return (Some (-1))
       | Some (Some footer) \<Rightarrow> do {
           let offset = footer_field footer 16;
           let packed = footer_field footer 24;
           let limit = footer_field footer 32;
           if take 16 footer \<noteq> bundle_magic \<or> limit = 0 \<or> limit > SB_MAX_ARCHIVE \<or> packed = 0 \<or> packed > SB_MAX_ARCHIVE \<or>
              offset > word_of_int (st_size st) - 40 \<or> packed \<noteq> word_of_int (st_size st) - 40 - offset
           then do { _ \<leftarrow> call os ''fprintf'' [Num 2]; fail_some EINVAL }
           else do {
             compressed \<leftarrow> calli os ''malloc'' [Num (uint packed)];
             buffer \<leftarrow> calli os ''malloc'' [Num (uint limit)];
             if compressed = 0 \<or> buffer = 0 then State_Monad.return (Some (-1))
             else do {
               r \<leftarrow> pread_all fuel os fd (unat packed) (uint offset) [];
               case r of
                 None \<Rightarrow> State_Monad.return None
               | Some None \<Rightarrow> State_Monad.return (Some (-1))
               | Some (Some bs) \<Rightarrow> do {
                   unpacked \<leftarrow> call os ''ZSTD_decompress'' [Num (uint limit), Bytes bs];
                   if ret unpacked \<noteq> uint limit then fail_some EINVAL
                   else archive_loop fuel os root (payload unpacked) limit 0 0
                 }
             }
           }
         }
     }
   }"

definition extract_bundle :: "nat \<Rightarrow> 'w os \<Rightarrow> int \<Rightarrow> ('w, int option) sbm" where
  "extract_bundle fuel os root = do {
     fd \<leftarrow> calli os ''open'' [Str ''/proc/self/exe'', Num (O_RDONLY OR O_CLOEXEC)];
     if fd < 0 then State_Monad.return (Some (-1))
     else do {
       r \<leftarrow> extract_from fuel os fd root;
       _ \<leftarrow> call os ''close'' [Fd fd];
       State_Monad.return r
     }
   }"

text \<open>
  The packer: a header of three little-endian numbers, the name and the contents for each file, and a
  header of zeros.
\<close>

definition pack_entry :: "byte list \<times> u32 \<times> byte list \<Rightarrow> byte list" where
  "pack_entry e = (case e of (name, mode, content) \<Rightarrow>
     le_enc 4 (length name) @ le_enc 4 (unat mode) @ le_enc 8 (length content) @ name @ content)"

definition pack_archive :: "(byte list \<times> u32 \<times> byte list) list \<Rightarrow> byte list" where
  "pack_archive es = concat (map pack_entry es) @ replicate 16 0"

subsection \<open>Removing the private directory\<close>

primrec remove_loop :: "nat \<Rightarrow> 'w os \<Rightarrow> int \<Rightarrow> int \<Rightarrow> (('w, 'z) os_state_scheme, bool) state" where
  "remove_loop 0 os root dir = State_Monad.return False"
| "remove_loop (Suc fuel) os root dir = do {
     entry \<leftarrow> call os ''readdir'' [Num dir];
     let name = ctext (payload entry);
     if ret entry = -1 then do { _ \<leftarrow> call os ''closedir'' [Num dir]; State_Monad.return True }
     else if name = ''.'' \<or> name = ''..'' then remove_loop fuel os root dir
     else do {
       sub \<leftarrow> calli os ''openat'' [Fd root, Str name, Num (O_RDONLY OR O_DIRECTORY OR O_NOFOLLOW OR O_CLOEXEC)];
       if sub \<ge> 0 then do {
         copy \<leftarrow> calli os ''dup'' [Fd sub];
         inner \<leftarrow> calli os ''fdopendir'' [Fd copy];
         ok \<leftarrow> (if inner = -1 then State_Monad.return True else remove_loop fuel os sub inner);
         _ \<leftarrow> call os ''close'' [Fd sub];
         _ \<leftarrow> call os ''unlinkat'' [Fd root, Str name, Num 0x200];
         if ok then remove_loop fuel os root dir else State_Monad.return False
       } else do {
         _ \<leftarrow> call os ''unlinkat'' [Fd root, Str name, Num 0];
         remove_loop fuel os root dir
       }
     }
   }"

definition remove_contents :: "nat \<Rightarrow> 'w os \<Rightarrow> int \<Rightarrow> (('w, 'z) os_state_scheme, bool) state" where
  "remove_contents fuel os root = do {
     copy \<leftarrow> calli os ''dup'' [Fd root];
     dir \<leftarrow> calli os ''fdopendir'' [Fd copy];
     if dir = -1 then State_Monad.return True else remove_loop fuel os root dir
   }"

subsection \<open>Safe names\<close>

definition plain :: "string \<Rightarrow> bool" where
  "plain c \<longleftrightarrow> component c \<and> c \<noteq> ''.'' \<and> c \<noteq> ''..''"

lemma safe_parts_Nil [simp]: "safe_parts []"
  by (subst safe_parts.simps) simp

lemma takeWhile_slash: "slash \<notin> set (takeWhile (\<lambda>c. c \<noteq> slash) p)"
  by (auto dest: set_takeWhileD)

lemma safe_parts_iff: "p \<noteq> [] \<Longrightarrow> safe_parts p \<longleftrightarrow> (\<exists>cs. cs \<noteq> [] \<and> list_all plain cs \<and> slash # p = slashed cs)"
proof (induction p rule: safe_parts.induct)
  case (1 p)
  let ?c = "takeWhile (\<lambda>c. c \<noteq> slash) p" and ?rest = "dropWhile (\<lambda>c. c \<noteq> slash) p"
  have p: "p = ?c @ ?rest" by simp
  have rest: "?rest = [] \<or> ?rest = slash # tl ?rest"
    using hd_dropWhile [of "\<lambda>c. c \<noteq> slash" p] by (cases ?rest) auto
  have split: "slash # p = slashed (c # cs) \<longleftrightarrow> ?c = c \<and> ?rest = slashed cs" if "component c" for c cs
  proof -
    have "slash # p = slashed (c # cs) \<longleftrightarrow> ?c @ ?rest = c @ slashed cs" by simp
    also have "\<dots> \<longleftrightarrow> ?c = c \<and> ?rest = slashed cs"
    proof (rule component_split [OF takeWhile_slash])
      show "slash \<notin> set c" using that by (simp add: component_def)
      show "slashy ?rest" using rest unfolding slashy_def by (metis list.sel(1))
      show "slashy (slashed cs)" using slashy_slashed [of "[]" cs] by simp
    qed
    finally show ?thesis .
  qed
  have plain: "plain ?c \<longleftrightarrow> ?c \<noteq> [] \<and> ?c \<noteq> ''.'' \<and> ?c \<noteq> ''..''"
    using takeWhile_slash by (auto simp: plain_def component_def)
  have lhs: "safe_parts p \<longleftrightarrow> plain ?c \<and> \<not> (?rest \<noteq> [] \<and> tl ?rest = []) \<and> safe_parts (tl ?rest)"
    unfolding plain using 1(2) by (subst safe_parts.simps) (auto simp: Let_def)
  have rhs: "(\<exists>cs. cs \<noteq> [] \<and> list_all plain cs \<and> slash # p = slashed cs) \<longleftrightarrow>
      plain ?c \<and> (\<exists>cs. list_all plain cs \<and> ?rest = slashed cs)"
  proof -
    have "(\<exists>cs. cs \<noteq> [] \<and> list_all plain cs \<and> slash # p = slashed cs) \<longleftrightarrow>
        (\<exists>c cs. plain c \<and> list_all plain cs \<and> slash # p = slashed (c # cs))"
      by (metis list.exhaust list.discI list.pred_inject(2))
    then show ?thesis using split by (auto simp: plain_def simp del: slashed_simps)
  qed
  consider "?rest = []" | "?rest = [slash]" | q where "?rest = slash # q" "q \<noteq> []" using rest by metis
  then show ?case
  proof cases
    case 1
    then show ?thesis unfolding lhs rhs 1 by simp
  next
    case 2
    have "[slash] \<noteq> slashed cs" if "list_all plain cs" for cs
      using that by (cases cs) (auto simp: plain_def component_def)
    then show ?thesis unfolding lhs rhs 2 by auto
  next
    case 3
    then have "safe_parts q \<longleftrightarrow> (\<exists>cs. cs \<noteq> [] \<and> list_all plain cs \<and> slash # q = slashed cs)"
      if "plain ?c" using 1(1) [OF 1(2) refl refl] that 3 by (auto simp: plain)
    moreover have "slash # q = slashed cs \<Longrightarrow> cs \<noteq> []" for cs by auto
    ultimately show ?thesis unfolding lhs rhs 3(1) list.sel using 3(2) by blast
  qed
qed

lemma safe_name_iff:
  "safe_name name \<longleftrightarrow> (\<exists>cs. cs \<noteq> [] \<and> list_all plain cs \<and> slash # name = slashed cs)"
proof (cases "name = [] \<or> hd name = slash")
  case True
  have "slash # name \<noteq> slashed cs" if ne: "cs \<noteq> []" and pl: "list_all plain cs" for cs
  proof -
    obtain c cs' where cs: "cs = c # cs'" using ne by (cases cs) auto
    then have "c \<noteq> []" "slash \<notin> set c" using pl by (simp_all add: plain_def component_def)
    then obtain x xs where "c = x # xs" "x \<noteq> slash" by (cases c) auto
    then show ?thesis using True unfolding cs by auto
  qed
  then show ?thesis using True by (auto simp: safe_name_def)
next
  case False
  then show ?thesis using safe_parts_iff [of name] by (simp add: safe_name_def)
qed

text \<open>
  C14. A name of the bundle is accepted exactly when it is a relative path of one or more components, none of
  them empty, \<^verbatim>\<open>.\<close> or \<^verbatim>\<open>..\<close>: no accepted name is absolute, ends in a slash or leaves its directory.
\<close>
theorem safe_name_exact:
  "safe_name name \<longleftrightarrow> (\<exists>cs. cs \<noteq> [] \<and> list_all plain cs \<and> slash # name = slashed cs)"
  by (rule safe_name_iff)

subsection \<open>The decoder stays inside the archive\<close>

text \<open>The positions the loop reaches.\<close>

inductive visited :: "byte list \<Rightarrow> u64 \<Rightarrow> u64 \<Rightarrow> nat \<Rightarrow> bool" for archive limit where
  start: "visited archive limit 0 0"
| advance: "visited archive limit pos count \<Longrightarrow> 16 \<le> limit - pos \<Longrightarrow>
    read_entry archive limit pos count = Entry name mode content pos' \<Longrightarrow> visited archive limit pos' (count + 1)"

lemma fetch_inside: "unat pos + n \<le> length buf \<Longrightarrow> fetch buf pos n \<noteq> None"
  by (simp add: fetch_def)

lemma unat_plus_le: "unat a + unat b \<le> unat c \<Longrightarrow> unat (a + b) = unat a + unat b" for a b c :: u64
  using unat_bound [of c] by (simp add: unat_word_ariths)

lemma entry_sizes:
  fixes pos limit namesize bytes :: u64
  assumes "unat pos \<le> unat limit" "16 \<le> limit - pos"
  shows "unat pos + 16 \<le> unat limit" "unat (pos + 16) = unat pos + 16"
    "namesize \<le> limit - (pos + 16) \<Longrightarrow> unat (pos + 16) + unat namesize \<le> unat limit"
    "namesize \<le> limit - (pos + 16) \<Longrightarrow> bytes \<le> limit - (pos + 16) - namesize \<Longrightarrow>
       unat (pos + 16 + namesize) + unat bytes \<le> unat limit"
proof -
  have "unat (limit - pos) = unat limit - unat pos" using assms(1) by (simp add: unat_sub word_le_nat_alt)
  then show a: "unat pos + 16 \<le> unat limit" using assms by (simp add: word_le_nat_alt)
  then show b: "unat (pos + 16) = unat pos + 16" using unat_plus_le [of pos 16 limit] by simp
  have sub: "unat (limit - (pos + 16)) = unat limit - unat (pos + 16)"
    using a b by (simp add: unat_sub word_le_nat_alt)
  show c: "unat (pos + 16) + unat namesize \<le> unat limit" if "namesize \<le> limit - (pos + 16)"
    using that sub a b by (simp add: word_le_nat_alt)
  assume n: "namesize \<le> limit - (pos + 16)" and m: "bytes \<le> limit - (pos + 16) - namesize"
  have "unat (limit - (pos + 16) - namesize) = unat limit - unat (pos + 16) - unat namesize"
    using n sub by (simp add: unat_sub)
  then show "unat (pos + 16 + namesize) + unat bytes \<le> unat limit"
    using m c [OF n] unat_plus_le [OF c [OF n]] by (simp add: word_le_nat_alt)
qed

lemma read_entry_inside:
  assumes "length archive = unat limit" "unat pos \<le> unat limit" "16 \<le> limit - pos"
  shows "read_entry archive limit pos count \<noteq> Overrun"
    "read_entry archive limit pos count = Entry name mode content pos' \<Longrightarrow> unat pos' \<le> unat limit"
proof -
  note sizes = entry_sizes [OF assms(2,3)]
  have off: "unat (pos + 4) = unat pos + 4" "unat (pos + 8) = unat pos + 8"
    using sizes(1) unat_plus_le [of pos 4 limit] unat_plus_le [of pos 8 limit] by simp_all
  obtain namesize mode' bytes where f: "field archive pos 4 = Some namesize" "field archive (pos + 4) 4 = Some mode'"
      "field archive (pos + 8) 8 = Some bytes"
    using sizes(1) assms(1) off by (auto simp: field_def fetch_def)
  show "read_entry archive limit pos count \<noteq> Overrun"
    using sizes(3) [of namesize] sizes(4) [of namesize bytes] assms(1)
      fetch_inside [of "pos + 16" "unat namesize" archive] fetch_inside [of "pos + 16 + namesize" "unat bytes" archive]
    unfolding read_entry_def f Let_def by (auto simp: not_less split: option.splits if_splits)
  assume "read_entry archive limit pos count = Entry name mode content pos'"
  then have e: "namesize \<le> limit - (pos + 16)" "bytes \<le> limit - (pos + 16) - namesize" "pos' = pos + 16 + namesize + bytes"
    unfolding read_entry_def f Let_def by (auto simp: not_less split: option.splits if_splits)
  show "unat pos' \<le> unat limit"
    using sizes(4) [OF e(1,2)] unat_plus_le [OF sizes(4) [OF e(1,2)]] e(3) by simp
qed

text \<open>
  C11. Whatever the archive contains, the decoder never reads outside of it: at every position the loop
  reaches, no sum of positions and sizes wraps around and every header, name and file lies within the
  archive. The position never passes the end.
\<close>
theorem archive_in_bounds:
  assumes "length archive = unat limit" "visited archive limit pos count"
  shows "unat pos \<le> length archive \<and> (16 \<le> limit - pos \<longrightarrow> read_entry archive limit pos count \<noteq> Overrun)"
  using assms(2)
proof (induction rule: visited.induct)
  case start
  then show ?case using read_entry_inside [OF assms(1)] by (simp add: assms(1))
next
  case (advance pos count name mode content pos')
  have "unat pos' \<le> unat limit"
    using read_entry_inside(2) [OF assms(1)] advance assms(1) by metis
  then show ?case using read_entry_inside(1) [OF assms(1)] assms(1) by simp
qed

subsection \<open>Unpacking inverts packing\<close>

text \<open>What extracting is to do with a list of files: in order, until one fails or a signal arrives.\<close>

primrec extract_all :: "nat \<Rightarrow> 'w os \<Rightarrow> int \<Rightarrow> (byte list \<times> u32 \<times> byte list) list \<Rightarrow>
    ('w, int option) sbm" where
  "extract_all fuel os root [] = do {
     signo \<leftarrow> load os interrupted;
     if signo \<noteq> 0 then fail_some EINTR else State_Monad.return (Some 0)
   }"
| "extract_all fuel os root (e # es) = do {
     signo \<leftarrow> load os interrupted;
     if signo \<noteq> 0 then fail_some EINTR
     else do {
       r \<leftarrow> extract_file fuel os root (ctext (fst e)) (uint (fst (snd e))) (snd (snd e));
       if r \<noteq> Some 0 then State_Monad.return r else extract_all fuel os root es
     }
   }"

definition bundle_file :: "byte list \<times> u32 \<times> byte list \<Rightarrow> bool" where
  "bundle_file e \<longleftrightarrow> length (fst e) \<in> {1..1023} \<and> 0 \<notin> set (fst e) \<and> safe_name (ctext (fst e)) \<and>
     fst (snd e) \<in> {0x180, 0x1C0}"

lemma fetch_at:
  "length pre < 2 ^ 64 \<Longrightarrow> p = of_nat (length pre) \<Longrightarrow> n = length bs \<Longrightarrow> fetch (pre @ bs @ rest) p n = Some bs"
  by (simp add: fetch_def unat_of_nat take_bit_nat_eq_self)

lemma field_at:
  assumes "length pre < 2 ^ 64" "p = of_nat (length pre)"
  shows "field (pre @ le_enc n x @ rest) p n = Some (of_nat (x mod 256 ^ n))"
  using fetch_at [OF assms, of n "le_enc n x"] by (simp add: field_def le_dec_enc)

lemma read_packed:
  assumes e: "bundle_file (name, mode, content)" and c: "count < 1024"
    and archive: "archive = pre @ pack_entry (name, mode, content) @ rest" "length archive < 2 ^ 64" "limit = of_nat (length archive)"
  shows "read_entry archive limit (of_nat (length pre)) count =
      Entry (ctext name) (uint mode) content (of_nat (length (pre @ pack_entry (name, mode, content))))"
proof -
  let ?p = "of_nat (length pre) :: u64"
  have len: "length (pack_entry (name, mode, content)) = 16 + length name + length content" by (simp add: pack_entry_def)
  have small: "length pre + 16 + length name + length content + length rest < 2 ^ 64"
    using archive(2) unfolding archive(1) by (simp add: len)
  have f: "field archive ?p 4 = Some (of_nat (length name))" "field archive (?p + 4) 4 = Some (ucast mode)"
      "field archive (?p + 8) 8 = Some (of_nat (length content))"
  proof -
    have n: "length name mod 256 ^ 4 = length name" "length content mod 256 ^ 8 = length content"
      using e small by (simp_all add: bundle_file_def)
    have m: "unat mode mod 256 ^ 4 = unat mode" using unat_bound [of mode] by simp
    let ?a = "pre @ le_enc 4 (length name)" and ?b = "pre @ le_enc 4 (length name) @ le_enc 4 (unat mode)"
    have len: "length pre < 2 ^ 64" "length ?a < 2 ^ 64" "length ?b < 2 ^ 64" using small by simp_all
    have at: "?p + 4 = of_nat (length ?a)" "?p + 8 = of_nat (length ?b)" by simp_all
    show "field archive ?p 4 = Some (of_nat (length name))"
      using field_at [OF len(1) refl, of 4 "length name"] unfolding archive(1) pack_entry_def n by simp
    show "field archive (?p + 4) 4 = Some (ucast mode)"
      using field_at [OF len(2) at(1), of 4 "unat mode"] unfolding archive(1) pack_entry_def m by simp
    show "field archive (?p + 8) 8 = Some (of_nat (length content))"
      using field_at [OF len(3) at(2), of 8 "length content"] unfolding archive(1) pack_entry_def n by simp
  qed
  let ?h = "le_enc 4 (length name) @ le_enc 4 (unat mode) @ le_enc 8 (length content)"
  have un: "unat (of_nat k :: u64) = k" if "k < 2 ^ 64" for k
    using that by (simp add: unat_of_nat take_bit_nat_eq_self)
  have fetch: "fetch archive (?p + 16) (length name) = Some name"
      "fetch archive (?p + 16 + of_nat (length name)) (length content) = Some content"
    using fetch_at [of "pre @ ?h" "?p + 16" "length name" name "content @ rest"]
      fetch_at [of "pre @ ?h @ name" "?p + 16 + of_nat (length name)" "length content" content rest] small
    unfolding archive(1) pack_entry_def by simp_all
  have left: "limit - (?p + 16) = of_nat (length name + length content + length rest)"
      "limit - (?p + 16) - of_nat (length name) = of_nat (length content + length rest)"
    unfolding archive(3,1) by (simp_all add: len)
  have "of_nat (length name) \<noteq> (0 :: u64)" "\<not> of_nat (length name) > (1023 :: u64)"
      "\<not> of_nat (length name) > limit - (?p + 16)"
    using e small unfolding left(1) by (auto simp: word_less_nat_alt un bundle_file_def simp del: of_nat_add simp flip: unat_eq_zero)
  moreover have "\<not> of_nat (length content) > limit - (?p + 16) - of_nat (length name)"
    using small unfolding left(2) by (simp add: word_less_nat_alt un del: of_nat_add)
  moreover have "ucast mode = (0x180 :: u64) \<or> ucast mode = (0x1C0 :: u64)" "uint (ucast mode :: u64) = uint mode"
    using e by (auto simp: bundle_file_def)
  moreover have "0 \<notin> set name" "safe_name (ctext name)" using e by (simp_all add: bundle_file_def)
  moreover have "unat (of_nat (length name) :: u64) = length name" "unat (of_nat (length content) :: u64) = length content"
    using un small by simp_all
  ultimately show ?thesis
    using c fetch unfolding read_entry_def f Let_def by (auto simp: len)
qed

lemma le_enc_zero: "le_enc n 0 = replicate n 0"
  by (induction n) simp_all

lemma unpack_suffix:
  assumes "list_all bundle_file es" "count + length es \<le> 1024"
    "archive = pre @ pack_archive es" "length archive < 2 ^ 64" "limit = of_nat (length archive)"
  shows "archive_loop fuel os root archive limit (of_nat (length pre)) count = extract_all fuel os root es"
  using assms
proof (induction es arbitrary: pre count)
  case Nil
  have a: "archive = pre @ le_enc 4 0 @ le_enc 4 0 @ le_enc 8 0"
    using Nil.prems(3) by (simp add: pack_archive_def le_enc_zero flip: replicate_add)
  let ?p = "of_nat (length pre) :: u64"
  have len: "length pre + 16 < 2 ^ 64" using Nil.prems(4) by (simp add: a)
  have f: "field archive ?p 4 = Some 0" "field archive (?p + 4) 4 = Some 0" "field archive (?p + 8) 8 = Some 0"
    using field_at [of pre ?p 4 0 "le_enc 4 0 @ le_enc 8 0"] field_at [of "pre @ le_enc 4 0" "?p + 4" 4 0 "le_enc 8 0"]
      field_at [of "pre @ le_enc 4 0 @ le_enc 4 0" "?p + 8" 8 0 "[]"] len unfolding a by simp_all
  have l: "limit = ?p + 16" using Nil.prems(5) by (simp add: a)
  then have "read_entry archive limit ?p count = End" unfolding read_entry_def f by simp
  then show ?case by (subst archive_loop.simps) (simp add: l cong: if_cong)
next
  case (Cons e es)
  obtain name mode content where e: "e = (name, mode, content)" by (cases e)
  let ?p = "of_nat (length pre) :: u64" and ?pre = "pre @ pack_entry e"
  have a: "archive = pre @ pack_entry e @ pack_archive es" using Cons.prems(3) by (simp add: pack_archive_def)
  have "unat (limit - ?p) = length archive - length pre"
  proof -
    have "limit - ?p = of_nat (length archive - length pre)" using Cons.prems(5) by (simp add: a of_nat_diff)
    then show ?thesis using Cons.prems(4) by (simp add: unat_of_nat take_bit_nat_eq_self)
  qed
  then have more: "16 \<le> limit - ?p" by (simp add: a word_le_nat_alt pack_archive_def)
  have read: "read_entry archive limit ?p count = Entry (ctext name) (uint mode) content (of_nat (length ?pre))"
    using read_packed [of name mode content count archive pre "pack_archive es" limit] Cons.prems(1,2,4,5) a e by simp
  have ih: "list_all bundle_file es" "count + 1 + length es \<le> 1024" "archive = ?pre @ pack_archive es"
    using Cons.prems(1,2) a by simp_all
  show ?case
    using more read Cons.IH [OF ih Cons.prems(4,5)] by (subst archive_loop.simps) (simp add: e cong: if_cong)
qed

text \<open>
  C12. Unpacking inverts packing: run on the archive the build script writes for a list of files with
  acceptable names and modes, the extraction loop does exactly what extracting these files one after the
  other does, with their names, modes and contents, and ends at the closing header.
\<close>
theorem unpack_pack:
  assumes "list_all bundle_file es" "length es \<le> 1024" "length (pack_archive es) < 2 ^ 64"
  shows "archive_loop fuel os root (pack_archive es) (of_nat (length (pack_archive es))) 0 0 = extract_all fuel os root es"
  using assms by (intro unpack_suffix [where pre = "[]", simplified]) simp_all

subsection \<open>Extraction stays below its directory\<close>

text \<open>
  The calls extraction may make. Directories and files are opened and created only by a single component
  relative to a directory descriptor, and opening never follows a symbolic link.
\<close>

fun confined_call :: "oscall \<Rightarrow> bool" where
  "confined_call (Call nm as) =
     (if nm = ''open'' then as = [Str ''/proc/self/exe'', Num (O_RDONLY OR O_CLOEXEC)]
      else if nm = ''openat'' then (case as of Fd _ # Str n # Num flags # _ \<Rightarrow> plain n \<and> bit flags 17 | _ \<Rightarrow> False)
      else if nm = ''mkdirat'' then (case as of Fd _ # Str n # _ \<Rightarrow> plain n | _ \<Rightarrow> False)
      else nm \<in> {''close'', ''dup'', ''fstat'', ''pread'', ''write'', ''malloc'', ''fprintf'', ''deliver'', ''ZSTD_decompress''})"

lemma emits_pread_all: "emits confined_call (pread_all fuel os fd n position buf)"
  by (induction fuel arbitrary: n position buf) (auto intro!: emits_rules)

lemma emits_write_all: "emits confined_call (sb_write_all fuel os fd bs)"
  by (induction fuel arbitrary: bs) (auto intro!: emits_rules)

lemma emits_fail_some: "emits confined_call (fail_some e)"
  unfolding fail_some_def by (intro emits_rules)

lemma emits_extract_walk:
  "list_all plain (c # cs) \<Longrightarrow> slash # part = slashed (c # cs) \<Longrightarrow> emits confined_call (extract_walk fuel os directory part mode bs)"
proof (induction cs arbitrary: c part directory)
  case Nil
  have part: "part = c" "plain c" "slash \<notin> set part" using Nil by (auto simp: plain_def component_def)
  then show ?case
    by (subst extract_walk.simps) (auto intro!: emits_rules emits_write_all)
next
  case (Cons c' cs)
  have part: "part = c @ slashed (c' # cs)" "plain c" "slash \<notin> set c" using Cons.prems by (auto simp: plain_def component_def)
  have parts: "takeWhile (\<lambda>x. x \<noteq> slash) part = c" "dropWhile (\<lambda>x. x \<noteq> slash) part = slashed (c' # cs)"
  proof -
    have "\<And>x. x \<in> set c \<Longrightarrow> x \<noteq> slash" using part(3) by auto
    then show "takeWhile (\<lambda>x. x \<noteq> slash) part = c" "dropWhile (\<lambda>x. x \<noteq> slash) part = slashed (c' # cs)"
      unfolding part(1) by (simp_all add: takeWhile_append2 dropWhile_append2)
  qed
  have rest: "list_all plain (c' # cs)" "slash # tl (slashed (c' # cs)) = slashed (c' # cs)" using Cons.prems(1) by simp_all
  have "slash \<in> set part" by (simp add: part(1))
  then show ?case
    using part(2) by (subst extract_walk.simps)
      (auto simp: parts simp del: slashed_simps intro!: emits_rules Cons.IH [OF rest])
qed

lemma emits_extract_file: "safe_name name \<Longrightarrow> emits confined_call (extract_file fuel os root name mode bs)"
  unfolding extract_file_def safe_name_iff
  by (auto simp: neq_Nil_conv simp del: slashed_simps intro!: emits_rules emits_extract_walk)

lemma read_entry_safe: "read_entry archive limit pos count = Entry name mode content pos' \<Longrightarrow> safe_name name"
  by (auto simp: read_entry_def Let_def split: option.splits if_splits)

lemma emits_archive_loop: "emits confined_call (archive_loop fuel os root archive limit pos count)"
proof (induction fuel os root archive limit pos count rule: archive_loop.induct)
  case (1 fuel os root archive limit pos count)
  show ?case
    by (subst archive_loop.simps)
      (auto intro!: emits_rules emits_fail_some emits_extract_file 1 dest: read_entry_safe split: archive_entry.splits)
qed

lemma emits_extract_from: "emits confined_call (extract_from fuel os fd root)"
  unfolding extract_from_def Let_def
  by (auto intro!: emits_rules emits_fail_some emits_pread_all emits_archive_loop)

lemma emits_extract_bundle: "emits confined_call (extract_bundle fuel os root)"
  unfolding extract_bundle_def by (auto intro!: emits_rules emits_extract_from)


subsection \<open>Instances\<close>

definition absent_os :: "unit os" where
  "absent_os c w = (\<lparr>ret = -1, err = ENOENT, nums = [], payload = []\<rparr>, w)"


theorem archive_in_bounds_witness:
  "unat (0 :: u64) \<le> length (replicate 16 (0 :: byte)) \<and> read_entry (replicate 16 0) 16 0 0 \<noteq> Overrun"
  using archive_in_bounds [OF _ visited.start, of "replicate 16 0" 16] by simp

theorem unpack_pack_witness:
  "archive_loop 5 absent_os 7 (pack_archive [([0x61], 0x180, [1, 2])]) 35 0 0 =
   (extract_all 5 absent_os 7 [([0x61], 0x180, [1, 2])] :: (unit, int option) sbm)"
proof -
  have "ctext [0x61] = ''a''" by code_simp
  moreover have "safe_name ''a''" by code_simp
  ultimately have "list_all bundle_file [([0x61], 0x180, [1, 2])]" by (simp add: bundle_file_def)
  moreover have "length (pack_archive [([0x61], 0x180, [1, 2])]) = 35" by (simp add: pack_archive_def pack_entry_def)
  ultimately show ?thesis using unpack_pack [of "[([0x61], 0x180, [1, 2])]" 5 absent_os 7] by simp
qed

end
