(* ===== verification/Sandbox_Log.thy ===== *)
theory Sandbox_Log
  imports Sb_Queue
begin

text \<open>
  The bounded log of QEMU's diagnostics and of the guest's serial console,
  \<^verbatim>\<open>struct sb_log\<close> of \<^verbatim>\<open>src/src/sandbox_host.c\<close>: a ring of 4096 bytes. The abstract log is the
  sequence of all bytes received; the ring is shown to hold exactly its last 4096, in order.
\<close>

subsection \<open>The ring\<close>

definition SB_LOG_TAIL :: nat where "SB_LOG_TAIL = 4096"

text \<open>\<open>ldata\<close> is the array; \<open>memcpy\<close> into it replaces the elements from an index on.\<close>

record sb_log =
  lfd :: int
  llength :: nat
  lnext :: nat
  ldata :: "byte list"

definition memcpy :: "byte list \<Rightarrow> nat \<Rightarrow> byte list \<Rightarrow> byte list" where
  "memcpy dst off src = take off dst @ src @ drop (off + length src) dst"

text \<open>
  The copying loop. It makes no progress when \<open>lnext\<close> is at the end of the ring, which the code never
  leaves it at; \<open>fuel\<close> bounds the rounds and \<open>None\<close> is running out of it.
\<close>

primrec log_copy :: "nat \<Rightarrow> sb_log \<Rightarrow> byte list \<Rightarrow> sb_log option" where
  "log_copy 0 log bs = (if bs = [] then Some log else None)"
| "log_copy (Suc fuel) log bs =
     (if bs = [] then Some log
      else let n = (if SB_LOG_TAIL - lnext log < length bs then SB_LOG_TAIL - lnext log else length bs) in
        log_copy fuel (log\<lparr>ldata := memcpy (ldata log) (lnext log) (take n bs),
          lnext := (lnext log + n) mod SB_LOG_TAIL,
          llength := (if llength log + n > SB_LOG_TAIL then SB_LOG_TAIL else llength log + n)\<rparr>) (drop n bs))"

definition log_keep :: "sb_log \<Rightarrow> byte list \<Rightarrow> sb_log option" where
  "log_keep log bs =
     (if length bs \<ge> SB_LOG_TAIL
      then Some (log\<lparr>ldata := memcpy (ldata log) 0 (drop (length bs - SB_LOG_TAIL) bs),
        llength := SB_LOG_TAIL, lnext := 0\<rparr>)
      else log_copy (length bs) log bs)"

primrec log_rounds :: "nat \<Rightarrow> 'w os \<Rightarrow> sb_log \<Rightarrow> (('w, 'z) os_state_scheme, sb_log option) state" where
  "log_rounds 0 os log = State_Monad.return (Some log)"
| "log_rounds (Suc i) os log =
     (if lfd log < 0 then State_Monad.return (Some log)
      else do {
        r \<leftarrow> call os ''read'' [Fd (lfd log), Num (int SB_CHUNK)];
        e \<leftarrow> gets errno;
        if ret r > 0 then (case log_keep log (take (nat (ret r)) (payload r)) of
            None \<Rightarrow> State_Monad.return None
          | Some log' \<Rightarrow> log_rounds i os log')
        else if ret r < 0 \<and> e = EINTR then log_rounds i os log
        else if ret r < 0 \<and> e = EAGAIN then State_Monad.return (Some log)
        else do {
          _ \<leftarrow> call os ''close'' [Fd (lfd log)];
          log_rounds i os (log\<lparr>lfd := -1\<rparr>)
        }
      })"

definition log_drain :: "'w os \<Rightarrow> sb_log \<Rightarrow> (('w, 'z) os_state_scheme, sb_log option) state" where
  "log_drain os log = log_rounds 64 os log"

definition log_print :: "nat \<Rightarrow> 'w os \<Rightarrow> sb_log \<Rightarrow> (('w, 'z) os_state_scheme, unit) state" where
  "log_print fuel os log =
     (if llength log < SB_LOG_TAIL then do {
        _ \<leftarrow> sb_write_all fuel os 2 (take (llength log) (ldata log));
        State_Monad.return ()
      } else do {
        _ \<leftarrow> sb_write_all fuel os 2 (drop (lnext log) (ldata log));
        _ \<leftarrow> sb_write_all fuel os 2 (take (lnext log) (ldata log));
        State_Monad.return ()
      })"

subsection \<open>What the ring holds\<close>

definition log_ok :: "sb_log \<Rightarrow> bool" where
  "log_ok log \<longleftrightarrow> length (ldata log) = SB_LOG_TAIL \<and> lnext log < SB_LOG_TAIL \<and> llength log \<le> SB_LOG_TAIL \<and>
     (llength log < SB_LOG_TAIL \<longrightarrow> lnext log = llength log)"

definition log_tail :: "sb_log \<Rightarrow> byte list" where
  "log_tail log = (if llength log < SB_LOG_TAIL then take (llength log) (ldata log)
     else drop (lnext log) (ldata log) @ take (lnext log) (ldata log))"

definition last_bytes :: "nat \<Rightarrow> 'a list \<Rightarrow> 'a list" where
  "last_bytes n xs = drop (length xs - n) xs"

lemma last_bytes_all [simp]: "length xs \<le> n \<Longrightarrow> last_bytes n xs = xs"
  by (simp add: last_bytes_def)

lemma length_last_bytes [simp]: "length (last_bytes n xs) = min n (length xs)"
  by (simp add: last_bytes_def)

lemma last_bytes_append: "last_bytes n (last_bytes n xs @ ys) = last_bytes n (xs @ ys)"
  by (cases "length xs \<le> n") (auto simp: last_bytes_def add.commute)

lemma length_log_tail: "log_ok log \<Longrightarrow> length (log_tail log) = llength log"
  by (auto simp: log_ok_def log_tail_def)

text \<open>One round of the loop, which never crosses the end of the array.\<close>

lemma log_round:
  assumes ok: "log_ok log" and n: "length new \<le> SB_LOG_TAIL - lnext log"
  defines "log' \<equiv> log\<lparr>ldata := memcpy (ldata log) (lnext log) new, lnext := (lnext log + length new) mod SB_LOG_TAIL,
    llength := (if llength log + length new > SB_LOG_TAIL then SB_LOG_TAIL else llength log + length new)\<rparr>"
  shows "log_ok log' \<and> log_tail log' = last_bytes SB_LOG_TAIL (log_tail log @ new)"
proof -
  let ?d = "ldata log" and ?p = "lnext log"
  have d: "length ?d = SB_LOG_TAIL" "?p < SB_LOG_TAIL" using ok by (auto simp: log_ok_def)
  have len: "length (memcpy ?d ?p new) = SB_LOG_TAIL" using d n by (simp add: memcpy_def)
  have at: "take (?p + length new) (memcpy ?d ?p new) = take ?p ?d @ new"
    "drop (?p + length new) (memcpy ?d ?p new) = drop (?p + length new) ?d"
    using d n by (simp_all add: memcpy_def)
  have wrap: "(?p + length new) mod SB_LOG_TAIL = (if ?p + length new = SB_LOG_TAIL then 0 else ?p + length new)"
    using d n by auto
  show ?thesis
  proof (cases "llength log < SB_LOG_TAIL")
    case True
    then have l: "?p = llength log" using ok by (simp add: log_ok_def)
    show ?thesis
      using True n len at d by (auto simp: log'_def log_ok_def log_tail_def wrap l)
  next
    case False
    then have l: "llength log = SB_LOG_TAIL" using ok by (simp add: log_ok_def)
    have "last_bytes SB_LOG_TAIL (log_tail log @ new) = drop (?p + length new) ?d @ take ?p ?d @ new"
      using d n by (simp add: last_bytes_def log_tail_def l add.commute)
    then show ?thesis
      using n len at d by (auto simp: log'_def log_ok_def log_tail_def wrap l)
  qed
qed

lemma log_copy_spec:
  "log_ok log \<Longrightarrow> length bs \<le> fuel \<Longrightarrow> \<exists>log'. log_copy fuel log bs = Some log' \<and> log_ok log' \<and>
    log_tail log' = last_bytes SB_LOG_TAIL (log_tail log @ bs)"
proof (induction fuel arbitrary: log bs)
  case 0
  then show ?case by (simp add: log_ok_def length_log_tail)
next
  case (Suc fuel log bs)
  show ?case
  proof (cases "bs = []")
    case True
    then show ?thesis using Suc.prems(1) length_log_tail [OF Suc.prems(1)] by (auto simp: log_ok_def)
  next
    case False
    define n where "n = (if SB_LOG_TAIL - lnext log < length bs then SB_LOG_TAIL - lnext log else length bs)"
    define log1 where "log1 = log\<lparr>ldata := memcpy (ldata log) (lnext log) (take n bs),
      lnext := (lnext log + n) mod SB_LOG_TAIL,
      llength := (if llength log + n > SB_LOG_TAIL then SB_LOG_TAIL else llength log + n)\<rparr>"
    have n: "length (take n bs) = n" "0 < n" "n \<le> SB_LOG_TAIL - lnext log"
      using Suc.prems(1) False by (auto simp: n_def log_ok_def)
    have one: "log_ok log1" "log_tail log1 = last_bytes SB_LOG_TAIL (log_tail log @ take n bs)"
      using log_round [OF Suc.prems(1), of "take n bs", unfolded n(1), OF n(3)] by (simp_all only: log1_def)
    have "length (drop n bs) \<le> fuel" using Suc.prems(2) n False by simp
    from Suc.IH [OF one(1) this] obtain log' where
      "log_copy fuel log1 (drop n bs) = Some log'" "log_ok log'"
      "log_tail log' = last_bytes SB_LOG_TAIL (log_tail log1 @ drop n bs)" by blast
    then show ?thesis
      using False by (simp add: n_def [symmetric] log1_def [symmetric] one(2) last_bytes_append Let_def)
  qed
qed

lemma log_keep_spec:
  assumes "log_ok log"
  shows "\<exists>log'. log_keep log bs = Some log' \<and> log_ok log' \<and> log_tail log' = last_bytes SB_LOG_TAIL (log_tail log @ bs)"
proof (cases "length bs \<ge> SB_LOG_TAIL")
  case True
  then have "last_bytes SB_LOG_TAIL (log_tail log @ bs) = drop (length bs - SB_LOG_TAIL) bs"
    by (simp add: last_bytes_def)
  then show ?thesis
    using True assms by (auto simp: log_keep_def memcpy_def log_ok_def log_tail_def SB_LOG_TAIL_def)
qed (use log_copy_spec [OF assms] in \<open>simp add: log_keep_def\<close>)

text \<open>
  C13. However the output of the virtual machine is cut into reads, the log holds exactly its last 4096
  bytes in order, and keeping more never fails: starting from a log in order, keeping a sequence of
  chunks leaves the last 4096 bytes of what it held followed by their concatenation.
\<close>
theorem log_keeps_tail:
  assumes "log_ok log"
  shows "\<exists>log'. foldl (\<lambda>l bs. Option.bind l (\<lambda>l. log_keep l bs)) (Some log) chunks = Some log' \<and> log_ok log' \<and>
    log_tail log' = last_bytes SB_LOG_TAIL (log_tail log @ concat chunks)"
  using assms
proof (induction chunks arbitrary: log)
  case Nil
  then show ?case using length_log_tail [of log] by (auto simp: log_ok_def)
next
  case (Cons bs chunks)
  obtain log1 where log1: "log_keep log bs = Some log1" "log_ok log1"
      "log_tail log1 = last_bytes SB_LOG_TAIL (log_tail log @ bs)"
    using log_keep_spec [OF Cons.prems] by blast
  then show ?case using Cons.IH [OF log1(2)] by (simp add: last_bytes_append)
qed

definition empty_log :: sb_log where
  "empty_log = \<lparr>lfd = 5, llength = 0, lnext = 0, ldata = replicate SB_LOG_TAIL 0\<rparr>"

theorem log_keeps_tail_witness:
  "\<exists>log'. foldl (\<lambda>l bs. Option.bind l (\<lambda>l. log_keep l bs)) (Some empty_log) [replicate 4000 1, replicate 200 2] = Some log' \<and>
    log_tail log' = replicate 3896 1 @ replicate 200 2"
proof -
  have ok: "log_ok empty_log" "log_tail empty_log = []" by (simp_all add: empty_log_def log_ok_def log_tail_def SB_LOG_TAIL_def)
  have "last_bytes SB_LOG_TAIL (concat [replicate 4000 1, replicate 200 2]) = replicate 3896 (1 :: byte) @ replicate 200 2"
    by (simp add: last_bytes_def SB_LOG_TAIL_def drop_replicate)
  then show ?thesis using log_keeps_tail [OF ok(1), of "[replicate 4000 1, replicate 200 2]"] ok(2) by auto
qed

end
