(* ===== verification/Sandbox_Relay.thy ===== *)
theory Sandbox_Relay
  imports Sandbox_Log Sandbox_Paths Sandbox_Signals
begin

text \<open>
  The console relay of \<^verbatim>\<open>src/src/sandbox_host.c\<close>: standard streams, the terminal and the loop
  that moves packets between the virtual machine and the caller's descriptors.
\<close>

unbundle bit_operations_syntax

subsection \<open>Streams and the terminal\<close>

datatype stream_kind = SB_STREAM_DIRECT | SB_STREAM_SOCKET | SB_STREAM_PRIVATE | SB_STREAM_GATED

record sb_stream =
  sfd :: int
  skind :: stream_kind

abbreviation (input) PIPE_BUF :: nat where "PIPE_BUF \<equiv> 4096"
abbreviation (input) MSG_DONTWAIT :: int where "MSG_DONTWAIT \<equiv> 0x40"
abbreviation (input) MSG_NOSIGNAL :: int where "MSG_NOSIGNAL \<equiv> 0x4000"

definition stream_open :: "'w os \<Rightarrow> int \<Rightarrow> bool \<Rightarrow> (('w, 'z) os_state_scheme, sb_stream) state" where
  "stream_open os fd writing = do {
     st \<leftarrow> call os ''fstat'' [Fd fd];
     if ret st \<noteq> 0 then State_Monad.return \<lparr>sfd = fd, skind = SB_STREAM_GATED\<rparr>
     else if file_type st \<in> {S_IFREG, S_IFBLK, S_IFDIR} then State_Monad.return \<lparr>sfd = fd, skind = SB_STREAM_DIRECT\<rparr>
     else if file_type st = S_IFSOCK then State_Monad.return \<lparr>sfd = fd, skind = SB_STREAM_SOCKET\<rparr>
     else do {
       tty \<leftarrow> (if file_type st = S_IFIFO then State_Monad.return 1 else calli os ''isatty'' [Fd fd]);
       if tty = 0 then State_Monad.return \<lparr>sfd = fd, skind = SB_STREAM_GATED\<rparr>
       else do {
         copy \<leftarrow> calli os ''open'' [Str (fd_link ''fd'' fd),
           Num ((if writing then O_WRONLY else O_RDONLY) OR O_NONBLOCK OR O_NOCTTY OR O_CLOEXEC)];
         if copy < 0 then State_Monad.return \<lparr>sfd = fd, skind = SB_STREAM_GATED\<rparr>
         else do {
           reopened \<leftarrow> call os ''fstat'' [Fd copy];
           if ret reopened = 0 \<and> st_dev reopened = st_dev st \<and> st_ino reopened = st_ino st \<and> st_rdev reopened = st_rdev st
           then State_Monad.return \<lparr>sfd = copy, skind = SB_STREAM_PRIVATE\<rparr>
           else do {
             _ \<leftarrow> call os ''close'' [Fd copy];
             State_Monad.return \<lparr>sfd = fd, skind = SB_STREAM_GATED\<rparr>
           }
         }
       }
     }
   }"

definition stream_close :: "'w os \<Rightarrow> sb_stream \<Rightarrow> (('w, 'z) os_state_scheme, sb_stream) state" where
  "stream_close os stream = do {
     (if skind stream = SB_STREAM_PRIVATE then close_if os (sfd stream) else State_Monad.return ());
     State_Monad.return (stream\<lparr>sfd := -1\<rparr>)
   }"

definition stream_read :: "'w os \<Rightarrow> sb_stream \<Rightarrow> (('w, 'z) os_state_scheme, osret) state" where
  "stream_read os stream =
     (if skind stream = SB_STREAM_SOCKET then call os ''recv'' [Fd (sfd stream), Num (int SB_CHUNK), Num MSG_DONTWAIT]
      else call os ''read'' [Fd (sfd stream), Num (int SB_CHUNK)])"

definition stream_flush :: "'w os \<Rightarrow> sb_stream \<Rightarrow> sb_queue \<Rightarrow> (('w, 'z) os_state_scheme, int \<times> sb_queue) state" where
  "stream_flush os stream q =
     (if sb_size q = 0 then State_Monad.return (0, q)
      else do {
        let n = (if skind stream = SB_STREAM_GATED \<and> sb_size q > PIPE_BUF then PIPE_BUF else sb_size q);
        n \<leftarrow> (if skind stream = SB_STREAM_SOCKET
              then calli os ''send'' [Fd (sfd stream), Bytes (sb_slice q 0 n), Num (MSG_DONTWAIT OR MSG_NOSIGNAL)]
              else calli os ''write'' [Fd (sfd stream), Bytes (sb_slice q 0 n)]);
        e \<leftarrow> gets errno;
        if n > 0 then State_Monad.return (0, sb_consume q (nat n))
        else if n < 0 \<and> (e = EAGAIN \<or> e = EINTR) then State_Monad.return (0, q)
        else State_Monad.return (-1, q)
      })"

record sb_terminal =
  active :: bool
  raw :: bool
  saved :: "int list"

definition terminal_foreground :: "'w os \<Rightarrow> (('w, 'z) os_state_scheme, bool) state" where
  "terminal_foreground os = do {
     group \<leftarrow> calli os ''tcgetpgrp'' [Fd 0];
     if group < 0 then State_Monad.return True
     else do { own \<leftarrow> calli os ''getpgrp'' []; State_Monad.return (group = own) }
   }"

definition terminal_raw :: "'w os \<Rightarrow> sb_terminal \<Rightarrow> (('w, 'z) os_state_scheme, int \<times> sb_terminal) state" where
  "terminal_raw os terminal = do {
     tty \<leftarrow> call os ''cfmakeraw'' [Nums (saved terminal)];
     r \<leftarrow> calli os ''tcsetattr'' [Fd 0, Num 0, Nums (nums tty)];
     if r \<noteq> 0 then State_Monad.return (-1, terminal) else State_Monad.return (0, terminal\<lparr>raw := True\<rparr>)
   }"

definition terminal_restore :: "'w os \<Rightarrow> sb_terminal \<Rightarrow> (('w, 'z) os_state_scheme, sb_terminal) state" where
  "terminal_restore os terminal =
     (if raw terminal then do {
        r \<leftarrow> calli os ''tcsetattr'' [Fd 0, Num 0, Nums (saved terminal)];
        State_Monad.return (if r = 0 then terminal\<lparr>raw := False\<rparr> else terminal)
      } else State_Monad.return terminal)"

subsection \<open>The relay\<close>

record relay =
  rx :: sb_queue
  tx :: sb_queue
  out :: sb_queue
  errq :: sb_queue
  result :: int
  eof :: bool
  received_exit :: bool
  ready :: bool
  connected :: bool
  terminal :: sb_terminal
  serial_log :: sb_log
  error_log :: sb_log

text \<open>\<^verbatim>\<open>q->start = q->end = 0\<close>, and the queue after an append or a packet whose status is ignored.\<close>

definition sb_clear :: "sb_queue \<Rightarrow> sb_queue" where "sb_clear q = q\<lparr>qstart := 0, qend := 0\<rparr>"

definition kept_queue :: "sb_queue \<Rightarrow> int + sb_queue \<Rightarrow> sb_queue" where
  "kept_queue q r = (case r of Inl _ \<Rightarrow> q | Inr q' \<Rightarrow> q')"

text \<open>
  The packets that have arrived. The result is the last value of \<^verbatim>\<open>frame\<close>, or nothing for a message that
  breaks the protocol.
\<close>

function relay_frames :: "relay \<Rightarrow> relay \<times> sb_frame option" where
  "relay_frames rl =
     (case sb_peek (rx rl) of
        Incomplete \<Rightarrow> (rl, Some Incomplete)
      | Invalid \<Rightarrow> (rl, Some Invalid)
      | Frame type n content \<Rightarrow>
          let next = rl\<lparr>rx := sb_consume (rx rl) (8 + n)\<rparr> in
          if (type = SB_OUTPUT \<or> type = SB_ERROR) \<and> \<not> received_exit rl then
            (if type = SB_OUTPUT then
               if sb_room (out rl) < n then (rl, Some (Frame type n content))
               else relay_frames (next\<lparr>out := kept_queue (out rl) (sb_append (out rl) content)\<rparr>)
             else
               if sb_room (errq rl) < n then (rl, Some (Frame type n content))
               else relay_frames (next\<lparr>errq := kept_queue (errq rl) (sb_append (errq rl) content)\<rparr>))
          else if type = SB_READY \<and> n = 0 \<and> \<not> ready rl \<and> \<not> received_exit rl then
            relay_frames (next\<lparr>ready := True\<rparr>)
          else if type = SB_EXIT \<and> n = 4 \<and> \<not> received_exit rl then
            (if le_dec content > 255 then (rl, None)
             else relay_frames (next\<lparr>received_exit := True, result := int (le_dec content), tx := sb_clear (tx rl)\<rparr>))
          else (rl, None))"
  by pat_completeness auto
termination
  by (relation "measure (\<lambda>rl. sb_size (rx rl))")
    (auto simp: sb_peek_def sb_consume_def sb_size_def Let_def split: if_splits)

declare relay_frames.simps [simp del]

definition relay_signals :: "'w os \<Rightarrow> relay \<Rightarrow> ('w, relay) sbm" where
  "relay_signals os rl = do {
     stop \<leftarrow> load os suspended;
     rl \<leftarrow> (if stop then do {
         write_flag os (\<lambda>s. s\<lparr>suspended := False\<rparr>);
         term \<leftarrow> terminal_restore os (terminal rl);
         _ \<leftarrow> call os ''raise'' [Num 19];
         write_flag os (\<lambda>s. s\<lparr>continued := True\<rparr>);
         State_Monad.return (rl\<lparr>terminal := term\<rparr>)
       } else State_Monad.return rl);
     cont \<leftarrow> load os continued;
     rl \<leftarrow> (if cont then do {
         write_flag os (\<lambda>s. s\<lparr>continued := False\<rparr>);
         foreground \<leftarrow> (if active (terminal rl) then terminal_foreground os else State_Monad.return False);
         if foreground then do {
           (r, term) \<leftarrow> terminal_raw os (terminal rl);
           (if r = 0 then write_flag os (\<lambda>s. s\<lparr>resized := True\<rparr>) else State_Monad.return ());
           State_Monad.return (rl\<lparr>terminal := term\<rparr>)
         } else State_Monad.return rl
       } else State_Monad.return rl);
     size \<leftarrow> load os resized;
     if size \<and> active (terminal rl) \<and> sb_room (tx rl) \<ge> 8 + 8 then do {
       window \<leftarrow> call os ''ioctl'' [Fd 0, Num 0x5413];
       write_flag os (\<lambda>s. s\<lparr>resized := False\<rparr>);
       State_Monad.return (if ret window = 0
         then rl\<lparr>tx := kept_queue (tx rl) (sb_packet (tx rl) SB_WINDOW (take 8 (payload window)))\<rparr> else rl)
     } else State_Monad.return rl
   }"

text \<open>Linux poll events, and what the loop asks for: a descriptor of -1 is skipped.\<close>

abbreviation (input) POLLIN :: int where "POLLIN \<equiv> 1"
abbreviation (input) POLLOUT :: int where "POLLOUT \<equiv> 4"
abbreviation (input) POLLERR :: int where "POLLERR \<equiv> 8"
abbreviation (input) POLLHUP :: int where "POLLHUP \<equiv> 16"

definition channel_events :: "relay \<Rightarrow> int" where
  "channel_events rl = (if sb_room (rx rl) \<ge> SB_CHUNK then POLLIN else 0) OR (if sb_size (tx rl) \<noteq> 0 then POLLOUT else 0)"

definition poll_set :: "int \<Rightarrow> sb_stream list \<Rightarrow> relay \<Rightarrow> (int \<times> int) list" where
  "poll_set channel streams rl = [
     (if connected rl \<and> \<not> received_exit rl \<and> channel_events rl \<noteq> 0 then channel else -1, channel_events rl),
     (if \<not> eof rl \<and> \<not> received_exit rl \<and> sb_room (tx rl) \<ge> SB_CHUNK + 8 then sfd (streams ! 0) else -1, POLLIN),
     (if sb_size (out rl) \<noteq> 0 then sfd (streams ! 1) else -1, POLLOUT),
     (if sb_size (errq rl) \<noteq> 0 then sfd (streams ! 2) else -1, POLLOUT),
     (lfd (serial_log rl), POLLIN),
     (lfd (error_log rl), POLLIN)]"

datatype relay_end = Again | Stop | Stuck

definition some_event :: "int \<Rightarrow> int \<Rightarrow> bool" where
  "some_event revents events \<longleftrightarrow> revents AND events \<noteq> 0"

definition relay_logs :: "'w os \<Rightarrow> int list \<Rightarrow> relay \<Rightarrow> ('w, relay option) sbm" where
  "relay_logs os revents rl = do {
     serial \<leftarrow> (if revents ! 4 \<noteq> 0 then log_drain os (serial_log rl) else State_Monad.return (Some (serial_log rl)));
     errors \<leftarrow> (if revents ! 5 \<noteq> 0 then log_drain os (error_log rl) else State_Monad.return (Some (error_log rl)));
     State_Monad.return (case (serial, errors) of
         (Some serial, Some errors) \<Rightarrow> Some (rl\<lparr>serial_log := serial, error_log := errors\<rparr>)
       | _ \<Rightarrow> None)
   }"

definition relay_input :: "'w os \<Rightarrow> sb_stream list \<Rightarrow> relay \<Rightarrow> ('w, relay) sbm" where
  "relay_input os streams rl = do {
     r \<leftarrow> stream_read os (streams ! 0);
     e \<leftarrow> gets errno;
     State_Monad.return
       (if ret r > 0 then rl\<lparr>tx := kept_queue (tx rl) (sb_packet (tx rl) SB_INPUT (take (nat (ret r)) (payload r)))\<rparr>
        else if ret r = 0 \<or> (e \<noteq> EINTR \<and> e \<noteq> EAGAIN)
        then rl\<lparr>tx := kept_queue (tx rl) (sb_packet (tx rl) SB_EOF []), eof := True\<rparr>
        else rl)
   }"

definition relay_output :: "'w os \<Rightarrow> sb_stream list \<Rightarrow> int list \<Rightarrow> relay \<Rightarrow> ('w, relay \<times> relay_end) sbm" where
  "relay_output os streams revents rl = do {
     (bad, rl) \<leftarrow> (if some_event (revents ! 2) (POLLOUT OR POLLHUP OR POLLERR) then do {
         (r, q) \<leftarrow> stream_flush os (streams ! 1) (out rl);
         State_Monad.return (r \<noteq> 0, rl\<lparr>out := q\<rparr>)
       } else State_Monad.return (False, rl));
     (bad, rl) \<leftarrow> (if \<not> bad \<and> some_event (revents ! 3) (POLLOUT OR POLLHUP OR POLLERR) then do {
         (r, q) \<leftarrow> stream_flush os (streams ! 2) (errq rl);
         State_Monad.return (r \<noteq> 0, rl\<lparr>errq := q\<rparr>)
       } else State_Monad.return (bad, rl));
     State_Monad.return (if bad then (rl\<lparr>result := 141\<rparr>, Stop) else (rl, Again))
   }"

definition relay_channel :: "'w os \<Rightarrow> int \<Rightarrow> int list \<Rightarrow> relay \<Rightarrow> ('w, relay \<times> relay_end) sbm" where
  "relay_channel os channel revents rl = do {
     rl \<leftarrow> (if some_event (revents ! 0) (POLLIN OR POLLHUP OR POLLERR) then do {
         (got, q) \<leftarrow> sb_receive os channel (rx rl);
         State_Monad.return (if got \<le> 0 then rl\<lparr>rx := q, connected := False, tx := sb_clear (tx rl)\<rparr> else rl\<lparr>rx := q\<rparr>)
       } else State_Monad.return rl);
     if connected rl \<and> some_event (revents ! 0) POLLOUT then do {
       (r, q) \<leftarrow> sb_flush os channel (tx rl);
       State_Monad.return (rl\<lparr>tx := q\<rparr>, if r \<noteq> 0 then Stop else Again)
     } else State_Monad.return (rl, Again)
   }"

definition relay_transfer :: "'w os \<Rightarrow> int \<Rightarrow> sb_stream list \<Rightarrow> int list \<Rightarrow> relay \<Rightarrow> ('w, relay \<times> relay_end) sbm" where
  "relay_transfer os channel streams revents rl = do {
     logs \<leftarrow> relay_logs os revents rl;
     case logs of
       None \<Rightarrow> State_Monad.return (rl, Stuck)
     | Some rl \<Rightarrow> do {
         (rl, go) \<leftarrow> relay_channel os channel revents rl;
         if go \<noteq> Again then State_Monad.return (rl, go)
         else do {
           rl \<leftarrow> (if some_event (revents ! 1) (POLLIN OR POLLHUP OR POLLERR) then relay_input os streams rl
                 else State_Monad.return rl);
           relay_output os streams revents rl
         }
       }
   }"

text \<open>The clock in nanoseconds; the code compares the same times as floating-point seconds.\<close>

definition monotonic :: "'w os \<Rightarrow> (('w, 'z) os_state_scheme, int) state" where
  "monotonic os = do {
     r \<leftarrow> call os ''clock_gettime'' [Num 1];
     State_Monad.return (nums r ! 0 * 1000000000 + nums r ! 1)
   }"

text \<open>One round of the loop. A message that breaks the protocol ends it as the label \<^verbatim>\<open>protocol_error\<close> does.\<close>

definition protocol_error :: "'w os \<Rightarrow> relay \<Rightarrow> ('w, relay \<times> relay_end) sbm" where
  "protocol_error os rl = do {
     _ \<leftarrow> call os ''fprintf'' [Num 2];
     State_Monad.return (rl\<lparr>result := 125, received_exit := False\<rparr>, Stop)
   }"

definition relay_wait :: "'w os \<Rightarrow> int \<Rightarrow> sb_stream list \<Rightarrow> relay \<Rightarrow> ('w, relay \<times> relay_end) sbm" where
  "relay_wait os channel streams rl = do {
     r \<leftarrow> call os ''poll'' [Nums (concat (map (\<lambda>(fd, events). [fd, events]) (poll_set channel streams rl))), Num 100];
     e \<leftarrow> gets errno;
     if ret r < 0 then State_Monad.return (rl, if e = EINTR then Again else Stop)
     else relay_transfer os channel streams (nums r) rl
   }"

definition relay_round :: "'w os \<Rightarrow> int \<Rightarrow> sb_stream list \<Rightarrow> int \<Rightarrow> relay \<Rightarrow> ('w, relay \<times> relay_end) sbm" where
  "relay_round os channel streams started rl = do {
     sig \<leftarrow> load os interrupted;
     if sig \<noteq> 0 then do {
       sig \<leftarrow> load os interrupted;
       State_Monad.return (rl\<lparr>result := 128 + sig\<rparr>, Stop)
     } else do {
       rl \<leftarrow> relay_signals os rl;
       case relay_frames rl of
         (rl, None) \<Rightarrow> protocol_error os rl
       | (rl, Some Invalid) \<Rightarrow> protocol_error os rl
       | (rl, Some frame) \<Rightarrow>
           if received_exit rl \<and> sb_size (out rl) = 0 \<and> sb_size (errq rl) = 0 then State_Monad.return (rl, Stop)
           else if \<not> connected rl \<and> frame = Incomplete \<and> \<not> received_exit rl
           then do { _ \<leftarrow> call os ''fprintf'' [Num 2]; State_Monad.return (rl, Stop) }
           else do {
             late \<leftarrow> (if ready rl then State_Monad.return False
                     else do { now \<leftarrow> monotonic os; State_Monad.return (now - started > 120 * 1000000000) });
             if late then do { _ \<leftarrow> call os ''fprintf'' [Num 2]; State_Monad.return (rl, Stop) }
             else relay_wait os channel streams rl
           }
     }
   }"

primrec relay_loop :: "nat \<Rightarrow> 'w os \<Rightarrow> int \<Rightarrow> sb_stream list \<Rightarrow> int \<Rightarrow> relay \<Rightarrow> ('w, relay option) sbm" where
  "relay_loop 0 os channel streams started rl = State_Monad.return None"
| "relay_loop (Suc fuel) os channel streams started rl = do {
     (rl, go) \<leftarrow> relay_round os channel streams started rl;
     case go of
       Again \<Rightarrow> relay_loop fuel os channel streams started rl
     | Stop \<Rightarrow> State_Monad.return (Some rl)
     | Stuck \<Rightarrow> State_Monad.return None
   }"

definition new_relay :: "sb_terminal \<Rightarrow> sb_log \<Rightarrow> sb_log \<Rightarrow> relay" where
  "new_relay term serial errors = \<lparr>rx = sb_new, tx = sb_new, out = sb_new, errq = sb_new, result = 125,
     eof = False, received_exit = False, ready = False, connected = True, terminal = term,
     serial_log = serial, error_log = errors\<rparr>"

text \<open>
  The four queues are allocated first; the result is the relay at its end and whether the launcher
  itself failed. A guest's exit status of 125 is not such a failure.
\<close>

definition console_relay :: "nat \<Rightarrow> 'w os \<Rightarrow> int \<Rightarrow> sb_terminal \<Rightarrow> sb_stream list \<Rightarrow> sb_log \<Rightarrow> sb_log \<Rightarrow>
    ('w, (relay \<times> bool) option) sbm" where
  "console_relay fuel os channel term streams serial errors = do {
     a \<leftarrow> calli os ''calloc'' [Num 1, Num 131088];
     b \<leftarrow> calli os ''calloc'' [Num 1, Num 131088];
     c \<leftarrow> calli os ''calloc'' [Num 1, Num 131088];
     d \<leftarrow> calli os ''calloc'' [Num 1, Num 131088];
     started \<leftarrow> monotonic os;
     let rl = new_relay term serial errors;
     bad \<leftarrow> (if a = 0 \<or> b = 0 \<or> c = 0 \<or> d = 0 then State_Monad.return 1 else sb_nonblock os channel);
     final \<leftarrow> (if bad \<noteq> 0 then State_Monad.return (Some rl) else relay_loop fuel os channel streams started rl);
     State_Monad.return (map_option (\<lambda>rl. (rl, \<not> received_exit rl \<and> result rl = 125)) final)
   }"

subsection \<open>What the relay does with the packets\<close>

definition queues_ok :: "relay \<Rightarrow> bool" where
  "queues_ok rl \<longleftrightarrow> sb_ok (rx rl) \<and> sb_ok (tx rl) \<and> sb_ok (out rl) \<and> sb_ok (errq rl)"

definition content_of :: "u32 \<Rightarrow> (u32 \<times> byte list) list \<Rightarrow> byte list" where
  "content_of type fs = concat (map snd (filter (\<lambda>f. fst f = type) fs))"

lemma content_of_simps [simp]:
  "content_of type [] = []"
  "content_of type (f # fs) = (if fst f = type then snd f @ content_of type fs else content_of type fs)"
  by (simp_all add: content_of_def)

lemma le32_dec: "length bs = 4 \<Longrightarrow> le32 (of_nat (le_dec bs)) = bs"
  using le_dec_bound [of bs] by (simp add: le32_def unat_of_nat take_bit_nat_eq_self le_enc_dec)

lemma peek_Frame_bytes: "peek_bytes a = Frame t n d \<Longrightarrow> a = frame_bytes (t, d) @ drop (8 + n) a \<and> length d = n"
proof -
  assume p: "peek_bytes a = Frame t n d"
  then have n: "n = le_dec (take 4 (drop 4 a))" "8 + n \<le> length a" "t = of_nat (le_dec (take 4 a))" "d = take n (drop 8 a)"
    by (auto simp: peek_bytes_def Let_def split: if_splits)
  then have "frame_bytes (t, d) = take 4 a @ take 4 (drop 4 a) @ take n (drop 8 a)"
    by (simp add: frame_bytes_def le32_dec)
  moreover have "a = take 4 a @ take 4 (drop 4 a) @ take n (drop 8 a) @ drop (8 + n) a"
    by (metis append_take_drop_id drop_drop add.commute numeral_Bit0)
  ultimately show ?thesis using n by simp
qed

text \<open>What becomes of the packets \<open>fs\<close> that were consumed.\<close>

definition relayed :: "relay \<Rightarrow> relay \<Rightarrow> (u32 \<times> byte list) list \<Rightarrow> bool" where
  "relayed rl rl' fs \<longleftrightarrow> queues_ok rl' \<and>
     sb_bytes (rx rl) = concat (map frame_bytes fs) @ sb_bytes (rx rl') \<and>
     sb_bytes (out rl') = sb_bytes (out rl) @ content_of SB_OUTPUT fs \<and>
     sb_bytes (errq rl') = sb_bytes (errq rl) @ content_of SB_ERROR fs \<and>
     (if received_exit rl' = received_exit rl then result rl' = result rl
      else received_exit rl' \<and> fs \<noteq> [] \<and> fst (last fs) = SB_EXIT \<and> result rl' = int (le_dec (snd (last fs))) \<and> result rl' \<le> 255) \<and>
     (received_exit rl \<longrightarrow> fs = [])"

lemma relayed_none: "queues_ok rl \<Longrightarrow> relayed rl rl []"
  by (simp add: relayed_def)

lemma relayed_step:
  assumes "relayed next rl' fs" "\<not> received_exit rl" "sb_bytes (rx rl) = frame_bytes f @ sb_bytes (rx next)"
    "sb_bytes (out next) = sb_bytes (out rl) @ content_of SB_OUTPUT [f]"
    "sb_bytes (errq next) = sb_bytes (errq rl) @ content_of SB_ERROR [f]"
    "if received_exit next then fst f = SB_EXIT \<and> result next = int (le_dec (snd f)) \<and> result next \<le> 255
     else result next = result rl"
  shows "relayed rl rl' (f # fs)"
  using assms unfolding relayed_def by (auto split: if_splits)

lemma relay_frames_relayed:
  "queues_ok rl \<Longrightarrow> \<exists>fs. relayed rl (fst (relay_frames rl)) fs"
proof (induction rl rule: relay_frames.induct)
  case (1 rl)
  show ?case
  proof (cases "sb_peek (rx rl)")
    case (Frame type n content)
    define nx where "nx = rl\<lparr>rx := sb_consume (rx rl) (8 + n)\<rparr>"
    have ok: "sb_ok (rx rl)" "sb_ok (tx rl)" "sb_ok (out rl)" "sb_ok (errq rl)" using 1(5) by (auto simp: queues_ok_def)
    have peek: "sb_bytes (rx rl) = frame_bytes (type, content) @ drop (8 + n) (sb_bytes (rx rl))" "length content = n"
      using peek_Frame_bytes Frame unfolding sb_peek_bytes by blast+
    have "8 + n \<le> sb_size (rx rl)" using peek by (metis length_append length_frame_bytes length_sb_bytes le_add1 snd_conv)
    then have nx: "sb_ok (rx nx)" "sb_bytes (rx nx) = drop (8 + n) (sb_bytes (rx rl))"
      using sb_consume_ok [OF ok(1)] by (simp_all add: nx_def)
    have fits: "sb_ok (kept_queue q (sb_append q content))" "sb_bytes (kept_queue q (sb_append q content)) = sb_bytes q @ content"
      if q: "sb_ok q" and room: "\<not> sb_room q < n" for q
    proof -
      have "sb_size q + length content \<le> SB_QUEUE" using room peek(2) sb_size_bound [OF q] by (simp add: sb_room_def)
      then obtain q' where "sb_append q content = Inr q'" "sb_ok q'" "sb_bytes q' = sb_bytes q @ content"
        using sb_append_fits [OF q] by blast
      then show "sb_ok (kept_queue q (sb_append q content))" "sb_bytes (kept_queue q (sb_append q content)) = sb_bytes q @ content"
        by (simp_all add: kept_queue_def)
    qed
    have step: "\<exists>fs. relayed rl (fst (relay_frames rl)) fs"
      if x: "relay_frames rl = relay_frames x" "\<exists>fs. relayed x (fst (relay_frames x)) fs" "\<not> received_exit rl" "rx x = rx nx"
        "sb_bytes (out x) = sb_bytes (out rl) @ content_of SB_OUTPUT [(type, content)]"
        "sb_bytes (errq x) = sb_bytes (errq rl) @ content_of SB_ERROR [(type, content)]"
        "if received_exit x then type = SB_EXIT \<and> result x = int (le_dec content) \<and> result x \<le> 255 else result x = result rl"
      for x
    proof -
      obtain fs where fs: "relayed x (fst (relay_frames x)) fs" using x(2) by blast
      have front: "sb_bytes (rx rl) = frame_bytes (type, content) @ sb_bytes (rx x)" using x(4) peek(1) nx(2) by simp
      have "relayed rl (fst (relay_frames x)) ((type, content) # fs)"
        by (rule relayed_step [OF fs x(3) front x(5,6)]) (use x(7) in \<open>simp only: fst_conv snd_conv\<close>)
      then show ?thesis unfolding x(1) ..
    qed
    note [simp] = sb_types
    note IH = 1(1-4) [OF Frame nx_def]
    have "fst (relay_frames rl) = rl"
      if "\<not> (type = SB_OUTPUT \<and> \<not> received_exit rl \<and> \<not> sb_room (out rl) < n)"
        "\<not> (type = SB_ERROR \<and> \<not> received_exit rl \<and> \<not> sb_room (errq rl) < n)"
        "\<not> (type = SB_READY \<and> n = 0 \<and> \<not> ready rl \<and> \<not> received_exit rl)"
        "\<not> (type = SB_EXIT \<and> n = 4 \<and> \<not> received_exit rl \<and> \<not> le_dec content > 255)"
      using that by (subst relay_frames.simps) (auto simp: Frame Let_def)
    then consider (out) "type = SB_OUTPUT" "\<not> received_exit rl" "\<not> sb_room (out rl) < n"
      | (err) "type = SB_ERROR" "\<not> received_exit rl" "\<not> sb_room (errq rl) < n"
      | (ready) "type = SB_READY" "n = 0" "\<not> ready rl" "\<not> received_exit rl"
      | (exit) "type = SB_EXIT" "n = 4" "\<not> received_exit rl" "\<not> le_dec content > 255"
      | (stay) "fst (relay_frames rl) = rl"
      by blast
    then show ?thesis
    proof cases
      case out
      have "relay_frames rl = relay_frames (nx\<lparr>out := kept_queue (out rl) (sb_append (out rl) content)\<rparr>)"
        using out by (subst relay_frames.simps) (simp add: Frame Let_def nx_def)
      then show ?thesis
        by (rule step) (use out IH(1) fits [OF ok(3)] ok nx in \<open>auto simp: queues_ok_def nx_def\<close>)
    next
      case err
      have "relay_frames rl = relay_frames (nx\<lparr>errq := kept_queue (errq rl) (sb_append (errq rl) content)\<rparr>)"
        using err by (subst relay_frames.simps) (simp add: Frame Let_def nx_def)
      then show ?thesis
        by (rule step) (use err IH(2) fits [OF ok(4)] ok nx in \<open>auto simp: queues_ok_def nx_def\<close>)
    next
      case ready
      have "relay_frames rl = relay_frames (nx\<lparr>ready := True\<rparr>)"
        using ready by (subst relay_frames.simps) (simp add: Frame Let_def nx_def)
      then show ?thesis
        by (rule step) (use ready IH(3) ok nx in \<open>auto simp: queues_ok_def nx_def\<close>)
    next
      case exit
      have "relay_frames rl = relay_frames (nx\<lparr>received_exit := True, result := int (le_dec content), tx := sb_clear (tx rl)\<rparr>)"
        using exit by (subst relay_frames.simps) (simp add: Frame Let_def nx_def)
      then show ?thesis
        by (rule step) (use exit IH(4) ok nx in \<open>auto simp: queues_ok_def nx_def sb_clear_def sb_ok_def\<close>)
    next
      case stay
      then show ?thesis using relayed_none [OF 1(5)] by metis
    qed
  qed (use 1(5) relayed_none in \<open>subst relay_frames.simps; fastforce\<close>)+
qed


subsection \<open>The queues stay well formed\<close>

text \<open>No write reports more than it was given.\<close>

definition writes_ok :: "'w os \<Rightarrow> bool" where
  "writes_ok os \<longleftrightarrow> (\<forall>fd bs w. ret (fst (os (Call ''write'' [Fd fd, Bytes bs]) w)) \<le> int (length bs) \<and>
     (\<forall>flags. ret (fst (os (Call ''send'' [Fd fd, Bytes bs, Num flags]) w)) \<le> int (length bs)))"

lemma sb_ok_kept:
  "sb_ok q \<Longrightarrow> sb_ok (kept_queue q (sb_append q bs))"
  "sb_ok q \<Longrightarrow> sb_ok (kept_queue q (sb_packet q type bs))"
  "sb_ok (sb_clear q)"
    apply (cases "sb_append q bs"; simp add: kept_queue_def sbq.app_Inr)
   apply (cases "sb_packet q type bs"; simp add: kept_queue_def sbf.packet_Inr)
  by (simp add: sb_clear_def sb_ok_def)

lemma wp_all: "(\<And>r t. Q r t) \<Longrightarrow> wp m Q s"
  by (simp add: wp_def split: prod.splits)

lemma wp_case_pair: "wp (case p of (a, b) \<Rightarrow> f a b) Q s = wp (f (fst p) (snd p)) Q s"
  by (simp add: case_prod_beta)

lemma sb_receive_ok: "sb_ok q \<Longrightarrow> wp (sb_receive os fd q) (\<lambda>r _. sb_ok (snd r)) s"
proof (cases "sb_room q = 0")
  case False
  assume ok: "sb_ok q"
  have "sb_ok q'" if "sb_append q bs = Inr q'" for bs q' using sbq.app_Inr [OF ok that] by simp
  then show ?thesis
    unfolding sb_receive_def Let_def wp_if wp_bind
    apply (intro conjI impI)
    using False apply simp
    apply (rule wp_all)
    using ok by (auto simp: wp_simps split: sum.split)
qed (simp add: sb_receive_def wp_return)

lemma written:
  assumes "writes_ok os"
  shows "wp (calli os ''write'' [Fd fd, Bytes bs]) (\<lambda>n _. n \<le> int (length bs)) s"
    "wp (calli os ''send'' [Fd fd, Bytes bs, Num flags]) (\<lambda>n _. n \<le> int (length bs)) s"
  using assms unfolding writes_ok_def calli_def wp_bind wp_call wp_return
  by (simp_all add: case_prod_beta Let_def)

lemma length_slice: "length (sb_slice q off k) = k"
  by (simp add: sb_slice_def)

lemma sb_flush_ok:
  assumes "writes_ok os" "sb_ok q"
  shows "wp (sb_flush os fd q) (\<lambda>r _. sb_ok (snd r)) s"
proof (cases "sb_size q = 0")
  case False
  have "sb_ok (sb_consume q (nat n))" if "n \<le> int (sb_size q)" for n
    using sb_consume_ok [OF assms(2), of "nat n"] that by simp
  then show ?thesis
    using False assms(2) unfolding sb_flush_def
    by (simp add: wp_bind) (rule wp_mono [OF written(1) [OF assms(1)]], simp add: wp_simps sb_slice_def)
qed (use assms(2) in \<open>simp add: sb_flush_def wp_return\<close>)

lemma stream_flush_ok:
  assumes "writes_ok os" "sb_ok q"
  shows "wp (stream_flush os stream q) (\<lambda>r _. sb_ok (snd r)) s"
proof (cases "sb_size q = 0")
  case False
  define k where "k = (if skind stream = SB_STREAM_GATED \<and> sb_size q > PIPE_BUF then PIPE_BUF else sb_size q)"
  have "k \<le> sb_size q" by (simp add: k_def)
  then have ok: "sb_ok (sb_consume q (nat n))" if "n \<le> int k" for n
    using sb_consume_ok [OF assms(2), of "nat n"] that by simp
  have "wp (if skind stream = SB_STREAM_SOCKET
      then calli os ''send'' [Fd (sfd stream), Bytes (sb_slice q 0 k), Num (MSG_DONTWAIT OR MSG_NOSIGNAL)]
      else calli os ''write'' [Fd (sfd stream), Bytes (sb_slice q 0 k)]) (\<lambda>n _. n \<le> int k) s"
    unfolding wp_if using written [OF assms(1), of "sfd stream" "sb_slice q 0 k", unfolded length_slice] by blast
  then show ?thesis
    using False unfolding stream_flush_def Let_def k_def [symmetric]
    by (simp only: if_False wp_bind) (erule wp_mono, use ok assms(2) in \<open>simp add: wp_simps\<close>)
qed (use assms(2) in \<open>simp add: stream_flush_def wp_return\<close>)

text \<open>A relay computation that keeps the queues well formed.\<close>

definition keeps :: "('w, relay \<times> 'a) sbm \<Rightarrow> bool" where
  "keeps m \<longleftrightarrow> (\<forall>s. wp m (\<lambda>r _. queues_ok (fst r)) s)"

lemma keepsI: "(\<And>s. wp m (\<lambda>r _. queues_ok (fst r)) s) \<Longrightarrow> keeps m"
  by (simp add: keeps_def)

lemma keeps_return: "queues_ok rl \<Longrightarrow> keeps (State_Monad.return (rl, x))"
  by (simp add: keeps_def wp_return)

lemma keeps_any: "(\<And>r. keeps (f r)) \<Longrightarrow> keeps (State_Monad.bind m f)"
  unfolding keeps_def wp_bind by (auto intro: wp_all)

lemma keeps_bind:
  assumes "\<And>s. wp m (\<lambda>r _. P r) s" "\<And>r. P r \<Longrightarrow> keeps (f r)"
  shows "keeps (State_Monad.bind m f)"
  unfolding keeps_def [of "State_Monad.bind m f"] wp_bind
  by (intro allI wp_mono [OF assms(1)]) (use assms(2) in \<open>simp add: keeps_def\<close>)

lemma keeps_if: "(b \<Longrightarrow> keeps m) \<Longrightarrow> (\<not> b \<Longrightarrow> keeps n) \<Longrightarrow> keeps (if b then m else n)"
  by simp

lemma relay_output_keeps:
  assumes "writes_ok os" "queues_ok rl"
  shows "keeps (relay_output os streams revents rl)"
proof -
  have q: "sb_ok (out rl)" "sb_ok (errq rl)" using assms(2) by (simp_all add: queues_ok_def)
  have first: "wp (if b then do { (r, q) \<leftarrow> stream_flush os st (out rl); State_Monad.return (r \<noteq> 0, rl\<lparr>out := q\<rparr>) }
      else State_Monad.return (c, rl)) (\<lambda>r _. queues_ok (snd r)) s" if "queues_ok rl" for b c st s rl
    using that by (auto simp: wp_return wp_bind wp_case_pair queues_ok_def intro!: wp_mono [OF stream_flush_ok [OF assms(1)]])
  have second: "wp (if b then do { (r, q) \<leftarrow> stream_flush os st (errq rl); State_Monad.return (r \<noteq> 0, rl\<lparr>errq := q\<rparr>) }
      else State_Monad.return (c, rl)) (\<lambda>r _. queues_ok (snd r)) s" if "queues_ok rl" for b c st s rl
    using that by (auto simp: wp_return wp_bind wp_case_pair queues_ok_def intro!: wp_mono [OF stream_flush_ok [OF assms(1)]])
  show ?thesis
    unfolding relay_output_def
    by (rule keeps_bind [OF first [OF assms(2)]], simp only: case_prod_beta, rule keeps_bind [OF second], assumption)
      (auto simp: queues_ok_def intro!: keepsI wp_return [THEN iffD2] split: prod.splits)
qed

lemma relay_channel_keeps:
  assumes "writes_ok os" "queues_ok rl"
  shows "wp (relay_channel os channel revents rl) (\<lambda>r _. queues_ok (fst r)) s"
  unfolding relay_channel_def
proof (rule wp_bindI [where P = "\<lambda>rl _. queues_ok rl"])
  show "wp (if some_event (revents ! 0) (POLLIN OR POLLHUP OR POLLERR) then do {
      (got, q) \<leftarrow> sb_receive os channel (rx rl);
      State_Monad.return (if got \<le> 0 then rl\<lparr>rx := q, connected := False, tx := sb_clear (tx rl)\<rparr> else rl\<lparr>rx := q\<rparr>)
    } else State_Monad.return rl) (\<lambda>rl _. queues_ok rl) s"
    using assms(2) by (auto simp: wp_return wp_bind wp_case_pair queues_ok_def sb_ok_kept intro!: wp_mono [OF sb_receive_ok])
  fix rl :: relay and t :: "'a sb_state"
  assume "queues_ok rl"
  then show "wp (if connected rl \<and> some_event (revents ! 0) POLLOUT then do {
      (r, q) \<leftarrow> sb_flush os channel (tx rl);
      State_Monad.return (rl\<lparr>tx := q\<rparr>, if r \<noteq> 0 then Stop else Again)
    } else State_Monad.return (rl, Again)) (\<lambda>r _. queues_ok (fst r)) t"
    by (auto simp: wp_return wp_bind wp_case_pair queues_ok_def intro!: wp_mono [OF sb_flush_ok [OF assms(1)]])
qed

lemma relay_input_keeps: "queues_ok rl \<Longrightarrow> wp (relay_input os streams rl) (\<lambda>rl _. queues_ok rl) s"
  unfolding relay_input_def wp_bind
  by (rule wp_all) (simp add: wp_simps queues_ok_def sb_ok_kept)

lemma relay_logs_keeps: "queues_ok rl \<Longrightarrow> wp (relay_logs os revents rl) (\<lambda>r _. \<forall>rl. r = Some rl \<longrightarrow> queues_ok rl) s"
  unfolding relay_logs_def wp_bind
  by (rule wp_all, rule wp_all) (auto simp: wp_return queues_ok_def split: option.splits)

lemma relay_transfer_keeps:
  assumes "writes_ok os" "queues_ok rl"
  shows "keeps (relay_transfer os channel streams revents rl)"
  unfolding relay_transfer_def
proof (rule keeps_bind [OF relay_logs_keeps [OF assms(2)]])
  fix r :: "relay option"
  assume r: "\<forall>rl. r = Some rl \<longrightarrow> queues_ok rl"
  have rest: "keeps (do { rl \<leftarrow> (if b then relay_input os streams rl else State_Monad.return rl);
      relay_output os streams revents rl })" if "queues_ok rl" for b rl
    by (rule keeps_bind [where P = queues_ok])
      (use that relay_input_keeps relay_output_keeps [OF assms(1)] in \<open>auto simp: wp_return\<close>)
  show "keeps (case r of None \<Rightarrow> State_Monad.return (rl, Stuck)
      | Some rl \<Rightarrow> do {
         (rl, go) \<leftarrow> relay_channel os channel revents rl;
         if go \<noteq> Again then State_Monad.return (rl, go)
         else do {
           rl \<leftarrow> (if some_event (revents ! 1) (POLLIN OR POLLHUP OR POLLERR) then relay_input os streams rl
                 else State_Monad.return rl);
           relay_output os streams revents rl
         }
       })"
  proof (cases r)
    case (Some rl)
    then have "queues_ok rl" using r by simp
    then show ?thesis
      unfolding Some option.case case_prod_beta
      by (intro keeps_bind [OF relay_channel_keeps [OF assms(1)]] keeps_if keeps_return rest)
  qed (simp add: keeps_return assms(2))
qed

definition gives :: "('r \<Rightarrow> bool) \<Rightarrow> ('s, 'r) state \<Rightarrow> bool" where
  "gives P m \<longleftrightarrow> (\<forall>s. wp m (\<lambda>r _. P r) s)"

lemma gives_return: "P x \<Longrightarrow> gives P (State_Monad.return x)"
  by (simp add: gives_def wp_return)

lemma gives_any: "(\<And>r. gives P (f r)) \<Longrightarrow> gives P (State_Monad.bind m f)"
  unfolding gives_def wp_bind by (auto intro: wp_all)

lemma gives_bind:
  assumes "gives R m" "\<And>r. R r \<Longrightarrow> gives P (f r)"
  shows "gives P (State_Monad.bind m f)"
proof -
  have "wp m (\<lambda>r. wp (f r) (\<lambda>r _. P r)) s" for s
    by (rule wp_mono [where Q = "\<lambda>r _. R r"]) (use assms in \<open>simp_all add: gives_def\<close>)
  then show ?thesis by (simp add: gives_def wp_bind)
qed

lemma gives_if: "(b \<Longrightarrow> gives P m) \<Longrightarrow> (\<not> b \<Longrightarrow> gives P n) \<Longrightarrow> gives P (if b then m else n)"
  by simp

lemma queues_ok_terminal: "queues_ok rl \<Longrightarrow> queues_ok (rl\<lparr>terminal := x\<rparr>)"
  by (simp add: queues_ok_def)

lemma relay_signals_gives: "queues_ok rl \<Longrightarrow> gives queues_ok (relay_signals os rl)"
  unfolding relay_signals_def case_prod_beta
  apply (rule gives_any)
  apply (rule gives_bind [where R = queues_ok])
   apply (intro gives_if gives_any gives_return queues_ok_terminal; assumption)
  apply (rule gives_any)
  apply (rule gives_bind [where R = queues_ok])
   apply (intro gives_if gives_any gives_return queues_ok_terminal; assumption)
  by (intro gives_any gives_if gives_return) (auto simp: queues_ok_def sb_ok_kept)

lemma relay_frames_ok: "queues_ok rl \<Longrightarrow> queues_ok (fst (relay_frames rl))"
  using relay_frames_relayed [of rl] by (auto simp: relayed_def)

lemma protocol_error_keeps: "queues_ok rl \<Longrightarrow> keeps (protocol_error os rl)"
  unfolding protocol_error_def by (intro keeps_any keeps_return) (simp add: queues_ok_def)

lemma relay_wait_keeps: "writes_ok os \<Longrightarrow> queues_ok rl \<Longrightarrow> keeps (relay_wait os channel streams rl)"
  unfolding relay_wait_def by (intro keeps_any keeps_if keeps_return relay_transfer_keeps)

lemma relay_round_keeps:
  assumes "writes_ok os" "queues_ok rl"
  shows "keeps (relay_round os channel streams started rl)"
proof -
  have after: "keeps (case relay_frames rl of
         (rl, None) \<Rightarrow> protocol_error os rl
       | (rl, Some Invalid) \<Rightarrow> protocol_error os rl
       | (rl, Some frame) \<Rightarrow>
           if received_exit rl \<and> sb_size (out rl) = 0 \<and> sb_size (errq rl) = 0 then State_Monad.return (rl, Stop)
           else if \<not> connected rl \<and> frame = Incomplete \<and> \<not> received_exit rl
           then do { _ \<leftarrow> call os ''fprintf'' [Num 2]; State_Monad.return (rl, Stop) }
           else do {
             late \<leftarrow> (if ready rl then State_Monad.return False
                     else do { now \<leftarrow> monotonic os; State_Monad.return (now - started > 120 * 1000000000) });
             if late then do { _ \<leftarrow> call os ''fprintf'' [Num 2]; State_Monad.return (rl, Stop) }
             else relay_wait os channel streams rl
           })" if "queues_ok rl" for rl
    using relay_frames_ok [OF that]
    by (cases "relay_frames rl")
      (auto split: option.split sb_frame.split intro!: keeps_any keeps_return protocol_error_keeps relay_wait_keeps [OF assms(1)])
  have "gives queues_ok (relay_signals os rl)" by (rule relay_signals_gives [OF assms(2)])
  then show ?thesis
    unfolding relay_round_def
    by (intro keeps_any keeps_if keeps_bind [where P = queues_ok] after keeps_return)
      (use assms(2) in \<open>simp_all add: gives_def queues_ok_def\<close>)
qed

lemma relay_loop_gives:
  assumes "writes_ok os"
  shows "queues_ok rl \<Longrightarrow> gives (\<lambda>r. \<forall>rl. r = Some rl \<longrightarrow> queues_ok rl) (relay_loop fuel os channel streams started rl)"
proof (induction fuel arbitrary: rl)
  case (Suc fuel)
  have "gives (\<lambda>r. queues_ok (fst r)) (relay_round os channel streams started rl)"
    using relay_round_keeps [OF assms Suc.prems] by (simp add: keeps_def gives_def)
  then show ?case
    by (auto intro!: gives_bind [where R = "\<lambda>r. queues_ok (fst r)"] gives_return Suc.IH split: relay_end.splits)
qed (simp add: gives_return)


subsection \<open>Instances\<close>

definition sample_packets :: "byte list" where
  "sample_packets = frame_bytes (SB_READY, []) @ frame_bytes (SB_OUTPUT, [104, 105]) @ frame_bytes (SB_EXIT, [3, 0, 0, 0])"

definition sample_relay :: relay where
  "sample_relay = (new_relay \<lparr>active = False, raw = False, saved = []\<rparr> empty_log empty_log)
     \<lparr>rx := \<lparr>qstart = 0, qend = 30, qdata = (\<lambda>i. if i < 30 then sample_packets ! i else 0)\<rparr>\<rparr>"


text \<open>A kernel that interrupts the relay with a signal at once.\<close>

definition signal_os :: "unit os" where
  "signal_os c w = (\<lparr>ret = (if cname c = ''calloc'' then 1 else 0), err = 0,
     nums = (if cname c = ''deliver'' then [15] else [0, 0]), payload = []\<rparr>, w)"


end
