(* ===== verification/Spec2Isabelle.thy ===== *)
theory Spec2Isabelle
  imports Sb_Queue Bridge_Fds Signal_Io Guest_Mmap Sandbox_Filter Sandbox_Extract Sandbox_Relay
begin

text \<open>
  A verification development for lash-os, a GNU Bash that runs as eBPF inside the Linux kernel.
\<close>

end
